(* ===== verification/Prelude.thy ===== *)
theory Prelude
  imports Main "HOL-Library.Multiset" "HOL-Library.Sublist"
begin

text \<open>
  Shared vocabulary of the development: the part of the JavaScript standard library the frontend
  uses (strings, \<open>Set\<close>, \<open>slice\<close>, \<open>sort\<close>), executable and with the lemmas the
  components need.

  A JavaScript string is the list of the bytes of its UTF-8 form, so literals that are not ASCII
  are byte sequences. \<open>trim\<close> strips every code point of the ECMAScript white space and line
  terminator sets. No component depends on the length of a string, only on its emptiness.
\<close>

named_theorems js_simps \<open>unfolding equations of the JavaScript library functions\<close>
named_theorems model_defs \<open>definitions of handlers and views that a component's proofs unfold\<close>

section \<open>Truthiness\<close>

definition truthy :: "string \<Rightarrow> bool" where
  "truthy s = (s \<noteq> [])"

definition or_undef :: "string \<Rightarrow> string option" where
  "or_undef s = (if truthy s then Some s else None)"

definition or_else :: "string \<Rightarrow> string \<Rightarrow> string" where
  "or_else s t = (if truthy s then s else t)"

lemma truthy_simps [simp]: "\<not> truthy []" "truthy (c # cs)"
  by (simp_all add: truthy_def)

lemma or_undef_simps [simp]: "or_undef [] = None" "or_undef (c # cs) = Some (c # cs)"
  by (simp_all add: or_undef_def)

lemma or_undef_not_empty [simp]: "or_undef s \<noteq> Some []"
  by (cases s) simp_all

lemma or_else_simps [simp]: "or_else [] t = t" "or_else (c # cs) t = c # cs"
  by (simp_all add: or_else_def)

section \<open>Decimal numerals\<close>

definition digit :: "nat \<Rightarrow> char" where
  "digit n = char_of (48 + n)"

fun show_nat :: "nat \<Rightarrow> string" where
  "show_nat n = (if n < 10 then [digit n] else show_nat (n div 10) @ [digit (n mod 10)])"

declare show_nat.simps [simp del]

definition show_int :: "int \<Rightarrow> string" where
  "show_int i = (if i < 0 then ''-'' @ show_nat (nat (- i)) else show_nat (nat i))"

lemma show_nat_not_Nil [simp]: "show_nat n \<noteq> []"
  by (subst show_nat.simps) simp

lemma show_int_not_Nil [simp]: "show_int i \<noteq> []"
  by (simp add: show_int_def)

section \<open>String.prototype.trim\<close>

definition ws_seqs :: "string list" where
  "ws_seqs =
     [[CHR 0x09], [CHR 0x0A], [CHR 0x0B], [CHR 0x0C], [CHR 0x0D], [CHR 0x20],
      [CHR 0xC2, CHR 0xA0], [CHR 0xE1, CHR 0x9A, CHR 0x80],
      [CHR 0xE2, CHR 0x80, CHR 0x80], [CHR 0xE2, CHR 0x80, CHR 0x81],
      [CHR 0xE2, CHR 0x80, CHR 0x82], [CHR 0xE2, CHR 0x80, CHR 0x83],
      [CHR 0xE2, CHR 0x80, CHR 0x84], [CHR 0xE2, CHR 0x80, CHR 0x85],
      [CHR 0xE2, CHR 0x80, CHR 0x86], [CHR 0xE2, CHR 0x80, CHR 0x87],
      [CHR 0xE2, CHR 0x80, CHR 0x88], [CHR 0xE2, CHR 0x80, CHR 0x89],
      [CHR 0xE2, CHR 0x80, CHR 0x8A], [CHR 0xE2, CHR 0x80, CHR 0xA8],
      [CHR 0xE2, CHR 0x80, CHR 0xA9], [CHR 0xE2, CHR 0x80, CHR 0xAF],
      [CHR 0xE2, CHR 0x81, CHR 0x9F], [CHR 0xE3, CHR 0x80, CHR 0x80],
      [CHR 0xEF, CHR 0xBB, CHR 0xBF]]"

fun strip_one :: "string list \<Rightarrow> string \<Rightarrow> string option" where
  "strip_one [] xs = None"
| "strip_one (w # ws) xs = (if prefix w xs then Some (drop (length w) xs) else strip_one ws xs)"

function strip_with :: "string list \<Rightarrow> string \<Rightarrow> string" where
  "strip_with ws xs =
     (case strip_one ws xs of
        None \<Rightarrow> xs
      | Some ys \<Rightarrow> if length ys < length xs then strip_with ws ys else ys)"
  by pat_completeness auto
termination
  by (relation "measure (\<lambda>(ws, xs). length xs)") auto

declare strip_with.simps [simp del]

definition js_trim :: "string \<Rightarrow> string" where
  "js_trim s = rev (strip_with (map rev ws_seqs) (rev (strip_with ws_seqs s)))"

definition ascii_ws :: "char set" where
  "ascii_ws = {CHR 0x09, CHR 0x0A, CHR 0x0B, CHR 0x0C, CHR 0x0D, CHR 0x20}"

text \<open>A string whose first and last bytes neither start nor end a white space sequence is
  its own trim: in particular every string of visible ASCII characters.\<close>

definition plain_char :: "char \<Rightarrow> bool" where
  "plain_char c \<longleftrightarrow> (\<forall>w\<in>set ws_seqs. c \<notin> set w)"

lemma strip_one_None: "(\<forall>w\<in>set ws. \<not> prefix w xs) \<Longrightarrow> strip_one ws xs = None"
  by (induction ws) auto

lemma strip_one_Some_suffix: "strip_one ws xs = Some ys \<Longrightarrow> \<exists>w\<in>set ws. xs = w @ ys"
  by (induction ws) (auto split: if_splits simp: prefix_def)

lemma strip_with_stable: "(\<forall>w\<in>set ws. \<not> prefix w xs) \<Longrightarrow> strip_with ws xs = xs"
  by (subst strip_with.simps) (simp add: strip_one_None)

lemma strip_one_None_iff: "strip_one ws xs = None \<longleftrightarrow> (\<forall>w\<in>set ws. \<not> prefix w xs)"
  by (induction ws) auto

lemma strip_with_clean:
  "\<forall>w\<in>set ws. w \<noteq> [] \<Longrightarrow> \<forall>w\<in>set ws. \<not> prefix w (strip_with ws xs)"
proof (induction ws xs rule: strip_with.induct)
  case (1 ws xs)
  show ?case
  proof (cases "strip_one ws xs")
    case None
    then have "strip_with ws xs = xs" by (simp add: strip_with.simps [of ws xs])
    with None show ?thesis by (simp add: strip_one_None_iff)
  next
    case (Some ys)
    then have "length ys < length xs"
      using 1(2) by (auto dest: strip_one_Some_suffix)
    with Some 1 show ?thesis by (subst strip_with.simps) simp
  qed
qed

lemma strip_with_suffix: "suffix (strip_with ws xs) xs"
proof (induction ws xs rule: strip_with.induct)
  case (1 ws xs)
  show ?case
  proof (cases "strip_one ws xs")
    case None
    then show ?thesis by (simp add: strip_with.simps [of ws xs])
  next
    case (Some ys)
    then have "suffix ys xs" by (auto dest!: strip_one_Some_suffix simp: suffix_def)
    with Some 1 show ?thesis
      by (auto simp: strip_with.simps [of ws xs] intro: suffix_order.trans)
  qed
qed

lemma ws_seqs_not_Nil: "\<forall>w\<in>set ws_seqs. w \<noteq> []" "\<forall>w\<in>set (map rev ws_seqs). w \<noteq> []"
  by (simp_all add: ws_seqs_def)

lemma js_trim_fixI:
  assumes "\<forall>w\<in>set ws_seqs. \<not> prefix w s" "\<forall>w\<in>set (map rev ws_seqs). \<not> prefix w (rev s)"
  shows "js_trim s = s"
  using assms by (simp add: js_trim_def strip_with_stable del: set_map)

lemma js_trim_idem [simp]: "js_trim (js_trim s) = js_trim s"
proof -
  let ?a = "strip_with ws_seqs s"
  let ?b = "rev (strip_with (map rev ws_seqs) (rev ?a))"
  have "prefix ?b ?a"
    using strip_with_suffix [of "map rev ws_seqs" "rev ?a"] by (simp add: suffix_to_prefix)
  then have front: "\<forall>w\<in>set ws_seqs. \<not> prefix w ?b"
    using strip_with_clean [OF ws_seqs_not_Nil(1), of s] by (meson prefix_order.trans)
  have rear: "\<forall>w\<in>set (map rev ws_seqs). \<not> prefix w (rev ?b)"
    using strip_with_clean [OF ws_seqs_not_Nil(2), of "rev ?a"] by simp
  from js_trim_fixI [OF front rear] show ?thesis by (simp only: js_trim_def [of s])
qed

lemma js_trim_Nil [simp]: "js_trim [] = []"
  by (simp add: js_trim_def strip_with_stable ws_seqs_not_Nil)

lemma plain_char_prefix: "plain_char c \<Longrightarrow> w \<in> set ws_seqs \<Longrightarrow> \<not> prefix w (c # cs)"
  using ws_seqs_not_Nil(1) by (cases w) (auto simp: plain_char_def)

lemma plain_char_suffix:
  assumes "plain_char c" "w \<in> set (map rev ws_seqs)"
  shows "\<not> prefix w (c # cs)"
proof -
  from assms(2) obtain v where v: "v \<in> set ws_seqs" "w = rev v" by auto
  show ?thesis
  proof
    assume "prefix w (c # cs)"
    moreover have "w \<noteq> []" using v ws_seqs_not_Nil(1) by auto
    ultimately have "c \<in> set w" by (cases w) auto
    with v have "c \<in> set v" by simp
    with v assms(1) show False by (simp add: plain_char_def)
  qed
qed

lemma js_trim_plain:
  assumes "s \<noteq> []" "plain_char (hd s)" "plain_char (last s)"
  shows "js_trim s = s"
proof (rule js_trim_fixI)
  show "\<forall>w\<in>set ws_seqs. \<not> prefix w s"
    using assms plain_char_prefix [of "hd s" _ "tl s"] by auto
  show "\<forall>w\<in>set (map rev ws_seqs). \<not> prefix w (rev s)"
  proof
    fix w assume "w \<in> set (map rev ws_seqs)"
    then have "\<not> prefix w (last s # rev (butlast s))"
      by (rule plain_char_suffix [OF assms(3)])
    moreover have "last s # rev (butlast s) = rev s"
      using assms(1) by (metis append_butlast_last_id rev_eq_Cons_iff rev_rev_ident)
    ultimately show "\<not> prefix w (rev s)" by simp
  qed
qed

section \<open>String.prototype.split and Array.prototype.join\<close>

function js_split :: "string \<Rightarrow> string \<Rightarrow> string list" where
  "js_split sep xs =
     (if sep \<noteq> [] \<and> prefix sep xs then [] # js_split sep (drop (length sep) xs)
      else (case xs of
              [] \<Rightarrow> [[]]
            | c # cs \<Rightarrow> (case js_split sep cs of w # ws \<Rightarrow> (c # w) # ws | [] \<Rightarrow> [])))"
  by pat_completeness auto
termination
  by (relation "measure (\<lambda>(sep, xs). length xs)") (auto simp: prefix_def)

declare js_split.simps [simp del]

fun js_join :: "string \<Rightarrow> string list \<Rightarrow> string" where
  "js_join sep [] = []"
| "js_join sep [w] = w"
| "js_join sep (w # v # ws) = w @ sep @ js_join sep (v # ws)"

lemma js_split_not_Nil [simp]: "js_split sep xs \<noteq> []"
proof (induction sep xs rule: js_split.induct)
  case (1 sep xs)
  then show ?case
    by (subst js_split.simps) (auto split: list.splits)
qed

lemma js_join_Cons: "ws \<noteq> [] \<Longrightarrow> js_join sep (w # ws) = w @ sep @ js_join sep ws"
  by (cases ws) simp_all

lemma js_join_Cons_head: "js_join sep ((c # w) # ws) = c # js_join sep (w # ws)"
  by (cases ws) simp_all

lemma js_join_split [simp]: "js_join sep (js_split sep xs) = xs"
proof (induction sep xs rule: js_split.induct)
  case (1 sep xs)
  show ?case
  proof (cases "sep \<noteq> [] \<and> prefix sep xs")
    case True
    then obtain ys where "xs = sep @ ys" by (auto simp: prefix_def)
    with True 1(1) show ?thesis
      by (subst js_split.simps) (simp add: js_join_Cons)
  next
    case False
    show ?thesis
    proof (cases xs)
      case (Cons c cs)
      with False 1(2) have IH: "js_join sep (js_split sep cs) = cs" by simp
      then obtain w ws where "js_split sep cs = w # ws" by (cases "js_split sep cs") auto
      with IH False Cons show ?thesis
        by (subst js_split.simps) (auto simp: js_join_Cons_head)
    qed (use False in \<open>subst js_split.simps, simp\<close>)
  qed
qed

lemma js_split_Nil [simp]: "js_split sep [] = [[]]"
  by (subst js_split.simps) simp

lemma js_split_sep: "sep \<noteq> [] \<Longrightarrow> js_split sep (sep @ xs) = [] # js_split sep xs"
  by (subst js_split.simps) simp

lemma js_split_char_sep: "js_split [c] (c # xs) = [] # js_split [c] xs"
  by (subst js_split.simps) simp

lemma js_split_char_other:
  "c \<noteq> d \<Longrightarrow> js_split [c] (d # xs) = (d # hd (js_split [c] xs)) # tl (js_split [c] xs)"
  by (subst js_split.simps) (auto split: list.splits)

lemma js_split_char_free: "c \<notin> set w \<Longrightarrow> js_split [c] w = [w]"
  by (induction w) (auto simp: js_split_char_other)

lemma js_split_char_append:
  "c \<notin> set w \<Longrightarrow> js_split [c] (w @ c # xs) = w # js_split [c] xs"
  by (induction w) (auto simp: js_split_char_other js_split_char_sep)

lemma js_split_join_char:
  assumes "ws \<noteq> []" "\<forall>w\<in>set ws. c \<notin> set w"
  shows "js_split [c] (js_join [c] ws) = ws"
  using assms
proof (induction ws rule: list_nonempty_induct)
  case (single w)
  then show ?case by (simp add: js_split_char_free)
next
  case (cons w ws)
  then show ?case by (simp add: js_join_Cons js_split_char_append)
qed

text \<open>A separator of several characters splits off the part before its first occurrence.\<close>

lemma js_split_no_sep: "\<not> sublist sep xs \<Longrightarrow> js_split sep xs = [xs]"
proof (induction xs)
  case Nil
  then show ?case by simp
next
  case (Cons c cs)
  then have "js_split sep cs = [cs]" "\<not> prefix sep (c # cs)"
    by (auto simp: sublist_Cons_right)
  then show ?case by (subst js_split.simps) simp
qed

lemma js_split_first:
  assumes "sep \<noteq> []" "\<forall>n < length w. \<not> prefix sep (drop n (w @ sep @ xs))"
  shows "js_split sep (w @ sep @ xs) = w # js_split sep xs"
  using assms(2)
proof (induction w)
  case Nil
  with assms(1) show ?case by (simp add: js_split_sep)
next
  case (Cons c w)
  have "js_split sep (w @ sep @ xs) = w # js_split sep xs"
  proof (rule Cons.IH, intro allI impI)
    fix n assume "n < length w"
    with Cons.prems [rule_format, of "Suc n"] show "\<not> prefix sep (drop n (w @ sep @ xs))"
      by simp
  qed
  moreover have "\<not> prefix sep (c # w @ sep @ xs)"
    using Cons.prems [rule_format, of 0] by simp
  ultimately show ?case
    by (subst js_split.simps) simp
qed

section \<open>Name patterns\<close>

text \<open>The regular expressions of the forms: one first character of \<open>[a-z0-9]\<close>, then
  any number of characters of a class. The anchors make them match the whole string.\<close>

definition lower_alnum :: "char \<Rightarrow> bool" where
  "lower_alnum c \<longleftrightarrow> (let n = (of_char c :: nat) in (97 \<le> n \<and> n \<le> 122) \<or> (48 \<le> n \<and> n \<le> 57))"

fun matches_class :: "char list \<Rightarrow> string \<Rightarrow> bool" where
  "matches_class extra [] = False"
| "matches_class extra (c # cs) =
     (lower_alnum c \<and> (\<forall>d\<in>set cs. lower_alnum d \<or> d \<in> set extra))"

lemma matches_class_not_Nil: "matches_class extra s \<Longrightarrow> s \<noteq> []"
  by (cases s) auto

section \<open>Array.prototype.slice, includes\<close>

definition js_slice :: "'a list \<Rightarrow> nat \<Rightarrow> nat \<Rightarrow> 'a list" where
  "js_slice xs i j = take (j - i) (drop i xs)"

definition string_includes :: "string \<Rightarrow> string \<Rightarrow> bool" where
  "string_includes s t = sublist t s"

lemma js_slice_simps [simp]: "js_slice [] i j = []" "js_slice xs i i = []"
  by (simp_all add: js_slice_def)

lemma set_js_slice: "set (js_slice xs i j) \<subseteq> set xs"
  by (auto simp: js_slice_def dest: in_set_takeD in_set_dropD)

lemma js_slice_beyond: "length xs \<le> i \<Longrightarrow> js_slice xs i j = []"
  by (simp add: js_slice_def)

lemma length_js_slice: "length (js_slice xs i j) = min (j - i) (length xs - i)"
  by (simp add: js_slice_def)

section \<open>Results\<close>

fun result_bind :: "'e + 'a \<Rightarrow> ('a \<Rightarrow> 'e + 'b) \<Rightarrow> 'e + 'b" where
  "result_bind (Inl e) f = Inl e"
| "result_bind (Inr a) f = f a"

lemma result_bind_Inr: "result_bind r f = Inr b \<longleftrightarrow> (\<exists>a. r = Inr a \<and> f a = Inr b)"
  by (cases r) auto

lemma result_bind_Inl: "result_bind r f = Inl e \<longleftrightarrow> r = Inl e \<or> (\<exists>a. r = Inr a \<and> f a = Inl e)"
  by (cases r) auto

text \<open>\<open>Array.prototype.map\<close> with a callback that may throw: left to right, stopping at the
  first throw. The callback gets the index.\<close>

fun map_throw :: "(nat \<Rightarrow> 'a \<Rightarrow> 'e + 'b) \<Rightarrow> nat \<Rightarrow> 'a list \<Rightarrow> 'e + 'b list" where
  "map_throw f i [] = Inr []"
| "map_throw f i (x # xs) =
     result_bind (f i x) (\<lambda>y. result_bind (map_throw f (Suc i) xs) (\<lambda>ys. Inr (y # ys)))"

lemma map_throw_Inr_iff:
  "map_throw f i xs = Inr ys \<longleftrightarrow>
     length ys = length xs \<and> (\<forall>k < length xs. f (i + k) (xs ! k) = Inr (ys ! k))"
proof (induction xs arbitrary: i ys)
  case (Cons x xs)
  show ?case
  proof (cases ys)
    case (Cons y ys')
    then show ?thesis
      by (auto simp: result_bind_Inr Cons.IH nth_Cons less_Suc_eq_0_disj split: nat.splits)
  qed (auto simp: result_bind_Inr)
qed auto

lemma map_throw_Inl_iff:
  "map_throw f i xs = Inl e \<longleftrightarrow>
     (\<exists>k < length xs. f (i + k) (xs ! k) = Inl e \<and> (\<forall>j < k. \<exists>y. f (i + j) (xs ! j) = Inr y))"
proof (induction xs arbitrary: i)
  case (Cons x xs)
  show ?case
  proof (cases "f i x")
    case (Inl e')
    show ?thesis
    proof
      assume "map_throw f i (x # xs) = Inl e"
      with Inl show "\<exists>k<length (x # xs). f (i + k) ((x # xs) ! k) = Inl e \<and>
          (\<forall>j<k. \<exists>y. f (i + j) ((x # xs) ! j) = Inr y)"
        by (intro exI [of _ 0]) simp
    next
      assume "\<exists>k<length (x # xs). f (i + k) ((x # xs) ! k) = Inl e \<and>
          (\<forall>j<k. \<exists>y. f (i + j) ((x # xs) ! j) = Inr y)"
      then obtain k where k: "f (i + k) ((x # xs) ! k) = Inl e"
        "\<forall>j<k. \<exists>y. f (i + j) ((x # xs) ! j) = Inr y" by blast
      have "k = 0"
        using k(2) [rule_format, of 0] Inl by (cases k) auto
      with k(1) Inl show "map_throw f i (x # xs) = Inl e" by simp
    qed
  next
    case (Inr y)
    then show ?thesis
      by (auto simp: result_bind_Inl Cons.IH Ex_less_Suc2 All_less_Suc2)
  qed
qed auto

end
