(* ===== verification/Collections.thy ===== *)
theory Collections
  imports Prelude
begin

text \<open>
  JavaScript collections used by the components: \<open>Set\<close> (insertion ordered, no duplicates) and
  the stable \<open>Array.prototype.sort\<close>; the interfaces \<open>toggle_set\<close> (the toggle handlers of the
  lists, the wizard and the rule editor) and \<open>comparator\<close> (a consistent compare function).
\<close>

section \<open>Set\<close>

type_synonym 'a js_set = "'a list"

definition set_has :: "'a js_set \<Rightarrow> 'a \<Rightarrow> bool" where
  "set_has s x = (x \<in> set s)"

definition set_add :: "'a js_set \<Rightarrow> 'a \<Rightarrow> 'a js_set" where
  "set_add s x = (if x \<in> set s then s else s @ [x])"

definition set_delete :: "'a js_set \<Rightarrow> 'a \<Rightarrow> 'a js_set" where
  "set_delete s x = filter (\<lambda>y. y \<noteq> x) s"

definition set_of_list :: "'a list \<Rightarrow> 'a js_set" where
  "set_of_list xs = foldl set_add [] xs"

definition set_toggle :: "'a js_set \<Rightarrow> 'a \<Rightarrow> 'a js_set" where
  "set_toggle s x = (if set_has s x then set_delete s x else set_add s x)"

lemma set_set_add [simp]: "set (set_add s x) = insert x (set s)"
  by (auto simp: set_add_def)

lemma set_set_delete [simp]: "set (set_delete s x) = set s - {x}"
  by (auto simp: set_delete_def)

lemma set_set_toggle:
  "set (set_toggle s x) = (if x \<in> set s then set s - {x} else insert x (set s))"
  by (simp add: set_toggle_def set_has_def)

lemma set_foldl_add: "set (foldl set_add s xs) = set s \<union> set xs"
  by (induction xs arbitrary: s) auto

lemma set_set_of_list [simp]: "set (set_of_list xs) = set xs"
  by (simp add: set_of_list_def set_foldl_add)

lemma distinct_set_add [simp]: "distinct s \<Longrightarrow> distinct (set_add s x)"
  by (simp add: set_add_def)

lemma distinct_set_delete [simp]: "distinct s \<Longrightarrow> distinct (set_delete s x)"
  by (simp add: set_delete_def)

lemma distinct_set_toggle [simp]: "distinct s \<Longrightarrow> distinct (set_toggle s x)"
  by (simp add: set_toggle_def)

lemma distinct_foldl_add: "distinct s \<Longrightarrow> distinct (foldl set_add s xs)"
  by (induction xs arbitrary: s) auto

lemma distinct_set_of_list [simp]: "distinct (set_of_list xs)"
  by (simp add: set_of_list_def distinct_foldl_add)

section \<open>The toggle interface\<close>

text \<open>What a click on an expandable row, a namespace checkbox or a verb button does to the
  collection behind it: membership of that element flips, every other element is left alone.\<close>

locale toggle_set =
  fixes toggle :: "'s \<Rightarrow> 'a \<Rightarrow> 's"
    and has :: "'s \<Rightarrow> 'a \<Rightarrow> bool"
  assumes has_toggle: "has (toggle s x) y = (if x = y then \<not> has s y else has s y)"
begin

lemma has_toggle_same: "has (toggle s x) x = (\<not> has s x)"
  by (simp add: has_toggle)

lemma has_toggle_other: "x \<noteq> y \<Longrightarrow> has (toggle s x) y = has s y"
  by (simp add: has_toggle)

lemma has_toggle_twice: "has (toggle (toggle s x) x) y = has s y"
  by (simp add: has_toggle)

lemma has_toggle_commute: "has (toggle (toggle s x) y) z = has (toggle (toggle s y) x) z"
  by (simp add: has_toggle)

lemma has_toggle_run:
  "has (foldl toggle s xs) y = (if even (count_list xs y) then has s y else \<not> has s y)"
proof (induction xs arbitrary: s)
  case (Cons x xs)
  then show ?case by (simp add: has_toggle)
qed simp

end

interpretation js_set: toggle_set set_toggle set_has
  by unfold_locales (auto simp: set_toggle_def set_has_def)

section \<open>Compare functions and sort\<close>

text \<open>A compare function is consistent when its sign is antisymmetric and \<open>\<le> 0\<close> is
  transitive: what ECMAScript asks of the argument of \<open>sort\<close> for its result to be defined.\<close>

locale comparator =
  fixes cmp :: "'a \<Rightarrow> 'a \<Rightarrow> int"
  assumes cmp_antisym: "cmp a b < 0 \<longleftrightarrow> 0 < cmp b a"
    and cmp_trans: "cmp a b \<le> 0 \<Longrightarrow> cmp b c \<le> 0 \<Longrightarrow> cmp a c \<le> 0"
begin

lemma cmp_refl [simp]: "cmp a a = 0"
  using cmp_antisym [of a a] by linarith

lemma cmp_total: "cmp a b \<le> 0 \<or> cmp b a \<le> 0"
  using cmp_antisym [of a b] by linarith

lemma cmp_zero_sym: "cmp a b = 0 \<longleftrightarrow> cmp b a = 0"
  using cmp_antisym [of a b] cmp_antisym [of b a] by linarith

lemma cmp_zero_trans: "cmp a b = 0 \<Longrightarrow> cmp b c = 0 \<Longrightarrow> cmp a c = 0"
proof -
  assume z: "cmp a b = 0" "cmp b c = 0"
  then have "cmp b a = 0" "cmp c b = 0"
    using cmp_zero_sym [of a b] cmp_zero_sym [of b c] by simp_all
  with z have "cmp a c \<le> 0" "cmp c a \<le> 0"
    using cmp_trans [of a b c] cmp_trans [of c b a] by simp_all
  then show "cmp a c = 0" using cmp_antisym [of a c] by linarith
qed

end

text \<open>The order of a sort key under a consistent compare function, and a reversed one.\<close>

lemma comparator_key: "comparator cmp \<Longrightarrow> comparator (\<lambda>a b. cmp (f a) (f b))"
  unfolding comparator_def by blast

lemma comparator_negate: "comparator cmp \<Longrightarrow> comparator (\<lambda>a b. - cmp a b)"
proof (unfold_locales)
  fix a b c :: 'a
  assume cmp: "comparator cmp"
  show "- cmp a b < 0 \<longleftrightarrow> 0 < - cmp b a"
    using comparator.cmp_antisym [OF cmp, of b a] by auto
  assume "- cmp a b \<le> 0" "- cmp b c \<le> 0"
  then have "cmp b a \<le> 0" "cmp c b \<le> 0"
    using comparator.cmp_antisym [OF cmp, of a b] comparator.cmp_antisym [OF cmp, of b a]
      comparator.cmp_antisym [OF cmp, of b c] comparator.cmp_antisym [OF cmp, of c b] by linarith+
  then have "cmp c a \<le> 0" by (meson comparator.cmp_trans [OF cmp])
  then show "- cmp a c \<le> 0"
    using comparator.cmp_antisym [OF cmp, of a c] by linarith
qed

lemma comparator_int_diff: "comparator (\<lambda>a b. a - (b :: int))"
  by unfold_locales auto

fun sort_insert :: "('a \<Rightarrow> 'a \<Rightarrow> int) \<Rightarrow> 'a \<Rightarrow> 'a list \<Rightarrow> 'a list" where
  "sort_insert cmp x [] = [x]"
| "sort_insert cmp x (y # ys) =
     (if cmp x y \<le> 0 then x # y # ys else y # sort_insert cmp x ys)"

definition js_sort :: "('a \<Rightarrow> 'a \<Rightarrow> int) \<Rightarrow> 'a list \<Rightarrow> 'a list" where
  "js_sort cmp xs = foldr (sort_insert cmp) xs []"

lemma js_sort_simps [simp]:
  "js_sort cmp [] = []" "js_sort cmp (x # xs) = sort_insert cmp x (js_sort cmp xs)"
  by (simp_all add: js_sort_def)

lemma mset_sort_insert [simp]: "mset (sort_insert cmp x ys) = add_mset x (mset ys)"
  by (induction ys) auto

lemma mset_js_sort [simp]: "mset (js_sort cmp xs) = mset xs"
  by (induction xs) auto

lemma set_js_sort [simp]: "set (js_sort cmp xs) = set xs"
  by (metis mset_js_sort set_mset_mset)

lemma length_js_sort [simp]: "length (js_sort cmp xs) = length xs"
  by (metis mset_js_sort size_mset)

lemma set_sort_insert [simp]: "set (sort_insert cmp x ys) = insert x (set ys)"
  by (induction ys) auto

context comparator begin

lemma sorted_sort_insert:
  "sorted_wrt (\<lambda>a b. cmp a b \<le> 0) ys \<Longrightarrow> sorted_wrt (\<lambda>a b. cmp a b \<le> 0) (sort_insert cmp x ys)"
proof (induction ys)
  case (Cons y ys)
  then show ?case
    using cmp_total [of x y] by (auto intro: cmp_trans)
qed simp

lemma sorted_js_sort: "sorted_wrt (\<lambda>a b. cmp a b \<le> 0) (js_sort cmp xs)"
  by (induction xs) (auto intro: sorted_sort_insert)

lemma filter_sort_insert:
  "filter (\<lambda>y. cmp y k = 0) (sort_insert cmp x ys) =
   (if cmp x k = 0 then x # filter (\<lambda>y. cmp y k = 0) ys else filter (\<lambda>y. cmp y k = 0) ys)"
proof (induction ys)
  case (Cons y ys)
  then show ?case
    using cmp_zero_trans [of x k y] cmp_zero_sym [of y k] by auto
qed simp

text \<open>The sort is stable: the elements equal to a given one keep their order.\<close>

lemma filter_js_sort: "filter (\<lambda>y. cmp y k = 0) (js_sort cmp xs) = filter (\<lambda>y. cmp y k = 0) xs"
  by (induction xs) (auto simp: filter_sort_insert)

end

interpretation int_diff: comparator "\<lambda>a b. a - (b :: int)"
  by (rule comparator_int_diff)

end
