(* ===== verification/Ui.thy ===== *)
theory Ui
  imports Prelude
begin

text \<open>
  The reading of a component: a state record, a \<open>view\<close> (the interactive controls the render
  shows in that state, each with its enabled flag, its value and the event it fires) and a
  \<open>handle\<close> function (the event handlers: next state and the effects they start). Layout, icons
  and style classes are not part of a view.

  The user moves a component by firing an enabled control of the current view; the environment
  (answers of the server, passing time) by any event the component accepts in that state.
\<close>

datatype 'e control =
  Press (enabled: bool) 'e
| Input (enabled: bool) string "string \<Rightarrow> 'e"
| Choose (enabled: bool) string "string list" "string \<Rightarrow> 'e"
| Tick (enabled: bool) bool "bool \<Rightarrow> 'e"

fun offers :: "'e control \<Rightarrow> 'e \<Rightarrow> bool" where
  "offers (Press en e') e = (en \<and> e = e')"
| "offers (Input en v f) e = (en \<and> (\<exists>s. e = f s))"
| "offers (Choose en v opts f) e = (en \<and> (\<exists>s\<in>set opts. e = f s))"
| "offers (Tick en b f) e = (en \<and> e = f (\<not> b))"

definition fires :: "'e control list \<Rightarrow> 'e \<Rightarrow> bool" where
  "fires cs e \<longleftrightarrow> (\<exists>c\<in>set cs. offers c e)"

lemma fires_Nil [simp]: "\<not> fires [] e"
  by (simp add: fires_def)

lemma fires_Cons [simp]: "fires (c # cs) e \<longleftrightarrow> offers c e \<or> fires cs e"
  by (simp add: fires_def)

lemma fires_append [simp]: "fires (cs @ ds) e \<longleftrightarrow> fires cs e \<or> fires ds e"
  by (auto simp: fires_def)

lemma fires_if [simp]: "fires (if b then cs else ds) e \<longleftrightarrow> (if b then fires cs e else fires ds e)"
  by simp

lemma fires_map: "fires (map f xs) e \<longleftrightarrow> (\<exists>x\<in>set xs. offers (f x) e)"
  by (auto simp: fires_def)

lemma fires_concat_map:
  "fires (concat (map f xs)) e \<longleftrightarrow> (\<exists>x\<in>set xs. fires (f x) e)"
  by (auto simp: fires_def)

section \<open>Runs\<close>

text \<open>A run from \<open>s0\<close> to \<open>s\<close> with the log of the effects it started, each with the state in
  which its event was handled.\<close>

inductive ui_run ::
  "('s \<Rightarrow> 'e control list) \<Rightarrow> ('s \<Rightarrow> 'e \<Rightarrow> bool) \<Rightarrow> ('s \<Rightarrow> 'e \<Rightarrow> 's \<times> 'f list) \<Rightarrow>
   's \<Rightarrow> ('s \<times> 'f) list \<Rightarrow> 's \<Rightarrow> bool"
  for view env handle s0 where
  ui_start: "ui_run view env handle s0 [] s0"
| ui_event: "ui_run view env handle s0 log s \<Longrightarrow> fires (view s) e \<or> env s e \<Longrightarrow>
     handle s e = (t, fs) \<Longrightarrow> ui_run view env handle s0 (log @ map (Pair s) fs) t"

text \<open>The contract of a component: an invariant every event keeps, and a condition on the
  state in which an effect may start.\<close>

locale ui_contract =
  fixes view :: "'s \<Rightarrow> 'e control list"
    and env :: "'s \<Rightarrow> 'e \<Rightarrow> bool"
    and handle :: "'s \<Rightarrow> 'e \<Rightarrow> 's \<times> 'f list"
    and inv :: "'s \<Rightarrow> bool"
    and ok :: "'s \<Rightarrow> 'f \<Rightarrow> bool"
  assumes inv_event: "inv s \<Longrightarrow> fires (view s) e \<or> env s e \<Longrightarrow> inv (fst (handle s e))"
    and ok_event: "inv s \<Longrightarrow> fires (view s) e \<or> env s e \<Longrightarrow> f \<in> set (snd (handle s e)) \<Longrightarrow> ok s f"
begin

lemma run_inv: "ui_run view env handle s0 log s \<Longrightarrow> inv s0 \<Longrightarrow> inv s"
proof (induction rule: ui_run.induct)
  case (ui_event log s e t fs)
  then have "inv (fst (handle s e))" by (blast intro: inv_event)
  with ui_event show ?case by simp
qed

lemma run_ok: "ui_run view env handle s0 log s \<Longrightarrow> inv s0 \<Longrightarrow> (s', f) \<in> set log \<Longrightarrow> ok s' f"
proof (induction rule: ui_run.induct)
  case (ui_event log s e t fs)
  have "inv s" using ui_event.hyps(1) ui_event.prems(1) by (rule run_inv)
  with ui_event show ?case using ok_event [of s e f] by auto
qed simp

end

text \<open>Executing a list of events checks a concrete run.\<close>

fun play :: "('s \<Rightarrow> 'e \<Rightarrow> 's \<times> 'f list) \<Rightarrow> 's \<Rightarrow> 'e list \<Rightarrow> 's" where
  "play handle s [] = s"
| "play handle s (e # es) = play handle (fst (handle s e)) es"

fun playable ::
  "('s \<Rightarrow> 'e control list) \<Rightarrow> ('s \<Rightarrow> 'e \<Rightarrow> bool) \<Rightarrow> ('s \<Rightarrow> 'e \<Rightarrow> 's \<times> 'f list) \<Rightarrow> 's \<Rightarrow> 'e list \<Rightarrow> bool"
where
  "playable view env handle s [] = True"
| "playable view env handle s (e # es) =
     ((fires (view s) e \<or> env s e) \<and> playable view env handle (fst (handle s e)) es)"

fun play_log :: "('s \<Rightarrow> 'e \<Rightarrow> 's \<times> 'f list) \<Rightarrow> 's \<Rightarrow> 'e list \<Rightarrow> ('s \<times> 'f) list" where
  "play_log handle s [] = []"
| "play_log handle s (e # es) =
     map (Pair s) (snd (handle s e)) @ play_log handle (fst (handle s e)) es"

lemma ui_run_play_from:
  "ui_run view env handle s0 log s \<Longrightarrow> playable view env handle s es \<Longrightarrow>
   ui_run view env handle s0 (log @ play_log handle s es) (play handle s es)"
proof (induction es arbitrary: s log)
  case (Cons e es)
  obtain t fs where tf: "handle s e = (t, fs)" by fastforce
  with Cons.prems have "ui_run view env handle s0 (log @ map (Pair s) fs) t"
    by (auto intro: ui_event)
  from Cons.IH [OF this] Cons.prems tf show ?case by simp
qed simp

lemma ui_run_play:
  "playable view env handle s es \<Longrightarrow>
   ui_run view env handle s (play_log handle s es) (play handle s es)"
  using ui_run_play_from [OF ui_start] by simp

lemma log_effect: "f \<in> snd ` set log \<Longrightarrow> \<exists>s. (s, f) \<in> set log"
  by force

end
