(* ===== verification/Systems.thy ===== *)
theory Systems
  imports Ui
begin

text \<open>
  Interfaces of the state machines of the development: \<open>safety\<close> (a step relation and an invariant
  every step keeps) and \<open>bounded\<close> (moreover a measure every step decreases, so that runs end).
  A component with a view satisfies \<open>safety\<close> for the steps of its user and its environment.
\<close>

locale safety =
  fixes step :: "'s \<Rightarrow> 's \<Rightarrow> bool"
    and inv :: "'s \<Rightarrow> bool"
  assumes inv_step: "inv s \<Longrightarrow> step s t \<Longrightarrow> inv t"
begin

lemma steps_inv: "step\<^sup>*\<^sup>* s t \<Longrightarrow> inv s \<Longrightarrow> inv t"
  by (induction rule: rtranclp_induct) (auto intro: inv_step)

lemma relpow_inv: "(step ^^ n) s t \<Longrightarrow> inv s \<Longrightarrow> inv t"
  by (meson relpowp_imp_rtranclp steps_inv)

end

locale bounded = safety step inv
  for step :: "'s \<Rightarrow> 's \<Rightarrow> bool" and inv :: "'s \<Rightarrow> bool" +
  fixes mu :: "'s \<Rightarrow> nat"
  assumes mu_step: "inv s \<Longrightarrow> step s t \<Longrightarrow> mu t < mu s"
begin

lemma run_length: "(step ^^ n) s t \<Longrightarrow> inv s \<Longrightarrow> n + mu t \<le> mu s"
proof (induction n arbitrary: t)
  case (Suc n)
  then obtain u where u: "(step ^^ n) s u" "step u t" by auto
  with Suc.prems have "mu t < mu u" by (blast intro: mu_step relpow_inv)
  with Suc.IH [OF u(1) Suc.prems(2)] show ?case by simp
qed simp

lemma reaches_end: "inv s \<Longrightarrow> \<exists>t. step\<^sup>*\<^sup>* s t \<and> \<not> Ex (step t)"
proof (induction s rule: measure_induct_rule [of mu])
  case (less s)
  show ?case
  proof (cases "Ex (step s)")
    case True
    then obtain u where "step s u" ..
    with less show ?thesis
      by (meson converse_rtranclp_into_rtranclp inv_step mu_step)
  qed auto
qed

end

definition ui_step ::
  "('s \<Rightarrow> 'e control list) \<Rightarrow> ('s \<Rightarrow> 'e \<Rightarrow> bool) \<Rightarrow> ('s \<Rightarrow> 'e \<Rightarrow> 's \<times> 'f list) \<Rightarrow> 's \<Rightarrow> 's \<Rightarrow> bool"
where
  "ui_step view env handle s t \<longleftrightarrow> (\<exists>e. (fires (view s) e \<or> env s e) \<and> t = fst (handle s e))"

sublocale ui_contract \<subseteq> safety "ui_step view env handle" inv
  by unfold_locales (auto simp: ui_step_def intro: inv_event)

end
