(* ===== verification/JsValue.thy ===== *)
theory JsValue
  imports Prelude
begin

text \<open>
  Values whose type the frontend does not know in advance: a parsed YAML document, the \<open>detail\<close>
  of an error response, the parameters and bodies of requests. Numbers are integers: no component
  looks at the value of a fractional number. An object is the list of its own properties in
  order; objects that are neither arrays nor plain (a YAML date) are objects without properties.
\<close>

datatype jsval =
  JUndefined | JNull | JBool bool | JNum int | JStr string
| JArr "jsval list"
| JObj "(string \<times> jsval) list"

fun nullish :: "jsval \<Rightarrow> bool" where
  "nullish JUndefined = True"
| "nullish JNull = True"
| "nullish _ = False"

fun is_array :: "jsval \<Rightarrow> bool" where
  "is_array (JArr _) = True"
| "is_array _ = False"

fun is_plain_object :: "jsval \<Rightarrow> bool" where
  "is_plain_object (JObj _) = True"
| "is_plain_object _ = False"

text \<open>\<open>v?.k\<close> for a \<open>k\<close> that no built-in prototype defines.\<close>

fun js_prop :: "jsval \<Rightarrow> string \<Rightarrow> jsval" where
  "js_prop (JObj fs) k = (case map_of fs k of Some v \<Rightarrow> v | None \<Rightarrow> JUndefined)"
| "js_prop _ k = JUndefined"

fun js_has_prop :: "jsval \<Rightarrow> string \<Rightarrow> bool" where
  "js_has_prop (JObj fs) k = (map_of fs k \<noteq> None)"
| "js_has_prop _ k = False"

definition js_coalesce :: "jsval \<Rightarrow> jsval \<Rightarrow> jsval" where
  "js_coalesce v w = (if nullish v then w else v)"

text \<open>\<open>String(v)\<close>; an array joins its elements with a comma, \<open>null\<close> and \<open>undefined\<close>
  elements printing as nothing.\<close>

fun js_string :: "jsval \<Rightarrow> string" where
  "js_string JUndefined = ''undefined''"
| "js_string JNull = ''null''"
| "js_string (JBool b) = (if b then ''true'' else ''false'')"
| "js_string (JNum n) = show_int n"
| "js_string (JStr s) = s"
| "js_string (JArr vs) = js_join '','' (map (\<lambda>v. if nullish v then [] else js_string v) vs)"
| "js_string (JObj _) = ''[object Object]''"

text \<open>\<open>Array.prototype.join\<close> on an array of arbitrary values.\<close>

definition js_join_vals :: "string \<Rightarrow> jsval list \<Rightarrow> string" where
  "js_join_vals sep vs = js_join sep (map (\<lambda>v. if nullish v then [] else js_string v) vs)"

text \<open>Writing a property, as an object spread followed by that property does: an existing key
  keeps its place.\<close>

fun obj_set :: "string \<Rightarrow> jsval \<Rightarrow> (string \<times> jsval) list \<Rightarrow> (string \<times> jsval) list" where
  "obj_set k v [] = [(k, v)]"
| "obj_set k v ((k', v') # fs) = (if k = k' then (k, v) # fs else (k', v') # obj_set k v fs)"

lemma map_of_obj_set: "map_of (obj_set k v fs) = (map_of fs)(k \<mapsto> v)"
  by (induction k v fs rule: obj_set.induct) auto

lemma fst_obj_set: "fst ` set (obj_set k v fs) = insert k (fst ` set fs)"
  by (induction k v fs rule: obj_set.induct) auto

lemma distinct_obj_set: "distinct (map fst fs) \<Longrightarrow> distinct (map fst (obj_set k v fs))"
proof (induction k v fs rule: obj_set.induct)
  case (2 k v k' v' fs)
  then show ?case
    using fst_obj_set [of k v fs] by (auto simp: image_iff)
qed simp

lemma js_prop_JObj [simp]: "js_prop (JObj ((k, v) # fs)) k = v"
  by simp

lemma js_coalesce_simps [simp]:
  "js_coalesce JUndefined w = w" "js_coalesce JNull w = w" "js_coalesce (JArr vs) w = JArr vs"
  "js_coalesce (JStr s) w = JStr s"
  by (simp_all add: js_coalesce_def)

section \<open>Building request values\<close>

definition JStrs :: "string list \<Rightarrow> jsval" where
  "JStrs ss = JArr (map JStr ss)"

definition JOpt :: "string option \<Rightarrow> jsval" where
  "JOpt s = (case s of None \<Rightarrow> JUndefined | Some t \<Rightarrow> JStr t)"

lemma JStrs_inject [simp]: "JStrs ss = JStrs ts \<longleftrightarrow> ss = ts"
proof -
  have "inj JStr" by (simp add: inj_on_def)
  then show ?thesis by (simp add: JStrs_def inj_map_eq_map)
qed

lemma JOpt_inject [simp]: "JOpt s = JOpt t \<longleftrightarrow> s = t"
  by (simp add: JOpt_def split: option.splits)

end
