(* ===== verification/Types.thy ===== *)
theory Types
  imports JsValue
begin

text \<open>
  The shared data types of \<^verbatim>\<open>frontend/src/types\<close> and the role type of
  \<^verbatim>\<open>store/authStore.ts\<close>. An optional property is an \<open>option\<close>; a property that may hold
  any JSON value is a \<open>jsval\<close>. Union types of string literals that the code compares are
  datatypes; the kind of a role is a string, because the forms cut it out of an option value.
\<close>

section \<open>types/user.ts\<close>

datatype user_type = Certificate | Service_account

record user =
  u_name :: string
  u_user_type :: user_type
  u_groups :: "string list"
  u_namespace :: string
  u_created_at :: string
  u_cert_expiry :: "string option"
  u_csr_name :: "string option"

record user_with_credentials = user +
  private_key_pem :: "string option"
  certificate_pem :: "string option"
  vault_path :: "string option"

record create_user_payload =
  cu_name :: string
  cu_user_type :: user_type
  cu_groups :: "string list"
  cu_namespace :: string

record delete_user_payload =
  du_username :: string
  du_user_type :: user_type
  du_namespace :: "string option"

section \<open>types/rbac.ts\<close>

record policy_rule =
  api_groups :: "string list"
  resources :: "string list"
  verbs :: "string list"
  resource_names :: "string list option"

record role_read =
  rr_name :: string
  rr_namespace :: "string option"
  rr_rules :: "policy_rule list"
  rr_is_system :: bool

record assign_role_payload =
  ar_role_name :: string
  ar_role_kind :: string
  ar_namespace :: "string option"

record check_access_request =
  ca_user :: string
  ca_verb :: string
  ca_resource :: string
  ca_namespace :: "string option"
  ca_api_group :: "string option"

section \<open>types/accessRequest.ts\<close>

datatype access_request_status = Pending | Approved | Denied | Revoked | Expired

record access_request =
  q_id :: string
  q_requester :: string
  q_target_username :: string
  q_user_kind :: string
  q_sa_namespace :: "string option"
  q_role_name :: string
  q_role_kind :: string
  q_namespace :: "string option"
  q_ttl_minutes :: int
  q_reason :: string
  q_status :: access_request_status
  q_requested_at :: string
  q_reviewed_by :: "string option"
  q_reviewed_at :: "string option"
  q_expires_at :: "string option"
  q_binding_name :: "string option"

record access_request_create_payload =
  rc_target_username :: string
  rc_user_kind :: string
  rc_sa_namespace :: "string option"
  rc_role_name :: string
  rc_role_kind :: string
  rc_namespace :: "string option"
  rc_ttl_minutes :: int
  rc_reason :: string

record jit_role_policy_set_payload =
  jp_eligible :: bool
  jp_max_ttl_minutes :: "int option"

record jit_role_policy =
  jr_role_kind :: string
  jr_role_name :: string
  jr_eligible :: bool
  jr_max_ttl_minutes :: "int option"

record access_request_export_query =
  rx_from :: "string option"
  rx_to :: "string option"

section \<open>types/audit.ts\<close>

record audit_log_query =
  al_limit :: nat
  al_offset :: nat
  al_actor :: "string option"
  al_path_contains :: "string option"

record audit_log_export_query =
  ax_from :: "string option"
  ax_to :: "string option"
  ax_actor :: "string option"
  ax_path_contains :: "string option"

section \<open>store/authStore.ts: roles\<close>

datatype role = Viewer | Operator | Approver | Admin

end
