(* ===== verification/RbacYaml.thy ===== *)
theory RbacYaml
  imports Types
begin

text \<open>
  \<^verbatim>\<open>lib/parseRbacYaml.ts\<close>: RBAC rules from a YAML document. The YAML library is the parameter
  \<open>load\<close>: a value, or the message of the \<open>Error\<close> it threw (\<open>None\<close> when it threw something
  else). Every \<open>throw\<close> of the code is an \<open>Inl\<close> with the message of the \<open>RbacYamlError\<close>.
\<close>

type_synonym yaml_loader = "string \<Rightarrow> string option + jsval"

fun all_strings :: "jsval list \<Rightarrow> string list option" where
  "all_strings [] = Some []"
| "all_strings (JStr s # vs) = map_option (Cons s) (all_strings vs)"
| "all_strings (_ # vs) = None"

definition field_error :: "string \<Rightarrow> nat \<Rightarrow> string" where
  "field_error field i =
     ''Rule '' @ show_nat (i + 1) @ '': '' @ [CHR 0x22] @ field @ [CHR 0x22] @
     '' must be a string or a list of strings''"

definition as_string_array :: "jsval \<Rightarrow> string \<Rightarrow> nat \<Rightarrow> string + string list" where
  "as_string_array v field i =
     (if nullish v then Inr []
      else case v of
        JStr s \<Rightarrow> Inr [s]
      | JArr vs \<Rightarrow> (case all_strings vs of
          Some ss \<Rightarrow> Inr ss
        | None \<Rightarrow> Inl (field_error field i))
      | _ \<Rightarrow> Inl (field_error field i))"

definition parse_rule :: "nat \<Rightarrow> jsval \<Rightarrow> string + policy_rule" where
  "parse_rule i r =
     (if \<not> is_plain_object r
      then Inl (''Rule '' @ show_nat (i + 1) @ '' must be a mapping (apiGroups/resources/verbs)'')
      else
        result_bind (as_string_array (js_coalesce (js_prop r ''apiGroups'') (js_prop r ''api_groups''))
          ''apiGroups'' i) (\<lambda>gs.
        result_bind (as_string_array (js_prop r ''resources'') ''resources'' i) (\<lambda>rs.
        result_bind (as_string_array (js_prop r ''verbs'') ''verbs'' i) (\<lambda>vs.
        result_bind (as_string_array
          (js_coalesce (js_prop r ''resourceNames'') (js_prop r ''resource_names''))
          ''resourceNames'' i) (\<lambda>ns.
          if vs = []
          then Inl (''Rule '' @ show_nat (i + 1) @ '': '' @ [CHR 0x22] @ ''verbs'' @ [CHR 0x22] @
            '' is required'')
          else Inr \<lparr>api_groups = (if gs \<noteq> [] then gs else [[]]), resources = rs, verbs = vs,
                    resource_names = (if ns \<noteq> [] then Some ns else None)\<rparr>)))))"

definition rules_value :: "jsval \<Rightarrow> jsval list option" where
  "rules_value parsed =
     (case parsed of
        JArr vs \<Rightarrow> Some vs
      | _ \<Rightarrow> (case js_prop parsed ''rules'' of JArr vs \<Rightarrow> Some vs | _ \<Rightarrow> None))"

definition parse_rules_yaml :: "yaml_loader \<Rightarrow> string \<Rightarrow> string + policy_rule list" where
  "parse_rules_yaml load text =
     (case load text of
        Inl (Some msg) \<Rightarrow> Inl (''Invalid YAML: '' @ msg)
      | Inl None \<Rightarrow> Inl ''Invalid YAML''
      | Inr parsed \<Rightarrow>
          (case rules_value parsed of
             None \<Rightarrow> Inl (''Expected a list of rules, or an object with a '' @ [CHR 0x22] @
               ''rules:'' @ [CHR 0x22] @ '' array'')
           | Some vs \<Rightarrow>
               if vs = [] then Inl ''No rules found'' else map_throw parse_rule 0 vs))"

section \<open>Lemmas\<close>

lemma all_strings_map [simp]: "all_strings (map JStr ss) = Some ss"
  by (induction ss) auto

lemma all_strings_Some: "all_strings vs = Some ss \<longleftrightarrow> vs = map JStr ss"
proof (induction vs arbitrary: ss rule: all_strings.induct)
  case (2 s vs)
  then show ?case by (cases ss) auto
qed auto

lemma as_string_array_JStrs [simp]: "as_string_array (JStrs ss) field i = Inr ss"
  by (simp add: as_string_array_def JStrs_def)

lemma as_string_array_undefined [simp]: "as_string_array JUndefined field i = Inr []"
  by (simp add: as_string_array_def)

lemma js_coalesce_JStrs [simp]: "js_coalesce (JStrs ss) w = JStrs ss"
  by (simp add: JStrs_def)

text \<open>What the code relies on downstream: a rule names at least one API group and one verb, and
  carries resource names only when there are some.\<close>

definition rule_ok :: "policy_rule \<Rightarrow> bool" where
  "rule_ok r \<longleftrightarrow> api_groups r \<noteq> [] \<and> verbs r \<noteq> [] \<and> resource_names r \<noteq> Some []"

lemma parse_rule_ok: "parse_rule i v = Inr r \<Longrightarrow> rule_ok r"
  by (auto simp: parse_rule_def rule_ok_def result_bind_Inr split: if_splits)

text \<open>The two manifest shapes of a rule: the keys of a Kubernetes manifest and those of the
  ClusterVision API.\<close>

definition manifest_rule :: "bool \<Rightarrow> policy_rule \<Rightarrow> jsval" where
  "manifest_rule camel r = JObj
     ([(if camel then ''apiGroups'' else ''api_groups'', JStrs (api_groups r)),
       (''resources'', JStrs (resources r)), (''verbs'', JStrs (verbs r))] @
      (case resource_names r of
         None \<Rightarrow> []
       | Some ns \<Rightarrow> [(if camel then ''resourceNames'' else ''resource_names'', JStrs ns)]))"

lemma parse_manifest_rule: "rule_ok r \<Longrightarrow> parse_rule i (manifest_rule camel r) = Inr r"
  by (cases camel; cases "resource_names r")
    (auto simp: parse_rule_def manifest_rule_def rule_ok_def)

section \<open>Properties\<close>

text \<open>Rules that reach the role editor are usable: when a document parses, it yields exactly
  one rule per entry of its rule list, at least one, each with an API group and a verb, and with
  resource names only when the entry has some.\<close>

theorem parse_rules_yaml_sound:
  assumes "parse_rules_yaml load text = Inr rs"
  shows "(\<exists>doc vs. load text = Inr doc \<and> rules_value doc = Some vs \<and> length rs = length vs \<and>
           (\<forall>i < length vs. parse_rule i (vs ! i) = Inr (rs ! i))) \<and>
         rs \<noteq> [] \<and> (\<forall>r\<in>set rs. rule_ok r)"
proof -
  from assms obtain doc vs where v: "load text = Inr doc" "rules_value doc = Some vs" "vs \<noteq> []"
    "map_throw parse_rule 0 vs = Inr rs"
    by (auto simp: parse_rules_yaml_def split: sum.splits option.splits if_splits)
  then have len: "length rs = length vs" and
    each: "\<forall>i < length vs. parse_rule i (vs ! i) = Inr (rs ! i)"
    by (simp_all add: map_throw_Inr_iff)
  then have "\<forall>r\<in>set rs. rule_ok r"
    by (metis in_set_conv_nth parse_rule_ok)
  with v len each show ?thesis by auto
qed

theorem parse_rules_yaml_sound_witness:
  "list_all rule_ok
     [\<lparr>api_groups = [[]], resources = [''pods''], verbs = [''get''], resource_names = None\<rparr>]"
proof -
  let ?load = "\<lambda>t :: string. Inr (JArr [JObj [(''resources'', JStr ''pods''), (''verbs'', JStr ''get'')]])
    :: string option + jsval"
  have "parse_rules_yaml ?load ''x'' =
      Inr [\<lparr>api_groups = [[]], resources = [''pods''], verbs = [''get''], resource_names = None\<rparr>]"
    by (simp add: parse_rules_yaml_def rules_value_def parse_rule_def as_string_array_def)
  from parse_rules_yaml_sound [OF this] show ?thesis unfolding list_all_iff by blast
qed

text \<open>C38. Round trip: a well-formed rule list written as a manifest, with the Kubernetes or the
  API spelling of the keys, bare or under a top-level rules key, parses back to itself.\<close>

theorem parse_rules_yaml_roundtrip:
  assumes "rs \<noteq> []" "\<forall>r\<in>set rs. rule_ok r"
    and "load text = Inr (if bare then JArr (map (manifest_rule camel) rs)
           else JObj [(''kind'', JStr kind), (''rules'', JArr (map (manifest_rule camel) rs))])"
  shows "parse_rules_yaml load text = Inr rs"
proof -
  have "map_throw parse_rule 0 (map (manifest_rule camel) rs) = Inr rs"
    using assms(2) by (simp add: map_throw_Inr_iff parse_manifest_rule)
  with assms(1,3) show ?thesis
    by (cases bare) (simp_all add: parse_rules_yaml_def rules_value_def)
qed

theorem parse_rules_yaml_roundtrip_witness:
  "\<exists>rs. rs \<noteq> [] \<and> parse_rules_yaml (\<lambda>t. Inr (JArr (map (manifest_rule True) rs))) ''x'' = Inr rs"
proof -
  let ?r = "\<lparr>api_groups = [''apps''], resources = [''pods''], verbs = [''get'', ''list''],
    resource_names = Some [''a'']\<rparr>"
  have "parse_rules_yaml (\<lambda>t. Inr (JArr (map (manifest_rule True) [?r]))) ''x'' = Inr [?r]"
    by (rule parse_rules_yaml_roundtrip [where bare = True and camel = True])
      (simp_all add: rule_ok_def)
  then show ?thesis by blast
qed

text \<open>Errors: a loaded document is rejected with a message about its first bad entry, with
  every entry before it well formed, or because it has no rule list, or an empty one.\<close>

theorem parse_rules_yaml_first_error:
  assumes "load text = Inr doc"
  shows "parse_rules_yaml load text = Inl e \<longleftrightarrow>
     (case rules_value doc of
        None \<Rightarrow> e = ''Expected a list of rules, or an object with a '' @ [CHR 0x22] @ ''rules:'' @
          [CHR 0x22] @ '' array''
      | Some vs \<Rightarrow> if vs = [] then e = ''No rules found''
          else \<exists>k < length vs. parse_rule k (vs ! k) = Inl e \<and>
            (\<forall>j < k. \<exists>r. parse_rule j (vs ! j) = Inr r))"
  using assms
  by (cases "rules_value doc") (auto simp: parse_rules_yaml_def map_throw_Inl_iff)

theorem parse_rules_yaml_first_error_witness:
  "parse_rules_yaml (\<lambda>t. Inr (JArr [JObj [(''verbs'', JStr ''get'')], JNull])) ''x'' =
     Inl ''Rule 2 must be a mapping (apiGroups/resources/verbs)''"
proof -
  let ?load = "\<lambda>t :: string. Inr (JArr [JObj [(''verbs'', JStr ''get'')], JNull]) :: string option + jsval"
  have two: "show_nat (Suc (Suc 0)) = ''2''" by code_simp
  have "\<exists>k < Suc (Suc 0). parse_rule k ([JObj [(''verbs'', JStr ''get'')], JNull] ! k) =
      Inl ''Rule 2 must be a mapping (apiGroups/resources/verbs)'' \<and>
      (\<forall>j < k. \<exists>r. parse_rule j ([JObj [(''verbs'', JStr ''get'')], JNull] ! j) = Inr r)"
    by (intro exI [of _ 1]) (simp add: parse_rule_def as_string_array_def two)
  then show ?thesis
    using parse_rules_yaml_first_error [of ?load "''x''" _ "''Rule 2 must be a mapping (apiGroups/resources/verbs)''", OF refl]
    by (simp add: rules_value_def)
qed

end
