(* ===== verification/Stores.thy ===== *)
theory Stores
  imports Types
begin

text \<open>
  The two zustand stores: \<^verbatim>\<open>store/authStore.ts\<close> (the signed-in user with a role per scope, and
  the access token) and \<^verbatim>\<open>store/clusterStore.ts\<close> (the active cluster). The roles of a user
  are the own entries of the object the backend sent, so a scope without an entry has no role.
\<close>

definition INSTANCE_SCOPE :: string where
  "INSTANCE_SCOPE = ''_instance''"

record auth_user =
  au_username :: string
  au_roles :: "(string \<times> role) list"

record auth_store =
  as_user :: "auth_user option"
  as_token :: "string option"

definition auth_init :: auth_store where
  "auth_init = \<lparr>as_user = None, as_token = None\<rparr>"

definition set_auth :: "auth_user \<Rightarrow> string \<Rightarrow> auth_store \<Rightarrow> auth_store" where
  "set_auth user access_token s = s\<lparr>as_user := Some user, as_token := Some access_token\<rparr>"

definition set_access_token :: "string \<Rightarrow> auth_store \<Rightarrow> auth_store" where
  "set_access_token access_token s = s\<lparr>as_token := Some access_token\<rparr>"

definition clear_auth :: "auth_store \<Rightarrow> auth_store" where
  "clear_auth s = s\<lparr>as_user := None, as_token := None\<rparr>"

definition role_for :: "auth_store \<Rightarrow> string \<Rightarrow> role option" where
  "role_for s scope = (case as_user s of None \<Rightarrow> None | Some u \<Rightarrow> map_of (au_roles u) scope)"

definition is_instance_admin :: "auth_store \<Rightarrow> bool" where
  "is_instance_admin s = (role_for s INSTANCE_SCOPE = Some Admin)"

definition can_write :: "auth_store \<Rightarrow> string \<Rightarrow> bool" where
  "can_write s scope = (let r = role_for s scope in r = Some Operator \<or> r = Some Admin)"

definition has_any_cluster_access :: "auth_store \<Rightarrow> bool" where
  "has_any_cluster_access s =
     (\<exists>scope\<in>set (case as_user s of None \<Rightarrow> [] | Some u \<Rightarrow> map fst (au_roles u)).
        scope \<noteq> INSTANCE_SCOPE)"

definition default_cluster :: string where
  "default_cluster = ''local''"

lemmas store_defs =
  auth_init_def set_auth_def set_access_token_def clear_auth_def role_for_def
  is_instance_admin_def can_write_def Let_def

lemma clear_auth_simps [simp]:
  "as_user (clear_auth s) = None" "as_token (clear_auth s) = None"
  "role_for (clear_auth s) scope = None" "\<not> can_write (clear_auth s) scope"
  "\<not> is_instance_admin (clear_auth s)" "\<not> has_any_cluster_access (clear_auth s)"
  by (simp_all add: store_defs has_any_cluster_access_def)

lemma can_write_iff:
  "can_write s scope \<longleftrightarrow> role_for s scope = Some Operator \<or> role_for s scope = Some Admin"
  by (simp add: can_write_def Let_def)

lemma can_write_has_access:
  "can_write s scope \<Longrightarrow> scope \<noteq> INSTANCE_SCOPE \<Longrightarrow> has_any_cluster_access s"
  by (force simp: can_write_iff role_for_def has_any_cluster_access_def dest!: map_of_SomeD
      split: option.splits)

lemma set_access_token_roles [simp]:
  "role_for (set_access_token t s) scope = role_for s scope"
  "can_write (set_access_token t s) scope = can_write s scope"
  "is_instance_admin (set_access_token t s) = is_instance_admin s"
  by (simp_all add: store_defs)

end
