(* ===== verification/Api.thy ===== *)
theory Api
  imports Types Stores
begin

text \<open>
  The API modules of \<^verbatim>\<open>frontend/src/api\<close>: one datatype per module with a constructor per
  operation, and the request each operation builds. A path is written as its list of segments
  (\<open>path_of\<close> puts the slashes of the template strings back). Parameters and bodies are the
  objects the code builds; a property that is \<open>undefined\<close> is kept as \<open>JUndefined\<close>.
\<close>

datatype http_method = GET | POST | PUT | PATCH | DELETE
datatype response_type = RJson | RText | RBlob

record request =
  rq_method :: http_method
  rq_path :: string
  rq_params :: "(string \<times> jsval) list"
  rq_body :: "jsval option"
  rq_response :: response_type

definition path_of :: "string list \<Rightarrow> string" where
  "path_of segs = concat (map (\<lambda>s. ''/'' @ s) segs)"

definition req ::
  "http_method \<Rightarrow> string list \<Rightarrow> (string \<times> jsval) list \<Rightarrow> jsval option \<Rightarrow> response_type \<Rightarrow> request"
where
  "req m segs ps b r =
     \<lparr>rq_method = m, rq_path = path_of segs, rq_params = ps, rq_body = b, rq_response = r\<rparr>"

abbreviation json_get :: "string list \<Rightarrow> request" where
  "json_get segs \<equiv> req GET segs [] None RJson"

abbreviation json_send :: "http_method \<Rightarrow> string list \<Rightarrow> (string \<times> jsval) list \<Rightarrow> request" where
  "json_send m segs body \<equiv> req m segs [] (Some (JObj body)) RJson"

abbreviation bare_send :: "http_method \<Rightarrow> string list \<Rightarrow> request" where
  "bare_send m segs \<equiv> req m segs [] None RJson"

section \<open>Bodies\<close>

definition user_type_string :: "user_type \<Rightarrow> string" where
  "user_type_string t = (case t of Certificate \<Rightarrow> ''certificate'' | Service_account \<Rightarrow> ''service_account'')"

definition role_string :: "role \<Rightarrow> string" where
  "role_string r = (case r of Viewer \<Rightarrow> ''viewer'' | Operator \<Rightarrow> ''operator''
     | Approver \<Rightarrow> ''approver'' | Admin \<Rightarrow> ''admin'')"

definition rule_json :: "policy_rule \<Rightarrow> jsval" where
  "rule_json r = JObj
     ([(''api_groups'', JStrs (api_groups r)), (''resources'', JStrs (resources r)),
       (''verbs'', JStrs (verbs r))] @
      (case resource_names r of None \<Rightarrow> [] | Some ns \<Rightarrow> [(''resource_names'', JStrs ns)]))"

definition rules_json :: "policy_rule list \<Rightarrow> jsval" where
  "rules_json rs = JArr (map rule_json rs)"

definition JOptInt :: "int option \<Rightarrow> jsval" where
  "JOptInt n = (case n of None \<Rightarrow> JNull | Some i \<Rightarrow> JNum i)"

section \<open>api/accessRequests.ts\<close>

datatype access_requests_call =
  AR_list | AR_create access_request_create_payload | AR_approve string | AR_deny string
| AR_revoke string | AR_listPolicies
| AR_setPolicy string string jit_role_policy_set_payload
| AR_deletePolicy string string
| AR_export access_request_export_query

fun access_requests_request :: "access_requests_call \<Rightarrow> request" where
  "access_requests_request AR_list = json_get [''access-requests'']"
| "access_requests_request (AR_create p) = json_send POST [''access-requests'']
     [(''target_username'', JStr (rc_target_username p)), (''user_kind'', JStr (rc_user_kind p)),
      (''sa_namespace'', JOpt (rc_sa_namespace p)), (''role_name'', JStr (rc_role_name p)),
      (''role_kind'', JStr (rc_role_kind p)), (''namespace'', JOpt (rc_namespace p)),
      (''ttl_minutes'', JNum (rc_ttl_minutes p)), (''reason'', JStr (rc_reason p))]"
| "access_requests_request (AR_approve i) = bare_send POST [''access-requests'', i, ''approve'']"
| "access_requests_request (AR_deny i) = bare_send POST [''access-requests'', i, ''deny'']"
| "access_requests_request (AR_revoke i) = bare_send POST [''access-requests'', i, ''revoke'']"
| "access_requests_request AR_listPolicies = json_get [''access-requests'', ''policies'']"
| "access_requests_request (AR_setPolicy k n p) =
     json_send PUT [''access-requests'', ''policies'', k, n]
       [(''eligible'', JBool (jp_eligible p)), (''max_ttl_minutes'', JOptInt (jp_max_ttl_minutes p))]"
| "access_requests_request (AR_deletePolicy k n) =
     bare_send DELETE [''access-requests'', ''policies'', k, n]"
| "access_requests_request (AR_export q) =
     req GET [''access-requests'', ''export'']
       [(''from'', JOpt (rx_from q)), (''to'', JOpt (rx_to q))] None RBlob"

section \<open>api/admin.ts\<close>

datatype admin_call =
  AD_listUsers | AD_createUser string string | AD_deleteUser string | AD_resetPassword string string
| AD_setLink string string string | AD_clearLink string

fun admin_request :: "admin_call \<Rightarrow> request" where
  "admin_request AD_listUsers = json_get [''auth'', ''users'']"
| "admin_request (AD_createUser u p) = json_send POST [''auth'', ''users'']
     [(''username'', JStr u), (''password'', JStr p)]"
| "admin_request (AD_deleteUser u) = bare_send DELETE [''auth'', ''users'', u]"
| "admin_request (AD_resetPassword u p) = json_send POST [''auth'', ''users'', u, ''password'']
     [(''username'', JStr u), (''password'', JStr p)]"
| "admin_request (AD_setLink u n ns) = json_send PUT [''auth'', ''users'', u, ''link'']
     [(''name'', JStr n), (''namespace'', JStr ns)]"
| "admin_request (AD_clearLink u) = bare_send DELETE [''auth'', ''users'', u, ''link'']"

section \<open>api/audit.ts\<close>

datatype audit_call = AU_list audit_log_query | AU_export audit_log_export_query

fun audit_request :: "audit_call \<Rightarrow> request" where
  "audit_request (AU_list q) = req GET [''audit'']
     [(''limit'', JNum (int (al_limit q))), (''offset'', JNum (int (al_offset q))),
      (''actor'', JOpt (al_actor q)), (''path_contains'', JOpt (al_path_contains q))] None RJson"
| "audit_request (AU_export q) = req GET [''audit'', ''export'']
     [(''from'', JOpt (ax_from q)), (''to'', JOpt (ax_to q)), (''actor'', JOpt (ax_actor q)),
      (''path_contains'', JOpt (ax_path_contains q))] None RBlob"

section \<open>api/auth.ts\<close>

text \<open>Login, refresh, logout and \<open>me\<close> run on a client of their own, without the request
  interceptor; \<open>myLink\<close> uses the regular client.\<close>

datatype auth_call = AA_login string string | AA_refresh | AA_logout | AA_me

fun auth_request :: "auth_call \<Rightarrow> request" where
  "auth_request (AA_login u p) = json_send POST [''auth'', ''login'']
     [(''username'', JStr u), (''password'', JStr p)]"
| "auth_request AA_refresh = bare_send POST [''auth'', ''refresh'']"
| "auth_request AA_logout = bare_send POST [''auth'', ''logout'']"
| "auth_request AA_me = json_get [''auth'', ''me'']"

definition my_link_request :: request where
  "my_link_request = json_get [''auth'', ''me'', ''link'']"

section \<open>api/cluster.ts\<close>

record add_cluster_payload =
  ac_name :: string
  ac_api_url :: string
  ac_ca_data :: string
  ac_token :: string

datatype cluster_call =
  CL_info | CL_list | CL_add add_cluster_payload | CL_remove string | CL_bootstrapScript string

fun cluster_request :: "cluster_call \<Rightarrow> request" where
  "cluster_request CL_info = json_get [''cluster'', ''info'']"
| "cluster_request CL_list = json_get [''cluster'', ''clusters'']"
| "cluster_request (CL_add p) = json_send POST [''cluster'', ''clusters'']
     [(''name'', JStr (ac_name p)), (''api_url'', JStr (ac_api_url p)),
      (''ca_data'', JStr (ac_ca_data p)), (''token'', JStr (ac_token p))]"
| "cluster_request (CL_remove n) = bare_send DELETE [''cluster'', ''clusters'', n]"
| "cluster_request (CL_bootstrapScript n) =
     req GET [''cluster'', ''bootstrap-script''] [(''name'', JStr n)] None RText"

section \<open>api/kubeconfig.ts\<close>

record kubeconfig_payload =
  k_username :: string
  k_user_type :: user_type
  k_namespace :: string
  k_sa_namespace :: "string option"
  k_private_key_pem :: "string option"

definition kubeconfig_request :: "kubeconfig_payload \<Rightarrow> request" where
  "kubeconfig_request p = req POST [''kubeconfig'', ''generate''] []
     (Some (JObj [(''username'', JStr (k_username p)),
        (''user_type'', JStr (user_type_string (k_user_type p))),
        (''namespace'', JStr (k_namespace p)), (''sa_namespace'', JOpt (k_sa_namespace p)),
        (''private_key_pem'', JOpt (k_private_key_pem p))])) RText"

section \<open>api/permissions.ts\<close>

datatype permissions_call =
  PE_listScopes | PE_listUserRoles string | PE_setUserRole string string role
| PE_deleteUserRole string string

fun permissions_request :: "permissions_call \<Rightarrow> request" where
  "permissions_request PE_listScopes = json_get [''permissions'', ''scopes'']"
| "permissions_request (PE_listUserRoles u) = json_get [''permissions'', ''users'', u]"
| "permissions_request (PE_setUserRole u s r) = json_send PUT [''permissions'', ''users'', u, s]
     [(''role'', JStr (role_string r))]"
| "permissions_request (PE_deleteUserRole u s) = bare_send DELETE [''permissions'', ''users'', u, s]"

section \<open>api/rbac.ts\<close>

datatype rbac_call =
  RB_listClusterRoles bool nat "string option"
| RB_createClusterRole string "policy_rule list"
| RB_updateClusterRole string "policy_rule list"
| RB_deleteClusterRole string
| RB_listRoles string nat "string option"
| RB_createRole string string "policy_rule list"
| RB_updateRole string string "policy_rule list"
| RB_deleteRole string string
| RB_getUserPermissions string
| RB_assignRole string assign_role_payload string "string option"
| RB_revokeRole string string "string option"
| RB_listNamespaces
| RB_getNamespaceAccess string
| RB_checkAccess check_access_request

definition cursor_param :: "string option \<Rightarrow> (string \<times> jsval) list" where
  "cursor_param c = (case c of Some s \<Rightarrow> if truthy s then [(''continue'', JStr s)] else [] | None \<Rightarrow> [])"

fun rbac_request :: "rbac_call \<Rightarrow> request" where
  "rbac_request (RB_listClusterRoles sys limit cursor) = req GET [''rbac'', ''cluster-roles'']
     ([(''include_system'', JBool sys), (''limit'', JNum (int limit))] @ cursor_param cursor) None RJson"
| "rbac_request (RB_createClusterRole n rs) = json_send POST [''rbac'', ''cluster-roles'']
     [(''name'', JStr n), (''rules'', rules_json rs)]"
| "rbac_request (RB_updateClusterRole n rs) = json_send PATCH [''rbac'', ''cluster-roles'', n]
     [(''rules'', rules_json rs)]"
| "rbac_request (RB_deleteClusterRole n) = bare_send DELETE [''rbac'', ''cluster-roles'', n]"
| "rbac_request (RB_listRoles ns limit cursor) = req GET [''rbac'', ''roles'', ns]
     ([(''limit'', JNum (int limit))] @ cursor_param cursor) None RJson"
| "rbac_request (RB_createRole ns n rs) = json_send POST [''rbac'', ''roles'']
     [(''namespace'', JStr ns), (''name'', JStr n), (''rules'', rules_json rs)]"
| "rbac_request (RB_updateRole ns n rs) = json_send PATCH [''rbac'', ''roles'', ns, n]
     [(''rules'', rules_json rs)]"
| "rbac_request (RB_deleteRole ns n) = bare_send DELETE [''rbac'', ''roles'', ns, n]"
| "rbac_request (RB_getUserPermissions u) = json_get [''rbac'', ''users'', u, ''permissions'']"
| "rbac_request (RB_assignRole u p kind sa) = req POST [''rbac'', ''users'', u, ''roles'']
     [(''user_kind'', JStr kind), (''sa_namespace'', JOpt sa)]
     (Some (JObj [(''role_name'', JStr (ar_role_name p)), (''role_kind'', JStr (ar_role_kind p)),
        (''namespace'', JOpt (ar_namespace p))])) RJson"
| "rbac_request (RB_revokeRole u r ns) = req DELETE [''rbac'', ''users'', u, ''roles'', r]
     [(''namespace'', JOpt ns)] None RJson"
| "rbac_request RB_listNamespaces = json_get [''rbac'', ''namespaces'']"
| "rbac_request (RB_getNamespaceAccess ns) = json_get [''rbac'', ''namespace'', ns, ''access'']"
| "rbac_request (RB_checkAccess q) = json_send POST [''rbac'', ''check-access'']
     [(''user'', JStr (ca_user q)), (''verb'', JStr (ca_verb q)), (''resource'', JStr (ca_resource q)),
      (''namespace'', JOpt (ca_namespace q)), (''api_group'', JOpt (ca_api_group q))]"

section \<open>api/tokens.ts\<close>

datatype tokens_call =
  TK_listHistory | TK_deleteHistoryEntry string | TK_clearHistory | TK_listSaTokens
| TK_revokeSaToken string string | TK_rotateSaToken string string string

fun tokens_request :: "tokens_call \<Rightarrow> request" where
  "tokens_request TK_listHistory = json_get [''tokens'', ''history'']"
| "tokens_request (TK_deleteHistoryEntry i) = bare_send DELETE [''tokens'', ''history'', i]"
| "tokens_request TK_clearHistory = bare_send DELETE [''tokens'', ''history'']"
| "tokens_request TK_listSaTokens = json_get [''tokens'', ''sa-tokens'']"
| "tokens_request (TK_revokeSaToken s ns) =
     req DELETE [''tokens'', ''sa-tokens'', s] [(''namespace'', JStr ns)] None RJson"
| "tokens_request (TK_rotateSaToken s sa ns) = json_send POST [''tokens'', ''sa-tokens'', s, ''rotate'']
     [(''sa_name'', JStr sa), (''namespace'', JStr ns)]"

section \<open>api/users.ts\<close>

record import_user_payload =
  iu_name :: string
  iu_user_type :: user_type
  iu_namespace :: string
  iu_groups :: "string list"

datatype users_call =
  US_list | US_listUnmanagedServiceAccounts | US_import import_user_payload
| US_create create_user_payload | US_delete string user_type "string option"

fun users_request :: "users_call \<Rightarrow> request" where
  "users_request US_list = json_get [''users'']"
| "users_request US_listUnmanagedServiceAccounts = json_get [''users'', ''unmanaged-serviceaccounts'']"
| "users_request (US_import p) = json_send POST [''users'', ''import'']
     [(''name'', JStr (iu_name p)), (''user_type'', JStr (user_type_string (iu_user_type p))),
      (''namespace'', JStr (iu_namespace p)), (''groups'', JStrs (iu_groups p))]"
| "users_request (US_create p) = json_send POST [''users'']
     [(''name'', JStr (cu_name p)), (''user_type'', JStr (user_type_string (cu_user_type p))),
      (''groups'', JStrs (cu_groups p)), (''namespace'', JStr (cu_namespace p))]"
| "users_request (US_delete u t ns) = req DELETE [''users'', u]
     [(''user_type'', JStr (user_type_string t)),
      (''namespace'', JStr (case ns of None \<Rightarrow> ''default'' | Some n \<Rightarrow> n))] None RJson"

section \<open>api/vault.ts\<close>

record vault_config =
  v_addr :: string
  v_token :: string
  v_mount :: string
  v_base_path :: string
  v_namespace :: string
  v_tls_skip_verify :: bool

datatype vault_call = VA_status | VA_configure vault_config | VA_disable

fun vault_request :: "vault_call \<Rightarrow> request" where
  "vault_request VA_status = json_get [''admin'', ''vault'', ''status'']"
| "vault_request (VA_configure c) = json_send PUT [''admin'', ''vault'', ''config'']
     [(''addr'', JStr (v_addr c)), (''token'', JStr (v_token c)), (''mount'', JStr (v_mount c)),
      (''base_path'', JStr (v_base_path c)), (''namespace'', JStr (v_namespace c)),
      (''tls_skip_verify'', JBool (v_tls_skip_verify c))]"
| "vault_request VA_disable = bare_send DELETE [''admin'', ''vault'', ''config'']"

section \<open>Every call on the regular client\<close>

text \<open>\<open>HealthCheck\<close> is the \<open>client.get('/auth/me')\<close> of \<^verbatim>\<open>hooks/useBackendHealth.ts\<close>.\<close>

datatype api_call =
  AccessRequests access_requests_call | AdminApi admin_call | Audit audit_call | MyLink
| ClusterApi cluster_call | Kubeconfig kubeconfig_payload | Permissions permissions_call
| Rbac rbac_call | Tokens tokens_call | Users users_call | Vault vault_call | HealthCheck

fun api_request :: "api_call \<Rightarrow> request" where
  "api_request (AccessRequests c) = access_requests_request c"
| "api_request (AdminApi c) = admin_request c"
| "api_request (Audit c) = audit_request c"
| "api_request MyLink = my_link_request"
| "api_request (ClusterApi c) = cluster_request c"
| "api_request (Kubeconfig p) = kubeconfig_request p"
| "api_request (Permissions c) = permissions_request c"
| "api_request (Rbac c) = rbac_request c"
| "api_request (Tokens c) = tokens_request c"
| "api_request (Users c) = users_request c"
| "api_request (Vault c) = vault_request c"
| "api_request HealthCheck = json_get [''auth'', ''me'']"

end
