(* ===== verification/Routes.thy ===== *)
theory Routes
  imports Api
begin

text \<open>
  The requests of the API modules, taken together, are unambiguous. A path separates its
  segments as long as no argument contains a slash; the arguments are not URL-encoded, so a name
  with a slash can turn one operation into another.
\<close>

section \<open>Lemmas\<close>

definition slash_free :: "string \<Rightarrow> bool" where
  "slash_free s \<longleftrightarrow> CHR ''/'' \<notin> set s"

lemma js_split_path: "\<forall>s\<in>set segs. slash_free s \<Longrightarrow> segs \<noteq> [] \<Longrightarrow> js_split ''/'' (path_of segs) = [] # segs"
proof -
  assume sf: "\<forall>s\<in>set segs. slash_free s" and ne: "segs \<noteq> []"
  have "path_of segs = js_join ''/'' ([] # segs)"
    using ne by (induction segs rule: list_nonempty_induct) (simp_all add: path_of_def js_join_Cons)
  with sf show ?thesis by (simp add: js_split_join_char slash_free_def del: js_join.simps)
qed

lemma path_of_inject:
  assumes "\<forall>s\<in>set xs. slash_free s" "\<forall>s\<in>set ys. slash_free s"
  shows "path_of xs = path_of ys \<longleftrightarrow> xs = ys"
proof (cases "xs = [] \<or> ys = []")
  case True
  then show ?thesis by (cases xs; cases ys) (auto simp: path_of_def)
next
  case False
  with assms show ?thesis by (metis js_split_path list.inject)
qed

lemma user_type_string_inject [simp]: "user_type_string a = user_type_string b \<longleftrightarrow> a = b"
  by (cases a; cases b) (simp_all add: user_type_string_def)

lemma role_string_inject [simp]: "role_string a = role_string b \<longleftrightarrow> a = b"
  by (cases a; cases b) (simp_all add: role_string_def)

lemma rule_json_inject [simp]: "rule_json r = rule_json r' \<longleftrightarrow> r = r'"
  by (cases r; cases r') (auto simp: rule_json_def split: option.splits)

lemma rules_json_inject [simp]: "rules_json rs = rules_json rs' \<longleftrightarrow> rs = rs'"
proof -
  have "inj rule_json" by (simp add: inj_on_def)
  then show ?thesis by (simp add: rules_json_def inj_map_eq_map)
qed

lemma JOptInt_inject [simp]: "JOptInt a = JOptInt b \<longleftrightarrow> a = b"
  by (simp add: JOptInt_def split: option.splits)

fun path_args :: "api_call \<Rightarrow> string list" where
  "path_args (AccessRequests (AR_approve i)) = [i]"
| "path_args (AccessRequests (AR_deny i)) = [i]"
| "path_args (AccessRequests (AR_revoke i)) = [i]"
| "path_args (AccessRequests (AR_setPolicy k n p)) = [k, n]"
| "path_args (AccessRequests (AR_deletePolicy k n)) = [k, n]"
| "path_args (AdminApi (AD_deleteUser u)) = [u]"
| "path_args (AdminApi (AD_resetPassword u p)) = [u]"
| "path_args (AdminApi (AD_setLink u n ns)) = [u]"
| "path_args (AdminApi (AD_clearLink u)) = [u]"
| "path_args (ClusterApi (CL_remove n)) = [n]"
| "path_args (Permissions (PE_listUserRoles u)) = [u]"
| "path_args (Permissions (PE_setUserRole u s r)) = [u, s]"
| "path_args (Permissions (PE_deleteUserRole u s)) = [u, s]"
| "path_args (Rbac (RB_updateClusterRole n rs)) = [n]"
| "path_args (Rbac (RB_deleteClusterRole n)) = [n]"
| "path_args (Rbac (RB_listRoles ns l c)) = [ns]"
| "path_args (Rbac (RB_updateRole ns n rs)) = [ns, n]"
| "path_args (Rbac (RB_deleteRole ns n)) = [ns, n]"
| "path_args (Rbac (RB_getUserPermissions u)) = [u]"
| "path_args (Rbac (RB_assignRole u p k sa)) = [u]"
| "path_args (Rbac (RB_revokeRole u r ns)) = [u, r]"
| "path_args (Rbac (RB_getNamespaceAccess ns)) = [ns]"
| "path_args (Tokens (TK_deleteHistoryEntry i)) = [i]"
| "path_args (Tokens (TK_revokeSaToken s ns)) = [s]"
| "path_args (Tokens (TK_rotateSaToken s sa ns)) = [s]"
| "path_args (Users (US_delete u t ns)) = [u]"
| "path_args c = []"

fun canonical :: "api_call \<Rightarrow> api_call" where
  "canonical (Users (US_delete u t None)) = Users (US_delete u t (Some ''default''))"
| "canonical (Rbac (RB_listClusterRoles s l (Some []))) = Rbac (RB_listClusterRoles s l None)"
| "canonical (Rbac (RB_listRoles ns l (Some []))) = Rbac (RB_listRoles ns l None)"
| "canonical c = c"

lemmas inj_rules = req_def path_of_inject slash_free_def

lemma access_requests_inject:
  assumes "access_requests_request c = access_requests_request d"
    "\<forall>s\<in>set (path_args (AccessRequests c)). slash_free s"
    "\<forall>s\<in>set (path_args (AccessRequests d)). slash_free s"
  shows "c = d"
  using assms
  by (cases c; cases d)
    (auto simp: inj_rules intro: access_request_create_payload.equality
      jit_role_policy_set_payload.equality access_request_export_query.equality)

lemma admin_inject:
  assumes "admin_request c = admin_request d"
    "\<forall>s\<in>set (path_args (AdminApi c)). slash_free s" "\<forall>s\<in>set (path_args (AdminApi d)). slash_free s"
  shows "c = d"
  using assms by (cases c; cases d) (auto simp: inj_rules)

lemma audit_inject: "audit_request c = audit_request d \<Longrightarrow> c = d"
  by (cases c; cases d)
    (auto simp: inj_rules intro: audit_log_query.equality audit_log_export_query.equality)

lemma cluster_inject:
  assumes "cluster_request c = cluster_request d"
    "\<forall>s\<in>set (path_args (ClusterApi c)). slash_free s" "\<forall>s\<in>set (path_args (ClusterApi d)). slash_free s"
  shows "c = d"
  using assms by (cases c; cases d) (auto simp: inj_rules intro: add_cluster_payload.equality)

lemma kubeconfig_inject: "kubeconfig_request p = kubeconfig_request q \<Longrightarrow> p = q"
  by (auto simp: kubeconfig_request_def req_def intro: kubeconfig_payload.equality)

lemma permissions_inject:
  assumes "permissions_request c = permissions_request d"
    "\<forall>s\<in>set (path_args (Permissions c)). slash_free s" "\<forall>s\<in>set (path_args (Permissions d)). slash_free s"
  shows "c = d"
  using assms by (cases c; cases d) (auto simp: inj_rules)

lemma cursor_param_inject:
  "cursor_param a = cursor_param b \<longleftrightarrow> (a = b \<or> {a, b} \<subseteq> {None, Some []})"
  by (cases a; cases b) (auto simp: cursor_param_def truthy_def)

lemma rbac_inject:
  assumes "rbac_request c = rbac_request d"
    "\<forall>s\<in>set (path_args (Rbac c)). slash_free s" "\<forall>s\<in>set (path_args (Rbac d)). slash_free s"
  shows "canonical (Rbac c) = canonical (Rbac d)"
  using assms
  by (cases c; cases d)
    (auto simp: inj_rules cursor_param_inject intro: assign_role_payload.equality
      check_access_request.equality)

lemma tokens_inject:
  assumes "tokens_request c = tokens_request d"
    "\<forall>s\<in>set (path_args (Tokens c)). slash_free s" "\<forall>s\<in>set (path_args (Tokens d)). slash_free s"
  shows "c = d"
  using assms by (cases c; cases d) (auto simp: inj_rules)

lemma users_inject:
  assumes "users_request c = users_request d"
    "\<forall>s\<in>set (path_args (Users c)). slash_free s" "\<forall>s\<in>set (path_args (Users d)). slash_free s"
  shows "canonical (Users c) = canonical (Users d)"
  using assms
  by (cases c; cases d)
    (auto simp: inj_rules intro: import_user_payload.equality create_user_payload.equality
      split: option.splits)

lemma vault_inject: "vault_request c = vault_request d \<Longrightarrow> c = d"
  by (cases c; cases d) (auto simp: inj_rules intro: vault_config.equality)

fun family :: "api_call \<Rightarrow> string list" where
  "family (AccessRequests c) = [''access-requests'']"
| "family (AdminApi c) = [''auth'', ''users'']"
| "family (Audit c) = [''audit'']"
| "family MyLink = [''auth'', ''me'', ''link'']"
| "family (ClusterApi c) = [''cluster'']"
| "family (Kubeconfig p) = [''kubeconfig'']"
| "family (Permissions c) = [''permissions'']"
| "family (Rbac c) = [''rbac'']"
| "family (Tokens c) = [''tokens'']"
| "family (Users c) = [''users'']"
| "family (Vault c) = [''admin'']"
| "family HealthCheck = [''auth'', ''me'', []]"

definition path_family :: "string \<Rightarrow> string list" where
  "path_family p = (let segs = tl (js_split ''/'' p) in
     if hd segs = ''auth'' then (if segs ! 1 = ''me'' then take 3 (segs @ [[]]) else take 2 segs)
     else take 1 segs)"

lemma path_family_path_of:
  "\<forall>s\<in>set segs. slash_free s \<Longrightarrow> segs \<noteq> [] \<Longrightarrow> path_family (path_of segs) =
     (if hd segs = ''auth'' then (if segs ! 1 = ''me'' then take 3 (segs @ [[]]) else take 2 segs)
     else take 1 segs)"
  by (simp add: path_family_def js_split_path)

lemma path_family_request:
  assumes "\<forall>s\<in>set (path_args c). slash_free s"
  shows "path_family (rq_path (api_request c)) = family c"
proof -
  have "\<exists>segs. rq_path (api_request c) = path_of segs \<and> (\<forall>s\<in>set segs. slash_free s) \<and> segs \<noteq> [] \<and>
    (if hd segs = ''auth'' then (if segs ! 1 = ''me'' then take 3 (segs @ [[]]) else take 2 segs)
     else take 1 segs) = family c"
    using assms
  proof (cases c)
    case (AccessRequests x) with assms show ?thesis by (cases x) (force simp: req_def slash_free_def)+
  next case (AdminApi x) with assms show ?thesis by (cases x) (force simp: req_def slash_free_def)+
  next case (Audit x) with assms show ?thesis by (cases x) (force simp: req_def slash_free_def)+
  next case (ClusterApi x) with assms show ?thesis by (cases x) (force simp: req_def slash_free_def)+
  next case (Permissions x) with assms show ?thesis by (cases x) (force simp: req_def slash_free_def)+
  next case (Rbac x) with assms show ?thesis by (cases x) (force simp: req_def slash_free_def)+
  next case (Tokens x) with assms show ?thesis by (cases x) (force simp: req_def slash_free_def)+
  next case (Users x) with assms show ?thesis by (cases x) (force simp: req_def slash_free_def)+
  next case (Vault x) with assms show ?thesis by (cases x) (force simp: req_def slash_free_def)+
  qed (force simp: req_def slash_free_def my_link_request_def kubeconfig_request_def)+
  then show ?thesis by (metis path_family_path_of)
qed

section \<open>Properties\<close>

text \<open>No two operations of the API modules build the same request: as long as the names put
  into a path contain no slash, method, path, parameters and body determine the operation and all
  its arguments (up to the two spellings of a default: the default namespace of a deletion, and
  an empty cursor).\<close>

theorem api_request_inject:
  assumes "api_request c = api_request d"
    and "\<forall>s\<in>set (path_args c). slash_free s" "\<forall>s\<in>set (path_args d). slash_free s"
  shows "canonical c = canonical d"
proof -
  from assms have "family c = family d" by (metis path_family_request)
  with assms show ?thesis
    by (cases c; cases d)
      (auto dest: access_requests_inject admin_inject audit_inject cluster_inject kubeconfig_inject
        permissions_inject rbac_inject tokens_inject users_inject vault_inject)
qed

theorem api_request_inject_witness:
  "\<exists>c d. api_request c = api_request d \<and> c \<noteq> d \<and> canonical c = canonical d"
proof -
  let ?c = "Users (US_delete ''bob'' Certificate None)"
  let ?d = "Users (US_delete ''bob'' Certificate (Some ''default''))"
  have eq: "api_request ?c = api_request ?d" by simp
  have "canonical ?c = canonical ?d"
    by (rule api_request_inject [OF eq]) (simp_all add: slash_free_def)
  with eq show ?thesis by blast
qed

text \<open>The hypothesis is needed: removing the role of user \<open>a/b\<close> on scope \<open>c\<close> and removing the
  role of user \<open>a\<close> on scope \<open>b/c\<close> is one and the same request.\<close>

lemma unencoded_path_clash:
  "api_request (Permissions (PE_deleteUserRole ''a/b'' ''c'')) =
   api_request (Permissions (PE_deleteUserRole ''a'' ''b/c''))"
  by (simp add: req_def path_of_def)

end
