(* ===== verification/ApiError.thy ===== *)
theory ApiError
  imports JsValue
begin

text \<open>
  \<^verbatim>\<open>formatApiError\<close> of \<^verbatim>\<open>api/client.ts\<close>: the message shown for a failed request. A
  FastAPI error body carries a string under \<open>detail\<close>, or for a 422 a list of objects with a
  location and a message.
\<close>

record axios_response =
  r_status :: nat
  r_data :: jsval

record axios_error =
  x_message :: string
  x_response :: "axios_response option"

record api_error =
  e_message :: string
  e_status :: "nat option"

text \<open>The separator of the list of validation errors: an em dash (U+2014) between two blanks.\<close>

definition detail_sep :: string where
  "detail_sep = [CHR 0x20, CHR 0xE2, CHR 0x80, CHR 0x94, CHR 0x20]"

text \<open>One entry of a \<open>detail\<close> list. The result is a value, not a string: without a location
  the \<open>msg\<close> itself is returned, and the \<open>join\<close> around it stringifies it.\<close>

definition format_detail_entry :: "jsval \<Rightarrow> jsval" where
  "format_detail_entry d =
     (if is_plain_object d \<and> js_has_prop d ''msg''
      then
        let loc = (case js_prop d ''loc'' of
                     JArr ls \<Rightarrow> js_join_vals ''.'' (drop 1 ls)
                   | _ \<Rightarrow> [])
        in if truthy loc then JStr (loc @ '': '' @ js_string (js_prop d ''msg''))
           else js_prop d ''msg''
      else JStr (js_string d))"

definition error_detail :: "axios_error \<Rightarrow> jsval" where
  "error_detail err =
     (case x_response err of None \<Rightarrow> JUndefined | Some r \<Rightarrow> js_prop (r_data r) ''detail'')"

definition format_api_error :: "axios_error \<Rightarrow> api_error" where
  "format_api_error err =
     \<lparr>e_message =
        (case error_detail err of
           JStr s \<Rightarrow> s
         | JArr ds \<Rightarrow> js_join_vals detail_sep (map format_detail_entry ds)
         | _ \<Rightarrow> or_else (x_message err) ''Request failed''),
      e_status = map_option r_status (x_response err)\<rparr>"

section \<open>Lemmas\<close>

text \<open>A validation error as FastAPI builds it: a location of names and indices below the part of
  the request it lies in, and a message.\<close>

fun loc_value :: "string + nat \<Rightarrow> jsval" where
  "loc_value (Inl s) = JStr s"
| "loc_value (Inr n) = JNum (int n)"

fun loc_text :: "string + nat \<Rightarrow> string" where
  "loc_text (Inl s) = s"
| "loc_text (Inr n) = show_nat n"

definition validation_entry :: "string \<Rightarrow> (string + nat) list \<Rightarrow> string \<Rightarrow> jsval" where
  "validation_entry part path msg =
     JObj [(''loc'', JArr (JStr part # map loc_value path)), (''msg'', JStr msg)]"

definition validation_line :: "(string + nat) list \<Rightarrow> string \<Rightarrow> string" where
  "validation_line path msg =
     (if path = [] then msg else js_join ''.'' (map loc_text path) @ '': '' @ msg)"

lemma loc_value_text: "(if nullish (loc_value p) then [] else js_string (loc_value p)) = loc_text p"
  by (cases p) (simp_all add: show_int_def)

lemma js_join_loc: "js_join_vals sep (map loc_value path) = js_join sep (map loc_text path)"
  by (simp add: js_join_vals_def o_def loc_value_text)

lemma js_join_not_Nil: "ws \<noteq> [] \<Longrightarrow> \<forall>w\<in>set ws. w \<noteq> [] \<Longrightarrow> js_join sep ws \<noteq> []"
  by (induction sep ws rule: js_join.induct) auto

lemma format_validation_entry:
  assumes "\<forall>p\<in>set path. loc_text p \<noteq> []"
  shows "format_detail_entry (validation_entry part path msg) = JStr (validation_line path msg)"
proof (cases "path = []")
  case True
  then show ?thesis
    by (simp add: format_detail_entry_def validation_entry_def validation_line_def js_join_vals_def)
next
  case False
  with assms have "truthy (js_join ''.'' (map loc_text path))"
    by (simp add: truthy_def js_join_not_Nil)
  with False show ?thesis
    by (simp add: format_detail_entry_def validation_entry_def validation_line_def js_join_loc
        Let_def)
qed

section \<open>Properties\<close>

text \<open>A 422 body is shown in full and in order: one line per validation error, each with the
  path of the field below the request part, joined by the separator; the status is passed on.\<close>

theorem format_api_error_validation:
  assumes "x_response err = Some \<lparr>r_status = st, r_data = JObj [(''detail'',
      JArr (map (\<lambda>(part, path, msg). validation_entry part path msg) es))]\<rparr>"
    and "\<forall>(part, path, msg)\<in>set es. \<forall>p\<in>set path. loc_text p \<noteq> []"
  shows "format_api_error err =
     \<lparr>e_message = js_join detail_sep (map (\<lambda>(part, path, msg). validation_line path msg) es),
      e_status = Some st\<rparr>"
proof -
  have "map format_detail_entry (map (\<lambda>(part, path, msg). validation_entry part path msg) es) =
      map (\<lambda>(part, path, msg). JStr (validation_line path msg)) es"
    using assms(2) by (auto simp: format_validation_entry)
  moreover have "js_join_vals detail_sep (map (\<lambda>(part, path, msg). JStr (validation_line path msg)) es) =
      js_join detail_sep (map (\<lambda>(part, path, msg). validation_line path msg) es)"
    by (auto simp: js_join_vals_def intro!: arg_cong [where f = "js_join detail_sep"])
  ultimately show ?thesis
    using assms(1) by (simp add: format_api_error_def error_detail_def del: map_map)
qed

theorem format_api_error_validation_witness:
  "e_message (format_api_error \<lparr>x_message = ''m'', x_response = Some \<lparr>r_status = 422,
      r_data = JObj [(''detail'', JArr [validation_entry ''body'' [Inl ''rules'', Inl ''verbs''] ''Field required''])]\<rparr>\<rparr>)
   = ''rules.verbs: Field required''"
proof -
  let ?es = "[(''body'', [Inl ''rules'', Inl ''verbs''], ''Field required'')] ::
    (string \<times> (string + nat) list \<times> string) list"
  have "format_api_error \<lparr>x_message = ''m'', x_response = Some \<lparr>r_status = 422, r_data = JObj [(''detail'',
      JArr (map (\<lambda>(part, path, msg). validation_entry part path msg) ?es))]\<rparr>\<rparr> =
      \<lparr>e_message = js_join detail_sep (map (\<lambda>(part, path, msg). validation_line path msg) ?es),
       e_status = Some 422\<rparr>"
    by (rule format_api_error_validation) simp_all
  then show ?thesis by (simp add: validation_line_def)
qed

text \<open>Every other failure: a business error shows its \<open>detail\<close> string verbatim; a body
  without a string or list under \<open>detail\<close>, or no response at all, shows the transport message,
  never an empty text; the status is undefined exactly when there was no response.\<close>

theorem format_api_error_plain:
  "(case error_detail err of
      JStr s \<Rightarrow> e_message (format_api_error err) = s
    | JArr ds \<Rightarrow> length ds = 1 \<longrightarrow> e_message (format_api_error err) =
        (if nullish (format_detail_entry (hd ds)) then []
         else js_string (format_detail_entry (hd ds)))
    | _ \<Rightarrow> e_message (format_api_error err) \<noteq> [] \<and>
        (x_message err \<noteq> [] \<longrightarrow> e_message (format_api_error err) = x_message err)) \<and>
   (e_status (format_api_error err) = None \<longleftrightarrow> x_response err = None)"
proof (cases "error_detail err")
  case (JArr ds)
  then show ?thesis
    by (cases ds) (auto simp: format_api_error_def js_join_vals_def)
qed (auto simp: format_api_error_def or_else_def truthy_def)

theorem format_api_error_plain_witness:
  "e_message (format_api_error \<lparr>x_message = ''Network Error'', x_response = None\<rparr>) = ''Network Error''"
  using format_api_error_plain [of "\<lparr>x_message = ''Network Error'', x_response = None\<rparr>"]
  by (simp add: error_detail_def)

end
