(* ===== verification/Client.thy ===== *)
theory Client
  imports Systems ApiError Api
begin

text \<open>
  \<^verbatim>\<open>api/client.ts\<close>: the request interceptor, and the response interceptor that refreshes an
  expired access token once and replays the requests that failed meanwhile.

  A call through the client is numbered; its promise is settled when the number gets an outcome.
  What the module keeps is \<open>is_refreshing\<close> and \<open>pending_queue\<close> (the closures of the queue are
  the requests they replay, with the error they reject with); \<open>refresher\<close> is the handler that
  waits for the answer of the refresh call. A handler runs to completion: between two \<open>await\<close>s
  nothing interleaves. A configuration handed back to the client keeps its \<open>_retry\<close> mark.
\<close>

section \<open>The request interceptor\<close>

record config =
  cf_request :: request
  cf_authorization :: "string option"
  cf_retry :: bool

definition bearer :: "string \<Rightarrow> string" where
  "bearer token = ''Bearer '' @ token"

definition request_interceptor :: "string \<Rightarrow> string option \<Rightarrow> config \<Rightarrow> config" where
  "request_interceptor cluster token cfg =
     (let cfg1 = (if truthy cluster \<and> cluster \<noteq> ''local''
                  then cfg\<lparr>cf_request := (cf_request cfg)
                         \<lparr>rq_params := obj_set ''cluster'' (JStr cluster) (rq_params (cf_request cfg))\<rparr>\<rparr>
                  else cfg)
      in case token of
           Some t \<Rightarrow> if truthy t then cfg1\<lparr>cf_authorization := Some (bearer t)\<rparr> else cfg1
         | None \<Rightarrow> cfg1)"

definition call_config :: "api_call \<Rightarrow> config" where
  "call_config c = \<lparr>cf_request = api_request c, cf_authorization = None, cf_retry = False\<rparr>"

section \<open>The response interceptor\<close>

datatype outcome = Resolved | RejectedApi api_error | RejectedRaw axios_error

type_synonym waiting = "nat \<times> config \<times> axios_error"

datatype client_log = Sent nat config | RefreshPosted | CacheCleared | LoginRedirect

record client_state =
  is_refreshing :: bool
  pending_queue :: "waiting list"
  refresher :: "waiting option"
  in_flight :: "(nat \<times> config) list"
  settled :: "(nat \<times> outcome) list"
  next_id :: nat
  auth :: auth_store
  active_cluster :: string
  client_events :: "client_log list"

definition client_init :: "auth_store \<Rightarrow> string \<Rightarrow> client_state" where
  "client_init a c = \<lparr>is_refreshing = False, pending_queue = [], refresher = None, in_flight = [],
     settled = [], next_id = 0, auth = a, active_cluster = c, client_events = []\<rparr>"

definition send :: "nat \<Rightarrow> config \<Rightarrow> client_state \<Rightarrow> client_state" where
  "send i cfg s =
     (let cfg' = request_interceptor (active_cluster s) (as_token (auth s)) cfg
      in s\<lparr>in_flight := in_flight s @ [(i, cfg')], client_events := client_events s @ [Sent i cfg']\<rparr>)"

definition settle :: "nat \<Rightarrow> outcome \<Rightarrow> client_state \<Rightarrow> client_state" where
  "settle i r s = s\<lparr>settled := settled s @ [(i, r)]\<rparr>"

definition issue :: "api_call \<Rightarrow> client_state \<Rightarrow> client_state" where
  "issue c s = send (next_id s) (call_config c) (s\<lparr>next_id := Suc (next_id s)\<rparr>)"

definition answered :: "nat \<Rightarrow> config \<Rightarrow> client_state \<Rightarrow> client_state" where
  "answered i cfg s = s\<lparr>in_flight := remove1 (i, cfg) (in_flight s)\<rparr>"

definition on_response :: "nat \<Rightarrow> config \<Rightarrow> client_state \<Rightarrow> client_state" where
  "on_response i cfg s = settle i Resolved (answered i cfg s)"

definition error_status :: "axios_error \<Rightarrow> nat option" where
  "error_status err = map_option r_status (x_response err)"

definition on_response_error :: "nat \<Rightarrow> config \<Rightarrow> axios_error \<Rightarrow> client_state \<Rightarrow> client_state" where
  "on_response_error i cfg err s =
     (let s1 = answered i cfg s in
      if error_status err = Some 401 \<and> \<not> cf_retry cfg then
        let original = cfg\<lparr>cf_retry := True\<rparr> in
        if is_refreshing s1
        then s1\<lparr>pending_queue := pending_queue s1 @ [(i, original, err)]\<rparr>
        else s1\<lparr>is_refreshing := True, refresher := Some (i, original, err),
                client_events := client_events s1 @ [RefreshPosted]\<rparr>
      else settle i (RejectedApi (format_api_error err)) s1)"

fun pending_callback :: "string option \<Rightarrow> waiting \<Rightarrow> client_state \<Rightarrow> client_state" where
  "pending_callback token (i, original, err) s =
     (case token of
        Some t \<Rightarrow> if truthy t then send i (original\<lparr>cf_authorization := Some (bearer t)\<rparr>) s
                  else settle i (RejectedRaw err) s
      | None \<Rightarrow> settle i (RejectedRaw err) s)"

definition drain_queue :: "string option \<Rightarrow> client_state \<Rightarrow> client_state" where
  "drain_queue token s = (fold (pending_callback token) (pending_queue s) s)\<lparr>pending_queue := []\<rparr>"

definition refresh_done :: "client_state \<Rightarrow> client_state" where
  "refresh_done s = s\<lparr>is_refreshing := False, refresher := None\<rparr>"

definition on_refresh_ok :: "string \<Rightarrow> waiting \<Rightarrow> client_state \<Rightarrow> client_state" where
  "on_refresh_ok access_token w s =
     (case w of (i, original, err) \<Rightarrow>
        refresh_done (send i (original\<lparr>cf_authorization := Some (bearer access_token)\<rparr>)
          (drain_queue (Some access_token) (s\<lparr>auth := set_access_token access_token (auth s)\<rparr>))))"

definition on_refresh_error :: "waiting \<Rightarrow> client_state \<Rightarrow> client_state" where
  "on_refresh_error w s =
     (case w of (i, original, err) \<Rightarrow>
        (let s1 = drain_queue None s;
             s2 = s1\<lparr>auth := clear_auth (auth s1),
                     client_events := client_events s1 @ [CacheCleared, LoginRedirect]\<rparr>
         in refresh_done (settle i (RejectedRaw err) s2)))"

section \<open>The steps of the client\<close>

text \<open>\<open>network_step\<close>: an answer from the network. \<open>client_step\<close> adds new calls and the writes of
  the rest of the application to the two stores.\<close>

inductive network_step :: "client_state \<Rightarrow> client_state \<Rightarrow> bool" where
  ns_ok: "(i, cfg) \<in> set (in_flight s) \<Longrightarrow> network_step s (on_response i cfg s)"
| ns_error: "(i, cfg) \<in> set (in_flight s) \<Longrightarrow> network_step s (on_response_error i cfg err s)"
| ns_refreshed: "refresher s = Some w \<Longrightarrow> network_step s (on_refresh_ok t w s)"
| ns_refresh_failed: "refresher s = Some w \<Longrightarrow> network_step s (on_refresh_error w s)"

inductive client_step :: "client_state \<Rightarrow> client_state \<Rightarrow> bool" where
  cs_network: "network_step s t \<Longrightarrow> client_step s t"
| cs_issue: "client_step s (issue c s)"
| cs_auth: "client_step s (s\<lparr>auth := a\<rparr>)"
| cs_cluster: "client_step s (s\<lparr>active_cluster := c\<rparr>)"

inductive_cases network_stepE: "network_step s t"
inductive_cases client_stepE: "client_step s t"

section \<open>Lemmas\<close>

lemma request_interceptor_retry [simp]: "cf_retry (request_interceptor c t cfg) = cf_retry cfg"
  by (auto simp: request_interceptor_def Let_def split: option.splits)

lemma send_simps [simp]:
  "is_refreshing (send i cfg s) = is_refreshing s" "pending_queue (send i cfg s) = pending_queue s"
  "refresher (send i cfg s) = refresher s" "settled (send i cfg s) = settled s"
  "next_id (send i cfg s) = next_id s" "auth (send i cfg s) = auth s"
  "active_cluster (send i cfg s) = active_cluster s"
  by (simp_all add: send_def Let_def)

definition replayed :: "client_state \<Rightarrow> string \<Rightarrow> waiting \<Rightarrow> nat \<times> config" where
  "replayed s t w = (fst w, request_interceptor (active_cluster s) (as_token (auth s))
     ((fst (snd w))\<lparr>cf_authorization := Some (bearer t)\<rparr>))"

definition rejected :: "waiting \<Rightarrow> nat \<times> outcome" where
  "rejected w = (fst w, RejectedRaw (snd (snd w)))"

definition sent_event :: "nat \<times> config \<Rightarrow> client_log" where
  "sent_event p = Sent (fst p) (snd p)"

lemma replayed_simps [simp]:
  "fst (replayed s t w) = fst w" "fst \<circ> replayed s t = fst"
  "cf_retry (snd (replayed s t w)) = cf_retry (fst (snd w))"
  "fst (rejected w) = fst w" "fst \<circ> rejected = fst"
  by (auto simp: replayed_def rejected_def)

lemma fold_replay:
  "truthy t \<Longrightarrow> fold (pending_callback (Some t)) q s =
     s\<lparr>in_flight := in_flight s @ map (replayed s t) q,
       client_events := client_events s @ map (sent_event \<circ> replayed s t) q\<rparr>"
proof (induction q arbitrary: s)
  case (Cons w q)
  obtain i cfg err where w: "w = (i, cfg, err)" by (cases w)
  define s' where "s' = send i (cfg\<lparr>cf_authorization := Some (bearer t)\<rparr>) s"
  have same: "replayed s' t = replayed s t"
    by (rule ext) (simp add: replayed_def s'_def)
  have "fold (pending_callback (Some t)) (w # q) s = fold (pending_callback (Some t)) q s'"
    using Cons.prems by (simp add: w s'_def)
  also have "\<dots> = s'\<lparr>in_flight := in_flight s' @ map (replayed s t) q,
       client_events := client_events s' @ map (sent_event \<circ> replayed s t) q\<rparr>"
    using Cons same by simp
  finally show ?case
    by (simp add: s'_def send_def Let_def w replayed_def sent_event_def)
qed simp

lemma fold_reject:
  "\<not> (\<exists>t. token = Some t \<and> truthy t) \<Longrightarrow>
   fold (pending_callback token) q s = s\<lparr>settled := settled s @ map rejected q\<rparr>"
proof (induction q arbitrary: s)
  case (Cons w q)
  obtain i cfg err where w: "w = (i, cfg, err)" by (cases w)
  with Cons show ?case
    by (auto simp: settle_def rejected_def split: option.splits)
qed simp

lemma on_refresh_ok_eq:
  "on_refresh_ok t w s =
     (let s1 = s\<lparr>auth := set_access_token t (auth s)\<rparr>;
          q = pending_queue s;
          r = replayed s1 t w
      in if truthy t
         then s1\<lparr>is_refreshing := False, refresher := None, pending_queue := [],
                 in_flight := in_flight s @ map (replayed s1 t) q @ [r],
                 client_events := client_events s @ map (sent_event \<circ> replayed s1 t) q @ [sent_event r]\<rparr>
         else s1\<lparr>is_refreshing := False, refresher := None, pending_queue := [],
                 settled := settled s @ map rejected q, in_flight := in_flight s @ [r],
                 client_events := client_events s @ [sent_event r]\<rparr>)"
  by (cases w)
    (auto simp: on_refresh_ok_def drain_queue_def fold_replay fold_reject send_def Let_def
      refresh_done_def replayed_def sent_event_def)

lemma on_refresh_error_eq:
  "on_refresh_error w s = s\<lparr>is_refreshing := False, refresher := None, pending_queue := [],
     settled := settled s @ map rejected (pending_queue s) @ [rejected w],
     auth := clear_auth (auth s),
     client_events := client_events s @ [CacheCleared, LoginRedirect]\<rparr>"
  by (cases w)
    (simp add: on_refresh_error_def drain_queue_def fold_reject refresh_done_def settle_def
      rejected_def Let_def)

section \<open>The invariant\<close>

definition refresher_list :: "client_state \<Rightarrow> waiting list" where
  "refresher_list s = (case refresher s of None \<Rightarrow> [] | Some w \<Rightarrow> [w])"

definition waiting_all :: "client_state \<Rightarrow> waiting list" where
  "waiting_all s = pending_queue s @ refresher_list s"

definition all_ids :: "client_state \<Rightarrow> nat list" where
  "all_ids s = map fst (in_flight s) @ map fst (waiting_all s) @ map fst (settled s)"

fun is_send_of :: "nat \<Rightarrow> client_log \<Rightarrow> bool" where
  "is_send_of i (Sent j cfg) = (i = j)"
| "is_send_of i _ = False"

definition sends :: "nat \<Rightarrow> client_state \<Rightarrow> nat" where
  "sends i s = length (filter (is_send_of i) (client_events s))"

definition conserved :: "client_state \<Rightarrow> bool" where
  "conserved s \<longleftrightarrow> mset (all_ids s) = mset [0..<next_id s]"

definition queue_guarded :: "client_state \<Rightarrow> bool" where
  "queue_guarded s \<longleftrightarrow> (is_refreshing s \<longleftrightarrow> refresher s \<noteq> None) \<and>
     (pending_queue s \<noteq> [] \<longrightarrow> is_refreshing s) \<and> (\<forall>w\<in>set (waiting_all s). cf_retry (fst (snd w)))"

definition sends_bounded :: "client_state \<Rightarrow> bool" where
  "sends_bounded s \<longleftrightarrow>
     (\<forall>(i, cfg)\<in>set (in_flight s). sends i s = (if cf_retry cfg then 2 else 1)) \<and>
     (\<forall>w\<in>set (waiting_all s). sends (fst w) s = 1) \<and>
     (\<forall>(i, r)\<in>set (settled s). sends i s \<le> 2) \<and>
     (\<forall>i \<ge> next_id s. sends i s = 0)"

definition client_inv :: "client_state \<Rightarrow> bool" where
  "client_inv s \<longleftrightarrow> conserved s \<and> queue_guarded s \<and> sends_bounded s"

lemmas waiting_defs = waiting_all_def refresher_list_def

lemma mset_remove1_fst:
  "(i, cfg) \<in> set xs \<Longrightarrow> mset (map fst xs) = add_mset i (mset (map fst (remove1 (i, cfg) xs)))"
  by (induction xs) auto

lemma conserved_init: "client_inv (client_init a c)"
  by (simp add: client_inv_def conserved_def queue_guarded_def sends_bounded_def client_init_def
      all_ids_def waiting_defs sends_def)

lemma conserved_network: "network_step s t \<Longrightarrow> queue_guarded s \<Longrightarrow> conserved s \<Longrightarrow> conserved t"
proof (induction rule: network_step.induct)
  case (ns_ok i cfg s)
  from mset_remove1_fst [OF ns_ok(1)] ns_ok(3) show ?case
    by (simp add: conserved_def all_ids_def waiting_defs on_response_def settle_def answered_def)
next
  case (ns_error i cfg s err)
  from mset_remove1_fst [OF ns_error(1)] ns_error(2,3) show ?case
    by (auto simp: conserved_def all_ids_def waiting_defs on_response_error_def settle_def
        answered_def Let_def queue_guarded_def split: option.splits)
next
  case (ns_refreshed s w t)
  then show ?case
    by (auto simp: conserved_def all_ids_def waiting_defs on_refresh_ok_eq Let_def multiset.map_comp ac_simps)
next
  case (ns_refresh_failed s w)
  then show ?case
    by (auto simp: conserved_def all_ids_def waiting_defs on_refresh_error_eq multiset.map_comp ac_simps)
qed

lemma queue_guarded_network: "network_step s t \<Longrightarrow> queue_guarded s \<Longrightarrow> queue_guarded t"
proof (induction rule: network_step.induct)
  case (ns_ok i cfg s)
  then show ?case
    by (auto simp: queue_guarded_def waiting_defs on_response_def settle_def answered_def)
next
  case (ns_error i cfg s err)
  then show ?case
    by (auto simp: queue_guarded_def waiting_defs on_response_error_def settle_def answered_def Let_def
        split: option.splits)
qed (auto simp: queue_guarded_def waiting_defs on_refresh_ok_eq on_refresh_error_eq Let_def)


lemma conserved_distinct: "conserved s \<Longrightarrow> distinct (all_ids s)"
  by (metis conserved_def distinct_upt mset_eq_imp_distinct_iff)

lemma conserved_set: "conserved s \<Longrightarrow> set (all_ids s) = {..<next_id s}"
  by (metis atLeast_upt conserved_def set_mset_mset)

definition added_sends :: "nat \<Rightarrow> client_log list \<Rightarrow> nat" where
  "added_sends i es = length (filter (is_send_of i) es)"

lemma sends_events:
  "client_events t = client_events s @ es \<Longrightarrow> sends i t = sends i s + added_sends i es"
  by (simp add: sends_def added_sends_def)

lemma added_sends_simps [simp]:
  "added_sends i [] = 0" "added_sends i (e # es) = (if is_send_of i e then 1 else 0) + added_sends i es"
  "added_sends i (es @ fs) = added_sends i es + added_sends i fs"
  by (simp_all add: added_sends_def)

lemma added_sends_replayed:
  "added_sends i (map (sent_event \<circ> replayed s t) q) = count_list (map fst q) i"
  by (induction q) (auto simp: sent_event_def)

lemma count_list_distinct: "distinct xs \<Longrightarrow> count_list xs x = (if x \<in> set xs then 1 else 0)"
  by (induction xs) auto

text \<open>What the numbering gives: a waiting request is waiting once, is not in flight or settled,
  and was issued.\<close>

lemma conserved_waiting:
  assumes "conserved s" "w \<in> set (waiting_all s)"
  shows "count_list (map fst (waiting_all s)) (fst w) = 1" "fst w \<notin> fst ` set (in_flight s)"
    "fst w \<notin> fst ` set (settled s)" "fst w < next_id s"
proof -
  have d: "distinct (map fst (in_flight s) @ map fst (waiting_all s) @ map fst (settled s))"
    using conserved_distinct [OF assms(1)] by (simp add: all_ids_def)
  then show "count_list (map fst (waiting_all s)) (fst w) = 1"
    using assms(2) by (simp add: count_list_distinct)
  from d assms(2) show "fst w \<notin> fst ` set (in_flight s)" "fst w \<notin> fst ` set (settled s)"
    by auto
  show "fst w < next_id s"
    using conserved_set [OF assms(1)] assms(2) by (auto simp: all_ids_def)
qed

lemma sends_bounded_refreshed:
  assumes w: "refresher s = Some w" and inv: "conserved s" "queue_guarded s" "sends_bounded s"
  shows "sends_bounded (on_refresh_ok a w s)"
proof -
  let ?t = "on_refresh_ok a w s"
  have wa: "waiting_all s = pending_queue s @ [w]"
    using w by (simp add: waiting_defs)
  let ?sent = "if truthy a then pending_queue s @ [w] else [w]"
  have "client_events ?t = client_events s @
      map (sent_event \<circ> replayed (s\<lparr>auth := set_access_token a (auth s)\<rparr>) a) ?sent"
    by (simp add: on_refresh_ok_eq Let_def)
  then have sends: "sends j ?t = sends j s + count_list (map fst ?sent) j" for j
    by (metis sends_events added_sends_replayed)
  note facts = conserved_waiting [OF inv(1)]
  have keep: "count_list (map fst ?sent) j = 0" if "j \<notin> fst ` set (waiting_all s)" for j
    using that by (auto simp: wa)
  have one: "count_list (map fst ?sent) (fst v) = 1" if "v \<in> set ?sent" for v
    using facts(1) [of v] facts(1) [of w] that by (auto simp: wa split: if_splits)
  have le1: "count_list (map fst ?sent) (fst v) \<le> 1" if "v \<in> set (waiting_all s)" for v
    using facts(1) [of v] that by (auto simp: wa)
  from inv(3) have was: "\<And>v. v \<in> set (waiting_all s) \<Longrightarrow> sends (fst v) s = 1"
    by (auto simp: sends_bounded_def)
  from inv(2) have marked: "\<And>v. v \<in> set (waiting_all s) \<Longrightarrow> cf_retry (fst (snd v))"
    by (auto simp: queue_guarded_def)
  let ?s1 = "s\<lparr>auth := set_access_token a (auth s)\<rparr>"
  have flight: "in_flight ?t = in_flight s @ map (replayed ?s1 a) ?sent"
    by (simp add: on_refresh_ok_eq Let_def)
  have settled: "settled ?t = settled s @ (if truthy a then [] else map rejected (pending_queue s))"
    by (simp add: on_refresh_ok_eq Let_def)
  have "\<forall>(i, cfg)\<in>set (in_flight ?t). sends i ?t = (if cf_retry cfg then 2 else 1)"
  proof (clarify)
    fix i cfg assume "(i, cfg) \<in> set (in_flight ?t)"
    then consider "(i, cfg) \<in> set (in_flight s)" |
      v where "v \<in> set ?sent" "(i, cfg) = replayed ?s1 a v"
      by (auto simp: flight)
    then show "sends i ?t = (if cf_retry cfg then 2 else 1)"
    proof cases
      case 1
      then have "i \<notin> fst ` set (waiting_all s)" using facts(2) by force
      with 1 inv(3) show ?thesis by (auto simp: sends keep sends_bounded_def simp del: map_append)
    next
      case 2
      then have v: "v \<in> set (waiting_all s)" by (auto simp: wa split: if_splits)
      from 2(2) have "i = fst v" "cf_retry cfg"
        using replayed_simps(3) [of ?s1 a v] marked [OF v] by (auto simp: replayed_def)
      with 2 v show ?thesis by (simp add: sends was one del: map_append)
    qed
  qed
  moreover have "\<forall>(i, r)\<in>set (settled ?t). sends i ?t \<le> 2"
  proof (clarify)
    fix i r assume "(i, r) \<in> set (settled ?t)"
    then consider "(i, r) \<in> set (settled s)" | v where "v \<in> set (waiting_all s)" "i = fst v"
      by (auto simp: settled rejected_def wa split: if_splits)
    then show "sends i ?t \<le> 2"
    proof cases
      case 1
      then have "i \<notin> fst ` set (waiting_all s)" using facts(3) by force
      with 1 inv(3) show ?thesis by (auto simp: sends keep sends_bounded_def simp del: map_append)
    next
      case 2
      with le1 [of v] was [of v] show ?thesis by (simp add: sends)
    qed
  qed
  moreover have "\<forall>i \<ge> next_id ?t. sends i ?t = 0"
  proof (intro allI impI)
    fix i assume "next_id ?t \<le> i"
    then have i: "next_id s \<le> i" by (simp add: on_refresh_ok_eq Let_def split: if_splits)
    then have "i \<notin> fst ` set (waiting_all s)" using facts(4) by force
    with i inv(3) show "sends i ?t = 0" by (auto simp: sends keep sends_bounded_def simp del: map_append)
  qed
  moreover have "waiting_all ?t = []"
    by (simp add: on_refresh_ok_eq Let_def waiting_defs)
  ultimately show ?thesis by (simp add: sends_bounded_def)
qed

lemma sends_bounded_network:
  assumes "network_step s t" "client_inv s"
  shows "sends_bounded t"
proof -
  from assms(2) have inv: "conserved s" "queue_guarded s" "sends_bounded s"
    by (simp_all add: client_inv_def)
  show ?thesis
    using assms(1)
  proof (cases rule: network_step.cases)
    case (ns_ok i cfg)
    have "sends j t = sends j s" for j
      by (simp add: ns_ok sends_def on_response_def settle_def answered_def)
    with inv(3) ns_ok show ?thesis
      by (auto simp: sends_bounded_def on_response_def settle_def answered_def waiting_defs
          dest: notin_set_remove1 split: if_splits)
  next
    case (ns_error i cfg err)
    have s: "sends j t = sends j s" for j
      by (simp add: ns_error sends_def on_response_error_def settle_def answered_def Let_def)
    from inv(3) ns_error(2) have i: "sends i s = (if cf_retry cfg then 2 else 1)"
      by (auto simp: sends_bounded_def)
    show ?thesis
      using inv(3) ns_error i unfolding sends_bounded_def s
      by (auto simp: on_response_error_def settle_def answered_def waiting_defs Let_def
          dest: notin_set_remove1 split: if_splits option.splits)
  next
    case (ns_refreshed w a)
    with inv show ?thesis by (auto intro: sends_bounded_refreshed)
  next
    case (ns_refresh_failed w)
    have s: "sends j t = sends j s" for j
      by (simp add: ns_refresh_failed sends_def on_refresh_error_eq)
    show ?thesis
      using inv(3) ns_refresh_failed unfolding sends_bounded_def s
      by (auto simp: on_refresh_error_eq waiting_defs rejected_def)
  qed
qed

lemma client_inv_network: "client_inv s \<Longrightarrow> network_step s t \<Longrightarrow> client_inv t"
  using conserved_network queue_guarded_network sends_bounded_network
  by (auto simp: client_inv_def)

lemma client_inv_issue:
  assumes "client_inv s"
  shows "client_inv (issue c s)"
proof -
  let ?t = "issue c s"
  define e where "e = sent_event (next_id s, request_interceptor (active_cluster s)
    (as_token (auth s)) (call_config c))"
  have es: "sends j ?t = sends j s + (if j = next_id s then 1 else 0)" for j
    by (simp add: sends_def issue_def send_def Let_def)
  have t: "in_flight ?t = in_flight s @ [(next_id s, snd (next_id s, request_interceptor
      (active_cluster s) (as_token (auth s)) (call_config c)))]"
    "waiting_all ?t = waiting_all s" "settled ?t = settled s" "next_id ?t = Suc (next_id s)"
    "is_refreshing ?t = is_refreshing s" "refresher ?t = refresher s"
    "pending_queue ?t = pending_queue s"
    by (simp_all add: issue_def send_def Let_def waiting_defs)
  from assms have inv: "conserved s" "queue_guarded s" "sends_bounded s"
    by (simp_all add: client_inv_def)
  have "conserved ?t"
    using inv(1) by (simp add: conserved_def all_ids_def t)
  moreover have "queue_guarded ?t"
    using inv(2) by (auto simp: queue_guarded_def t)
  moreover have "sends_bounded ?t"
  proof -
    have fresh: "next_id s \<notin> fst ` set (in_flight s)" "next_id s \<notin> fst ` set (waiting_all s)"
      "next_id s \<notin> fst ` set (settled s)"
      using conserved_set [OF inv(1)] by (auto simp: all_ids_def)
    have "\<forall>(i, cfg)\<in>set (in_flight ?t). sends i ?t = (if cf_retry cfg then 2 else 1)"
      using inv(3) fresh(1) by (force simp: sends_bounded_def t es call_config_def)
    moreover have "\<forall>w\<in>set (waiting_all ?t). sends (fst w) ?t = 1"
      using inv(3) fresh(2) by (force simp: sends_bounded_def t es)
    moreover have "\<forall>(i, r)\<in>set (settled ?t). sends i ?t \<le> 2"
      using inv(3) fresh(3) by (force simp: sends_bounded_def t es)
    moreover have "\<forall>i \<ge> next_id ?t. sends i ?t = 0"
      using inv(3) by (simp add: sends_bounded_def t es)
    ultimately show ?thesis by (simp add: sends_bounded_def)
  qed
  ultimately show ?thesis by (simp add: client_inv_def)
qed

lemma client_inv_stores:
  "client_inv (s\<lparr>auth := a\<rparr>) = client_inv s" "client_inv (s\<lparr>active_cluster := c\<rparr>) = client_inv s"
  by (simp_all add: client_inv_def conserved_def queue_guarded_def sends_bounded_def all_ids_def
      waiting_defs sends_def)

interpretation client: safety client_step client_inv
  by unfold_locales
    (auto elim!: client_stepE intro: client_inv_network client_inv_issue simp: client_inv_stores)

text \<open>The network answers left before every call is settled: an unmarked call may come back four
  more times counting the refresh of its token, a marked one once.\<close>

definition pending_work :: "client_state \<Rightarrow> nat" where
  "pending_work s = (\<Sum>p\<leftarrow>in_flight s. if cf_retry (snd p) then 1 else 4) +
     3 * length (waiting_all s)"

lemma sum_list_remove1:
  "x \<in> set xs \<Longrightarrow> sum_list (map f (remove1 x xs)) + f x = sum_list (map (f :: 'a \<Rightarrow> nat) xs)"
  by (induction xs) auto

lemma sum_list_ones: "\<forall>x\<in>set xs. f x = 1 \<Longrightarrow> sum_list (map f xs) = length xs"
  by (induction xs) auto

lemma replayed_work:
  "\<forall>w\<in>set q. cf_retry (fst (snd w)) \<Longrightarrow>
   (\<Sum>p\<leftarrow>map (replayed s t) q. if cf_retry (snd p) then 1 else (4 :: nat)) = length q"
  by (simp add: sum_list_ones o_def)

lemma pending_work_step: "client_inv s \<Longrightarrow> network_step s t \<Longrightarrow> pending_work t < pending_work s"
proof -
  assume inv: "client_inv s" and step: "network_step s t"
  let ?f = "\<lambda>p. if cf_retry (snd p) then 1 else (4 :: nat)"
  have marked: "\<forall>w\<in>set (waiting_all s). cf_retry (fst (snd w))"
    using inv by (simp add: client_inv_def queue_guarded_def)
  from step show ?thesis
  proof (cases rule: network_step.cases)
    case (ns_ok i cfg)
    with sum_list_remove1 [OF ns_ok(2), of ?f] show ?thesis
      by (auto simp: pending_work_def on_response_def settle_def answered_def waiting_defs
          split: if_splits)
  next
    case (ns_error i cfg err)
    with sum_list_remove1 [OF ns_error(2), of ?f] inv show ?thesis
      by (auto simp: pending_work_def on_response_error_def settle_def answered_def waiting_defs
          Let_def client_inv_def queue_guarded_def split: if_splits option.splits)
  next
    case (ns_refreshed w a)
    with marked have "\<forall>v\<in>set (pending_queue s). cf_retry (fst (snd v))" "cf_retry (fst (snd w))"
      by (simp_all add: waiting_defs)
    then show ?thesis
      using ns_refreshed replayed_work [of "pending_queue s"]
      by (auto simp: pending_work_def on_refresh_ok_eq Let_def waiting_defs)
  next
    case (ns_refresh_failed w)
    then show ?thesis
      by (simp add: pending_work_def on_refresh_error_eq waiting_defs)
  qed
qed

interpretation network: bounded network_step client_inv pending_work
  by unfold_locales (auto intro: client_inv_network pending_work_step)

lemma quiet_settled:
  assumes "client_inv s" "\<not> Ex (network_step s)"
  shows "in_flight s = []" "pending_queue s = []" "refresher s = None"
    "mset (map fst (settled s)) = mset [0..<next_id s]"
proof -
  show f: "in_flight s = []"
  proof (rule ccontr)
    assume "in_flight s \<noteq> []"
    then obtain i cfg where "(i, cfg) \<in> set (in_flight s)"
      by (metis list.set_intros(1) neq_Nil_conv surj_pair)
    with assms(2) show False by (blast intro: ns_ok)
  qed
  show r: "refresher s = None"
    using assms(2) by (meson ns_refreshed not_None_eq)
  with assms(1) show q: "pending_queue s = []"
    by (auto simp: client_inv_def queue_guarded_def)
  with f r assms(1) show "mset (map fst (settled s)) = mset [0..<next_id s]"
    by (simp add: client_inv_def conserved_def all_ids_def waiting_defs)
qed

lemma network_next_id: "network_step s t \<Longrightarrow> next_id t = next_id s"
  by (auto elim!: network_stepE simp: on_response_def on_response_error_def settle_def answered_def
      on_refresh_ok_eq on_refresh_error_eq Let_def)

lemma network_steps_next_id: "network_step\<^sup>*\<^sup>* s t \<Longrightarrow> next_id t = next_id s"
  by (induction rule: rtranclp_induct) (auto simp: network_next_id)

lemma reach_inv: "client_step\<^sup>*\<^sup>* (client_init a c) s \<Longrightarrow> client_inv s"
  using client.steps_inv conserved_init by blast

lemma pending_work_le: "pending_work s \<le> 4 * (length (in_flight s) + length (waiting_all s))"
proof -
  have "(\<Sum>p\<leftarrow>xs. if cf_retry (snd p) then 1 else (4 :: nat)) \<le> 4 * length xs"
    for xs :: "(nat \<times> config) list"
    by (induction xs) auto
  from this [of "in_flight s"] show ?thesis by (simp add: pending_work_def)
qed

lemma issue_reach: "client_step\<^sup>*\<^sup>* s (issue c s)"
  by (rule r_into_rtranclp, rule cs_issue)

lemma network_reach: "client_step\<^sup>*\<^sup>* i s \<Longrightarrow> network_step s t \<Longrightarrow> client_step\<^sup>*\<^sup>* i t"
  by (erule rtranclp.rtrancl_into_rtrancl) (rule cs_network)

section \<open>Properties\<close>

text \<open>C1. No call is lost or answered twice: in every state the client can reach, with any
  interleaving of calls, answers, sign-ins and cluster changes, each call made so far is exactly
  one of in flight, queued behind the token refresh, waiting on it, or settled; and nothing is
  queued unless a refresh is under way that will drain the queue.\<close>

theorem client_calls_conserved:
  assumes "client_step\<^sup>*\<^sup>* (client_init a c) s"
  shows "distinct (all_ids s) \<and> set (all_ids s) = {..<next_id s} \<and>
    (pending_queue s = [] \<or> (is_refreshing s \<and> refresher s \<noteq> None))"
  using reach_inv [OF assms] conserved_distinct [of s] conserved_set [of s]
  by (auto simp: client_inv_def queue_guarded_def)

theorem client_calls_conserved_witness:
  "set (all_ids (issue HealthCheck (client_init auth_init ''local''))) = {0}"
proof -
  let ?s = "issue HealthCheck (client_init auth_init ''local'')"
  have "client_step\<^sup>*\<^sup>* (client_init auth_init ''local'') ?s"
    by (rule issue_reach)
  from client_calls_conserved [OF this] show ?thesis
    by (auto simp: issue_def send_def client_init_def Let_def)
qed

text \<open>C8. Every call is settled: from every reachable state, however the network answers, there
  are at most four answers per open call, an answer is always possible until all of them came,
  and then each call made has been settled exactly once.\<close>

theorem client_calls_settle:
  assumes "client_step\<^sup>*\<^sup>* (client_init a c) s"
  shows "(\<forall>n t. (network_step ^^ n) s t \<longrightarrow>
            n \<le> 4 * (length (in_flight s) + length (waiting_all s))) \<and>
    (\<exists>t. network_step\<^sup>*\<^sup>* s t \<and> \<not> Ex (network_step t)) \<and>
    (\<forall>t. network_step\<^sup>*\<^sup>* s t \<and> \<not> Ex (network_step t) \<longrightarrow>
       mset (map fst (settled t)) = mset [0..<next_id s])"
proof (intro conjI allI impI)
  note inv = reach_inv [OF assms]
  show "n \<le> 4 * (length (in_flight s) + length (waiting_all s))" if "(network_step ^^ n) s t" for n t
    using network.run_length [OF that inv] pending_work_le [of s] by linarith
  show "\<exists>t. network_step\<^sup>*\<^sup>* s t \<and> \<not> Ex (network_step t)"
    by (rule network.reaches_end [OF inv])
  show "mset (map fst (settled t)) = mset [0..<next_id s]"
    if "network_step\<^sup>*\<^sup>* s t \<and> \<not> Ex (network_step t)" for t
    using quiet_settled(4) [of t] network.steps_inv [of s t] network_steps_next_id [of s t] inv that
    by simp
qed

theorem client_calls_settle_witness:
  "\<exists>t. network_step\<^sup>*\<^sup>* (issue HealthCheck (client_init auth_init ''local'')) t \<and>
     mset (map fst (settled t)) = {#0#}"
proof -
  let ?s = "issue HealthCheck (client_init auth_init ''local'')"
  have reach: "client_step\<^sup>*\<^sup>* (client_init auth_init ''local'') ?s"
    by (rule issue_reach)
  have n: "next_id ?s = 1" by (simp add: issue_def send_def client_init_def Let_def)
  from client_calls_settle [OF reach] n show ?thesis by auto
qed

text \<open>C40. A call goes over the network at most twice, and the second time only as a marked replay:
  an endpoint that keeps answering 401 cannot make the client loop.\<close>

theorem client_sends_at_most_twice:
  assumes "client_step\<^sup>*\<^sup>* (client_init a c) s"
  shows "sends i s \<le> 2 \<and> ((i, cfg) \<in> set (in_flight s) \<longrightarrow> (sends i s = 2 \<longleftrightarrow> cf_retry cfg))"
proof -
  have inv: "client_inv s" by (rule reach_inv [OF assms])
  then have b: "sends_bounded s" and c: "conserved s" by (simp_all add: client_inv_def)
  have "sends i s \<le> 2"
  proof (cases "i < next_id s")
    case True
    then have "i \<in> set (all_ids s)" using conserved_set [OF c] by simp
    then show ?thesis
      using b by (force simp: sends_bounded_def all_ids_def split: if_splits)
  qed (use b in \<open>simp add: sends_bounded_def\<close>)
  with b show ?thesis by (auto simp: sends_bounded_def split: if_splits)
qed

theorem client_sends_at_most_twice_witness:
  "sends 0 (issue HealthCheck (client_init auth_init ''local'')) \<le> 2"
  using client_sends_at_most_twice [OF issue_reach] by blast

text \<open>C29. A failed refresh ends the session: the user and the token are gone, the query cache is
  cleared and the login page opened, every call that waited is rejected with its own error, in
  order, none is replayed, and the next 401 may refresh again.\<close>

theorem failed_refresh_ends_session:
  "let t = on_refresh_error w s in
     as_user (auth t) = None \<and> as_token (auth t) = None \<and>
     client_events t = client_events s @ [CacheCleared, LoginRedirect] \<and>
     settled t = settled s @ map rejected (pending_queue s @ [w]) \<and>
     in_flight t = in_flight s \<and> pending_queue t = [] \<and> \<not> is_refreshing t \<and> refresher t = None"
  by (simp add: on_refresh_error_eq Let_def)

text \<open>C28. A successful refresh replays every waiting call exactly once, the queue first and in
  order, each marked and with the new token, and rejects none; the store holds the new token and
  the user keeps the roles it had.\<close>

theorem refresh_replays_queue:
  assumes "truthy token" "client_step\<^sup>*\<^sup>* (client_init a c) s" "refresher s = Some w"
  shows "let t = on_refresh_ok token w s; q = pending_queue s @ [w];
             new = drop (length (in_flight s)) (in_flight t) in
     take (length (in_flight s)) (in_flight t) = in_flight s \<and> map fst new = map fst q \<and>
     (\<forall>(i, cfg)\<in>set new. cf_authorization cfg = Some (bearer token) \<and> cf_retry cfg) \<and>
     settled t = settled s \<and> as_token (auth t) = Some token \<and> as_user (auth t) = as_user (auth s) \<and>
     pending_queue t = [] \<and> \<not> is_refreshing t"
proof -
  have "\<forall>v\<in>set (pending_queue s @ [w]). cf_retry (fst (snd v))"
    using reach_inv [OF assms(2)] assms(3) by (auto simp: client_inv_def queue_guarded_def waiting_defs)
  with assms(1) show ?thesis
    by (auto simp: on_refresh_ok_eq Let_def replayed_def request_interceptor_def set_access_token_def)
qed

definition err401 :: axios_error where
  "err401 = \<lparr>x_message = ''m'', x_response = Some \<lparr>r_status = 401, r_data = JNull\<rparr>\<rparr>"

definition cfg0 :: config where
  "cfg0 = call_config (Users US_list)"

lemma reach_refreshing:
  "\<exists>s. client_step\<^sup>*\<^sup>* (client_init auth_init ''local'') s \<and>
     refresher s = Some (0, cfg0\<lparr>cf_retry := True\<rparr>, err401) \<and> pending_queue s = [] \<and> in_flight s = []"
proof -
  let ?i = "client_init auth_init ''local''"
  let ?s = "issue (Users US_list) ?i"
  have fl: "in_flight ?s = [(0, cfg0)]"
    by (simp add: issue_def send_def client_init_def Let_def request_interceptor_def auth_init_def cfg0_def)
  have st: "\<not> is_refreshing ?s" "pending_queue ?s = []"
    by (simp_all add: issue_def send_def client_init_def Let_def)
  let ?t = "on_response_error 0 cfg0 err401 ?s"
  have "network_step ?s ?t" by (rule ns_error) (simp add: fl)
  then have "client_step\<^sup>*\<^sup>* ?i ?t"
    by (rule network_reach [OF issue_reach])
  moreover have "refresher ?t = Some (0, cfg0\<lparr>cf_retry := True\<rparr>, err401)" "pending_queue ?t = []"
    "in_flight ?t = []"
    using fl st by (simp_all add: on_response_error_def answered_def Let_def error_status_def err401_def
        cfg0_def call_config_def)
  ultimately show ?thesis by blast
qed

theorem refresh_replays_queue_witness:
  "\<exists>s w. refresher s = Some w \<and> as_token (auth (on_refresh_ok ''t'' w s)) = Some ''t'' \<and>
     map fst (in_flight (on_refresh_ok ''t'' w s)) = [0]"
proof -
  obtain s where s: "client_step\<^sup>*\<^sup>* (client_init auth_init ''local'') s"
    "refresher s = Some (0, cfg0\<lparr>cf_retry := True\<rparr>, err401)" "pending_queue s = []" "in_flight s = []"
    using reach_refreshing by blast
  let ?w = "(0 :: nat, cfg0\<lparr>cf_retry := True\<rparr>, err401)"
  have "as_token (auth (on_refresh_ok ''t'' ?w s)) = Some ''t'' \<and>
     map fst (in_flight (on_refresh_ok ''t'' ?w s)) = [0]"
    using refresh_replays_queue [OF _ s(1,2), of "''t''"] s(3,4) by (simp add: Let_def truthy_def)
  with s(2) show ?thesis by (intro exI [of _ s] exI [of _ ?w]) simp
qed

text \<open>The request interceptor only adds: the active cluster goes into the parameters unless
  it is the local one (the backend's default), the token into the authorization header, and
  method, path, body, the retry mark and every other parameter stay as the caller set them.\<close>

theorem request_interceptor_adds:
  "let r = cf_request cfg; r' = cf_request (request_interceptor cluster token cfg) in
     rq_method r' = rq_method r \<and> rq_path r' = rq_path r \<and> rq_body r' = rq_body r \<and>
     rq_response r' = rq_response r \<and>
     map_of (rq_params r') = (if cluster = [] \<or> cluster = ''local'' then map_of (rq_params r)
        else (map_of (rq_params r))(''cluster'' \<mapsto> JStr cluster)) \<and>
     cf_retry (request_interceptor cluster token cfg) = cf_retry cfg \<and>
     cf_authorization (request_interceptor cluster token cfg) =
       (case token of None \<Rightarrow> cf_authorization cfg
        | Some t \<Rightarrow> if t = [] then cf_authorization cfg else Some (bearer t))"
  by (auto simp: request_interceptor_def Let_def truthy_def map_of_obj_set split: option.splits)

text \<open>A replay goes to the cluster that is active when the refresh ends, whatever cluster the
  call was made for: the cluster parameter is overwritten by the interceptor on the way out.\<close>

theorem replay_uses_active_cluster:
  assumes "refresher s = Some w" "active_cluster s \<noteq> []" "active_cluster s \<noteq> ''local''"
  shows "\<exists>cfg. (fst w, cfg) \<in> set (in_flight (on_refresh_ok token w s)) \<and>
     rq_path (cf_request cfg) = rq_path (cf_request (fst (snd w))) \<and>
     map_of (rq_params (cf_request cfg)) ''cluster'' = Some (JStr (active_cluster s))"
proof -
  let ?s1 = "s\<lparr>auth := set_access_token token (auth s)\<rparr>"
  let ?cfg = "snd (replayed ?s1 token w)"
  have "(fst w, ?cfg) \<in> set (in_flight (on_refresh_ok token w s))"
    by (auto simp: on_refresh_ok_eq Let_def replayed_def)
  moreover have "rq_path (cf_request ?cfg) = rq_path (cf_request (fst (snd w)))"
    "map_of (rq_params (cf_request ?cfg)) ''cluster'' = Some (JStr (active_cluster s))"
    using assms(2,3)
    by (auto simp: replayed_def request_interceptor_def Let_def truthy_def map_of_obj_set
        split: option.splits)
  ultimately show ?thesis by blast
qed

text \<open>The witness is a run of the client: a user is deleted while \<open>prod\<close> is active, the token has
  expired, the user switches to \<open>test\<close> while the refresh is under way, and the deletion is sent
  to \<open>test\<close>.\<close>

definition delete_bob :: api_call where
  "delete_bob = Users (US_delete ''bob'' Certificate None)"

theorem replay_uses_active_cluster_witness:
  "\<exists>s cfg1 cfg2. client_step\<^sup>*\<^sup>* (client_init auth_init ''prod'') s \<and>
     Sent 0 cfg1 \<in> set (client_events s) \<and> (0, cfg2) \<in> set (in_flight s) \<and>
     map_of (rq_params (cf_request cfg1)) ''cluster'' = Some (JStr ''prod'') \<and>
     map_of (rq_params (cf_request cfg2)) ''cluster'' = Some (JStr ''test'') \<and>
     rq_path (cf_request cfg1) = rq_path (cf_request cfg2)"
proof -
  let ?i = "client_init auth_init ''prod''"
  let ?s1 = "issue delete_bob ?i"
  let ?c1 = "request_interceptor ''prod'' None (call_config delete_bob)"
  have s1: "in_flight ?s1 = [(0, ?c1)]" "\<not> is_refreshing ?s1" "client_events ?s1 = [Sent 0 ?c1]"
    by (simp_all add: issue_def send_def client_init_def Let_def auth_init_def)
  let ?s2 = "on_response_error 0 ?c1 err401 ?s1"
  let ?w = "(0 :: nat, ?c1\<lparr>cf_retry := True\<rparr>, err401)"
  have s2: "refresher ?s2 = Some ?w" "client_events ?s2 = [Sent 0 ?c1, RefreshPosted]"
    using s1 by (simp_all add: on_response_error_def answered_def Let_def error_status_def err401_def
        call_config_def)
  let ?s3 = "?s2\<lparr>active_cluster := ''test''\<rparr>"
  have s3: "refresher ?s3 = Some ?w" using s2 by simp
  let ?s4 = "on_refresh_ok ''t'' ?w ?s3"
  have st2: "network_step ?s1 ?s2" by (rule ns_error) (simp add: s1)
  have st4: "network_step ?s3 ?s4" by (rule ns_refreshed) (rule s3)
  have "client_step\<^sup>*\<^sup>* ?i ?s2" by (rule network_reach [OF issue_reach st2])
  then have "client_step\<^sup>*\<^sup>* ?i ?s3" by (rule rtranclp.rtrancl_into_rtrancl) (rule cs_cluster)
  then have "client_step\<^sup>*\<^sup>* ?i ?s4" by (rule network_reach) (rule st4)
  moreover have "Sent 0 ?c1 \<in> set (client_events ?s4)"
    using s2 by (simp add: on_refresh_ok_eq Let_def)
  moreover have "map_of (rq_params (cf_request ?c1)) ''cluster'' = Some (JStr ''prod'')"
    by (simp add: request_interceptor_def map_of_obj_set)
  moreover have "rq_path (cf_request ?c1) = rq_path (cf_request (fst (snd ?w)))" by simp
  moreover obtain cfg where "(0, cfg) \<in> set (in_flight ?s4)"
    "rq_path (cf_request cfg) = rq_path (cf_request (fst (snd ?w)))"
    "map_of (rq_params (cf_request cfg)) ''cluster'' = Some (JStr ''test'')"
    using replay_uses_active_cluster [OF s3, of "''t''"] by auto
  ultimately show ?thesis by metis
qed

end
