(* ===== verification/Hooks.thy ===== *)
theory Hooks
  imports Client "HOL-Library.Sublist"
begin

text \<open>
  The React Query hooks of \<^verbatim>\<open>frontend/src/hooks\<close>: for each module a datatype with a
  constructor per hook and a function that gives, for the active cluster at render time, the
  query (key, call, enabled) or the mutation (call, effects of success and of failure) the hook
  registers. A hook that takes an \<open>onSuccess\<close> callback runs it as the last effect (\<open>CallBack\<close>).
  What the query library does with a key is the parameter \<open>matches\<close> of the properties.
\<close>

section \<open>Queries and mutations\<close>

type_synonym query_key = "jsval list"

datatype query_option = RefetchEvery nat | NoRetry | KeepPreviousData | SelectItems

record query_hook =
  qh_key :: query_key
  qh_call :: api_call
  qh_enabled :: bool
  qh_stale :: "nat option"
  qh_options :: "query_option list"

datatype hook_effect =
  Invalidate query_key | ToastSuccess string | ToastError string | Download string
| SetActiveCluster string | CallBack

record mutation_hook =
  mh_call :: api_call
  mh_success :: "hook_effect list"
  mh_error :: "string \<Rightarrow> hook_effect list"

datatype hook = Query query_hook | Mutation mutation_hook

abbreviation on_error_toast :: "string \<Rightarrow> hook_effect list" where
  "on_error_toast message \<equiv> [ToastError message]"

definition query ::
  "query_key \<Rightarrow> api_call \<Rightarrow> bool \<Rightarrow> nat option \<Rightarrow> query_option list \<Rightarrow> hook"
where
  "query k c en st opts =
     Query \<lparr>qh_key = k, qh_call = c, qh_enabled = en, qh_stale = st, qh_options = opts\<rparr>"

definition mutation :: "api_call \<Rightarrow> hook_effect list \<Rightarrow> hook" where
  "mutation c fs = Mutation \<lparr>mh_call = c, mh_success = fs, mh_error = on_error_toast\<rparr>"

section \<open>hooks/useAccessRequests.ts\<close>

datatype access_requests_hook =
  UseAccessRequests | UseCreateAccessRequest access_request_create_payload
| UseApproveAccessRequest string | UseDenyAccessRequest string | UseRevokeAccessRequest string
| UseJitPolicies | UseSetJitPolicy string string jit_role_policy_set_payload
| UseExportAccessRequests access_request_export_query | UseDeleteJitPolicy string string

fun access_requests_hooks :: "string \<Rightarrow> access_requests_hook \<Rightarrow> hook" where
  "access_requests_hooks cluster UseAccessRequests =
     query [JStr ''access-requests'', JStr cluster] (AccessRequests AR_list) True (Some 15000) [RefetchEvery 30000]"
| "access_requests_hooks cluster (UseCreateAccessRequest payload) =
     mutation (AccessRequests (AR_create payload))
       [Invalidate [JStr ''access-requests'', JStr cluster],
        ToastSuccess ''Access request submitted'', CallBack]"
| "access_requests_hooks cluster (UseApproveAccessRequest i) =
     mutation (AccessRequests (AR_approve i))
       [Invalidate [JStr ''access-requests'', JStr cluster], ToastSuccess ''Access granted'']"
| "access_requests_hooks cluster (UseDenyAccessRequest i) =
     mutation (AccessRequests (AR_deny i))
       [Invalidate [JStr ''access-requests'', JStr cluster], ToastSuccess ''Request denied'']"
| "access_requests_hooks cluster (UseRevokeAccessRequest i) =
     mutation (AccessRequests (AR_revoke i))
       [Invalidate [JStr ''access-requests'', JStr cluster], ToastSuccess ''Access revoked'']"
| "access_requests_hooks cluster UseJitPolicies =
     query [JStr ''jit-policies''] (AccessRequests AR_listPolicies) True (Some 15000) []"
| "access_requests_hooks cluster (UseSetJitPolicy roleKind roleName payload) =
     mutation (AccessRequests (AR_setPolicy roleKind roleName payload))
       [Invalidate [JStr ''jit-policies''], ToastSuccess ''Policy saved'']"
| "access_requests_hooks cluster (UseExportAccessRequests q) =
     mutation (AccessRequests (AR_export q)) [Download ''clustervision-access-requests.csv'']"
| "access_requests_hooks cluster (UseDeleteJitPolicy roleKind roleName) =
     mutation (AccessRequests (AR_deletePolicy roleKind roleName))
       [Invalidate [JStr ''jit-policies''], ToastSuccess ''Policy override removed'']"

section \<open>hooks/useAudit.ts, useBackendHealth.ts\<close>

datatype audit_hook = UseAuditLog audit_log_query bool | UseExportAuditLog audit_log_export_query

definition audit_query_json :: "audit_log_query \<Rightarrow> jsval" where
  "audit_query_json q = JObj
     [(''limit'', JNum (int (al_limit q))), (''offset'', JNum (int (al_offset q))),
      (''actor'', JOpt (al_actor q)), (''path_contains'', JOpt (al_path_contains q))]"

fun audit_hooks :: "audit_hook \<Rightarrow> hook" where
  "audit_hooks (UseAuditLog q on) =
     query [JStr ''audit-log'', audit_query_json q] (Audit (AU_list q)) on (Some 15000) [KeepPreviousData]"
| "audit_hooks (UseExportAuditLog q) =
     mutation (Audit (AU_export q)) [Download ''clustervision-audit-log.csv'']"

definition backend_health_hook :: hook where
  "backend_health_hook = query [JStr ''backend-health''] HealthCheck True (Some 60000) [NoRetry]"

section \<open>hooks/useCluster.ts\<close>

datatype cluster_hook =
  UseClusterInfo | UseClusters | UseAddCluster add_cluster_payload | UseRemoveCluster string

fun cluster_hooks :: "string \<Rightarrow> cluster_hook \<Rightarrow> hook" where
  "cluster_hooks cluster UseClusterInfo =
     query [JStr ''cluster-info'', JStr cluster] (ClusterApi CL_info) True (Some 60000) [NoRetry]"
| "cluster_hooks cluster UseClusters =
     query [JStr ''clusters''] (ClusterApi CL_list) True (Some 30000) []"
| "cluster_hooks cluster (UseAddCluster payload) =
     mutation (ClusterApi (CL_add payload))
       [Invalidate [JStr ''clusters''], ToastSuccess ''Cluster added'', CallBack]"
| "cluster_hooks cluster (UseRemoveCluster name) =
     mutation (ClusterApi (CL_remove name))
       ([Invalidate [JStr ''clusters'']] @
        (if cluster = name then [SetActiveCluster ''local''] else []) @
        [ToastSuccess ''Cluster removed''])"

section \<open>hooks/useKubeconfig.ts\<close>

definition generate_kubeconfig_hook :: "kubeconfig_payload \<Rightarrow> hook" where
  "generate_kubeconfig_hook opts = mutation (Kubeconfig opts) []"

definition kubeconfig_filename :: "string \<Rightarrow> string" where
  "kubeconfig_filename username = username @ ''-kubeconfig.yaml''"

section \<open>hooks/useLink.ts\<close>

text \<open>A \<open>null\<close> user name in a path template prints as \<open>null\<close>.\<close>

definition name_or_null :: "string option \<Rightarrow> string" where
  "name_or_null username = (case username of Some u \<Rightarrow> u | None \<Rightarrow> ''null'')"

datatype link_hook = UseMyLink | UseSetLink "string option" string string | UseClearLink "string option"

fun link_hooks :: "link_hook \<Rightarrow> hook" where
  "link_hooks UseMyLink = query [JStr ''my-link''] MyLink True (Some 30000) []"
| "link_hooks (UseSetLink username name namespace) =
     mutation (AdminApi (AD_setLink (name_or_null username) name namespace))
       [Invalidate [JStr ''cv-users''], Invalidate [JStr ''my-link''], ToastSuccess ''Identity linked'']"
| "link_hooks (UseClearLink username) =
     mutation (AdminApi (AD_clearLink (name_or_null username)))
       [Invalidate [JStr ''cv-users''], Invalidate [JStr ''my-link''], ToastSuccess ''Identity unlinked'']"

section \<open>hooks/usePermissions.ts\<close>

datatype permissions_hook =
  UseScopes | UseUserRoles "string option" | UseSetUserRole "string option" string role
| UseDeleteUserRole "string option" string

definition JNullable :: "string option \<Rightarrow> jsval" where
  "JNullable s = (case s of Some t \<Rightarrow> JStr t | None \<Rightarrow> JNull)"

fun permissions_hooks :: "permissions_hook \<Rightarrow> hook" where
  "permissions_hooks UseScopes =
     query [JStr ''permission-scopes''] (Permissions PE_listScopes) True (Some 30000) []"
| "permissions_hooks (UseUserRoles username) =
     query [JStr ''user-roles'', JNullable username]
       (Permissions (PE_listUserRoles (name_or_null username)))
       (case username of Some u \<Rightarrow> truthy u | None \<Rightarrow> False) None []"
| "permissions_hooks (UseSetUserRole username scope role) =
     mutation (Permissions (PE_setUserRole (name_or_null username) scope role))
       [Invalidate [JStr ''user-roles'', JNullable username], Invalidate [JStr ''cv-users''],
        ToastSuccess ''Role saved'']"
| "permissions_hooks (UseDeleteUserRole username scope) =
     mutation (Permissions (PE_deleteUserRole (name_or_null username) scope))
       [Invalidate [JStr ''user-roles'', JNullable username], Invalidate [JStr ''cv-users''],
        ToastSuccess ''Role removed'']"

section \<open>hooks/useRbac.ts\<close>

text \<open>The first page of 500 roles; \<open>select\<close> takes the \<open>items\<close> of the answer.\<close>

datatype rbac_query =
  UseClusterRoles bool bool | UseRoles string | UseUserPermissions string | UseNamespaces
| UseNamespaceAccess string

fun rbac_queries :: "string \<Rightarrow> rbac_query \<Rightarrow> hook" where
  "rbac_queries cluster (UseClusterRoles includeSystem on) =
     query [JStr ''cluster-roles'', JStr cluster, JBool includeSystem]
       (Rbac (RB_listClusterRoles includeSystem 500 None)) on (Some 60000) [SelectItems]"
| "rbac_queries cluster (UseRoles namespace) =
     query [JStr ''roles'', JStr cluster, JStr namespace]
       (Rbac (RB_listRoles namespace 500 None)) (truthy namespace) (Some 60000) [SelectItems]"
| "rbac_queries cluster (UseUserPermissions username) =
     query [JStr ''user-permissions'', JStr cluster, JStr username]
       (Rbac (RB_getUserPermissions username)) (truthy username) (Some 120000) []"
| "rbac_queries cluster UseNamespaces =
     query [JStr ''namespaces'', JStr cluster] (Rbac RB_listNamespaces) True (Some 120000) []"
| "rbac_queries cluster (UseNamespaceAccess namespace) =
     query [JStr ''namespace-access'', JStr cluster, JStr namespace]
       (Rbac (RB_getNamespaceAccess namespace)) (truthy namespace) (Some 120000) []"

datatype rbac_mutation =
  UseCheckAccess check_access_request
| UseCreateClusterRole string "policy_rule list" | UseUpdateClusterRole string "policy_rule list"
| UseDeleteClusterRole string | UseCreateRole string string "policy_rule list"
| UseUpdateRole string string "policy_rule list" | UseDeleteRole string string
| UseAssignRole string assign_role_payload "string option" "string option"
| UseRevokeRole string string "string option"

fun rbac_mutations :: "string \<Rightarrow> rbac_mutation \<Rightarrow> hook" where
  "rbac_mutations cluster (UseCheckAccess r) =
     Mutation \<lparr>mh_call = Rbac (RB_checkAccess r), mh_success = [], mh_error = (\<lambda>_. [])\<rparr>"
| "rbac_mutations cluster (UseCreateClusterRole name rules) =
     mutation (Rbac (RB_createClusterRole name rules))
       [Invalidate [JStr ''cluster-roles'', JStr cluster], ToastSuccess ''ClusterRole created'', CallBack]"
| "rbac_mutations cluster (UseUpdateClusterRole name rules) =
     mutation (Rbac (RB_updateClusterRole name rules))
       [Invalidate [JStr ''cluster-roles'', JStr cluster], ToastSuccess ''ClusterRole updated'', CallBack]"
| "rbac_mutations cluster (UseDeleteClusterRole name) =
     mutation (Rbac (RB_deleteClusterRole name))
       [Invalidate [JStr ''cluster-roles'', JStr cluster], ToastSuccess ''ClusterRole deleted'']"
| "rbac_mutations cluster (UseCreateRole namespace name rules) =
     mutation (Rbac (RB_createRole namespace name rules))
       [Invalidate [JStr ''roles'', JStr cluster, JStr namespace], ToastSuccess ''Role created'', CallBack]"
| "rbac_mutations cluster (UseUpdateRole namespace name rules) =
     mutation (Rbac (RB_updateRole namespace name rules))
       [Invalidate [JStr ''roles'', JStr cluster, JStr namespace], ToastSuccess ''Role updated'', CallBack]"
| "rbac_mutations cluster (UseDeleteRole namespace name) =
     mutation (Rbac (RB_deleteRole namespace name))
       [Invalidate [JStr ''roles'', JStr cluster, JStr namespace], ToastSuccess ''Role deleted'']"
| "rbac_mutations cluster (UseAssignRole username payload userKind saNamespace) =
     mutation (Rbac (RB_assignRole username payload
         (case userKind of Some k \<Rightarrow> k | None \<Rightarrow> ''User'') saNamespace))
       [Invalidate [JStr ''user-permissions'', JStr cluster, JStr username], ToastSuccess ''Role assigned'']"
| "rbac_mutations cluster (UseRevokeRole username roleName namespace) =
     mutation (Rbac (RB_revokeRole username roleName namespace))
       [Invalidate [JStr ''user-permissions'', JStr cluster, JStr username], ToastSuccess ''Role revoked'']"

section \<open>hooks/useTokens.ts\<close>

datatype tokens_hook =
  UseTokenHistory | UseDeleteHistoryEntry string | UseClearHistory | UseSaTokens
| UseRevokeSaToken string string | UseRotateSaToken string string string

fun tokens_hooks :: "string \<Rightarrow> tokens_hook \<Rightarrow> hook" where
  "tokens_hooks cluster UseTokenHistory =
     query [JStr ''token-history'', JStr cluster] (Tokens TK_listHistory) True (Some 30000) []"
| "tokens_hooks cluster (UseDeleteHistoryEntry i) =
     mutation (Tokens (TK_deleteHistoryEntry i)) [Invalidate [JStr ''token-history'', JStr cluster]]"
| "tokens_hooks cluster UseClearHistory =
     mutation (Tokens TK_clearHistory) [Invalidate [JStr ''token-history'', JStr cluster]]"
| "tokens_hooks cluster UseSaTokens =
     query [JStr ''sa-tokens'', JStr cluster] (Tokens TK_listSaTokens) True (Some 30000) []"
| "tokens_hooks cluster (UseRevokeSaToken secretName namespace) =
     mutation (Tokens (TK_revokeSaToken secretName namespace))
       [Invalidate [JStr ''sa-tokens'', JStr cluster], ToastSuccess ''Token revoked'']"
| "tokens_hooks cluster (UseRotateSaToken secretName saName namespace) =
     mutation (Tokens (TK_rotateSaToken secretName saName namespace))
       [Invalidate [JStr ''sa-tokens'', JStr cluster], ToastSuccess ''Token rotated'']"

section \<open>hooks/useUsers.ts\<close>

datatype users_hook =
  UseUsers | UseCreateUser create_user_payload | UseUnmanagedServiceAccounts
| UseImportUser import_user_payload | UseDeleteUser delete_user_payload

fun users_hooks :: "string \<Rightarrow> users_hook \<Rightarrow> hook" where
  "users_hooks cluster UseUsers =
     query [JStr ''users'', JStr cluster] (Users US_list) True None []"
| "users_hooks cluster (UseCreateUser payload) =
     mutation (Users (US_create payload)) [Invalidate [JStr ''users'', JStr cluster], CallBack]"
| "users_hooks cluster UseUnmanagedServiceAccounts =
     query [JStr ''unmanaged-sa'', JStr cluster] (Users US_listUnmanagedServiceAccounts) True None []"
| "users_hooks cluster (UseImportUser payload) =
     mutation (Users (US_import payload))
       [Invalidate [JStr ''users'', JStr cluster], Invalidate [JStr ''unmanaged-sa'', JStr cluster],
        ToastSuccess ''User imported'', CallBack]"
| "users_hooks cluster (UseDeleteUser p) =
     mutation (Users (US_delete (du_username p) (du_user_type p) (du_namespace p)))
       [Invalidate [JStr ''users'', JStr cluster], ToastSuccess ''User deleted'']"

section \<open>All hooks\<close>

datatype any_hook =
  HAccessRequests access_requests_hook | HAudit audit_hook | HBackendHealth | HCluster cluster_hook
| HKubeconfig kubeconfig_payload | HLink link_hook | HPermissions permissions_hook
| HRbacQuery rbac_query | HRbac rbac_mutation | HTokens tokens_hook | HUsers users_hook

fun hooks :: "string \<Rightarrow> any_hook \<Rightarrow> hook" where
  "hooks cluster (HAccessRequests h) = access_requests_hooks cluster h"
| "hooks cluster (HAudit h) = audit_hooks h"
| "hooks cluster HBackendHealth = backend_health_hook"
| "hooks cluster (HCluster h) = cluster_hooks cluster h"
| "hooks cluster (HKubeconfig p) = generate_kubeconfig_hook p"
| "hooks cluster (HLink h) = link_hooks h"
| "hooks cluster (HPermissions h) = permissions_hooks h"
| "hooks cluster (HRbacQuery q) = rbac_queries cluster q"
| "hooks cluster (HRbac m) = rbac_mutations cluster m"
| "hooks cluster (HTokens h) = tokens_hooks cluster h"
| "hooks cluster (HUsers h) = users_hooks cluster h"

section \<open>Lemmas\<close>

lemma query_simps [simp]:
  "query k c en st opts \<noteq> Mutation m"
  "query k c en st opts = Query q \<longleftrightarrow>
     q = \<lparr>qh_key = k, qh_call = c, qh_enabled = en, qh_stale = st, qh_options = opts\<rparr>"
  "mutation c fs \<noteq> Query q"
  "mutation c fs = Mutation m \<longleftrightarrow> m = \<lparr>mh_call = c, mh_success = fs, mh_error = on_error_toast\<rparr>"
  by (auto simp: query_def mutation_def)

lemma audit_query_json_inject [simp]: "audit_query_json q = audit_query_json q' \<longleftrightarrow> q = q'"
  by (auto simp: audit_query_json_def intro: audit_log_query.equality)

lemma JNullable_inject [simp]: "JNullable s = JNullable t \<longleftrightarrow> s = t"
  by (simp add: JNullable_def split: option.splits)

text \<open>The resources of the backend the queries read.\<close>

datatype resource =
  RAccessRequests | RPolicies | RAuditLog | RHealth | RClusterInfo | RClusters | RMyLink | RScopes
| RUserRoles string | RClusterRoles bool | RRoles string | RUserPermissions string | RNamespaces
| RNamespaceAccess string | RTokenHistory | RSaTokens | RUsers | RUnmanaged

fun reads :: "api_call \<Rightarrow> resource option" where
  "reads (AccessRequests AR_list) = Some RAccessRequests"
| "reads (AccessRequests AR_listPolicies) = Some RPolicies"
| "reads (Audit (AU_list q)) = Some RAuditLog"
| "reads HealthCheck = Some RHealth"
| "reads (ClusterApi CL_info) = Some RClusterInfo"
| "reads (ClusterApi CL_list) = Some RClusters"
| "reads MyLink = Some RMyLink"
| "reads (Permissions PE_listScopes) = Some RScopes"
| "reads (Permissions (PE_listUserRoles u)) = Some (RUserRoles u)"
| "reads (Rbac (RB_listClusterRoles sys limit cursor)) = Some (RClusterRoles sys)"
| "reads (Rbac (RB_listRoles ns limit cursor)) = Some (RRoles ns)"
| "reads (Rbac (RB_getUserPermissions u)) = Some (RUserPermissions u)"
| "reads (Rbac RB_listNamespaces) = Some RNamespaces"
| "reads (Rbac (RB_getNamespaceAccess ns)) = Some (RNamespaceAccess ns)"
| "reads (Tokens TK_listHistory) = Some RTokenHistory"
| "reads (Tokens TK_listSaTokens) = Some RSaTokens"
| "reads (Users US_list) = Some RUsers"
| "reads (Users US_listUnmanagedServiceAccounts) = Some RUnmanaged"
| "reads _ = None"

definition instance_wide :: "resource \<Rightarrow> bool" where
  "instance_wide r \<longleftrightarrow> (case r of RPolicies \<Rightarrow> True | RAuditLog \<Rightarrow> True | RHealth \<Rightarrow> True
     | RClusters \<Rightarrow> True | RMyLink \<Rightarrow> True | RScopes \<Rightarrow> True | RUserRoles u \<Rightarrow> True | _ \<Rightarrow> False)"

text \<open>A hook used for no user (\<open>username\<close> is \<open>null\<close>) is not enabled, or not called.\<close>

fun named :: "any_hook \<Rightarrow> bool" where
  "named (HLink (UseSetLink u n ns)) = (u \<noteq> None)"
| "named (HLink (UseClearLink u)) = (u \<noteq> None)"
| "named (HPermissions (UseUserRoles u)) = (u \<noteq> None)"
| "named (HPermissions (UseSetUserRole u s r)) = (u \<noteq> None)"
| "named (HPermissions (UseDeleteUserRole u s)) = (u \<noteq> None)"
| "named _ = True"

lemma enabled_named: "hooks c h = Query q \<Longrightarrow> qh_enabled q \<Longrightarrow> named h"
proof (cases h)
  case (HPermissions x)
  then show "hooks c h = Query q \<Longrightarrow> qh_enabled q \<Longrightarrow> named h"
    by (cases x) (auto split: option.splits)
next
  case (HLink x)
  then show "hooks c h = Query q \<Longrightarrow> qh_enabled q \<Longrightarrow> named h" by (cases x) auto
qed simp_all

text \<open>The entries of the query cache: key and call.\<close>

inductive cache_entry :: "string \<Rightarrow> query_key \<Rightarrow> api_call \<Rightarrow> bool" for c where
  ce_requests: "cache_entry c [JStr ''access-requests'', JStr c] (AccessRequests AR_list)"
| ce_policies: "cache_entry c [JStr ''jit-policies''] (AccessRequests AR_listPolicies)"
| ce_audit: "cache_entry c [JStr ''audit-log'', audit_query_json a] (Audit (AU_list a))"
| ce_health: "cache_entry c [JStr ''backend-health''] HealthCheck"
| ce_info: "cache_entry c [JStr ''cluster-info'', JStr c] (ClusterApi CL_info)"
| ce_clusters: "cache_entry c [JStr ''clusters''] (ClusterApi CL_list)"
| ce_link: "cache_entry c [JStr ''my-link''] MyLink"
| ce_scopes: "cache_entry c [JStr ''permission-scopes''] (Permissions PE_listScopes)"
| ce_roles_of: "cache_entry c [JStr ''user-roles'', JStr u] (Permissions (PE_listUserRoles u))"
| ce_cluster_roles: "cache_entry c [JStr ''cluster-roles'', JStr c, JBool b]
    (Rbac (RB_listClusterRoles b 500 None))"
| ce_roles: "cache_entry c [JStr ''roles'', JStr c, JStr ns] (Rbac (RB_listRoles ns 500 None))"
| ce_permissions: "cache_entry c [JStr ''user-permissions'', JStr c, JStr u]
    (Rbac (RB_getUserPermissions u))"
| ce_namespaces: "cache_entry c [JStr ''namespaces'', JStr c] (Rbac RB_listNamespaces)"
| ce_access: "cache_entry c [JStr ''namespace-access'', JStr c, JStr ns] (Rbac (RB_getNamespaceAccess ns))"
| ce_history: "cache_entry c [JStr ''token-history'', JStr c] (Tokens TK_listHistory)"
| ce_sa_tokens: "cache_entry c [JStr ''sa-tokens'', JStr c] (Tokens TK_listSaTokens)"
| ce_users: "cache_entry c [JStr ''users'', JStr c] (Users US_list)"
| ce_unmanaged: "cache_entry c [JStr ''unmanaged-sa'', JStr c] (Users US_listUnmanagedServiceAccounts)"

inductive_cases cache_entry_elim: "cache_entry c k call"

lemma query_cache_entry:
  assumes "hooks c h = Query q" "named h"
  shows "cache_entry c (qh_key q) (qh_call q)"
  using assms
proof (cases h)
  case (HAccessRequests x) with assms show ?thesis by (cases x) (auto intro: cache_entry.intros)
next case (HAudit x) with assms show ?thesis by (cases x) (auto intro: cache_entry.intros)
next case (HCluster x) with assms show ?thesis by (cases x) (auto intro: cache_entry.intros)
next case (HLink x) with assms show ?thesis by (cases x) (auto intro: cache_entry.intros)
next case (HPermissions x)
  with assms show ?thesis
    by (cases x) (auto simp: JNullable_def name_or_null_def intro: cache_entry.intros)
next case (HRbacQuery x) with assms show ?thesis by (cases x) (auto intro: cache_entry.intros)
next case (HRbac x) with assms show ?thesis by (cases x) auto
next case (HTokens x) with assms show ?thesis by (cases x) (auto intro: cache_entry.intros)
next case (HUsers x) with assms show ?thesis by (cases x) (auto intro: cache_entry.intros)
qed (auto simp: backend_health_hook_def generate_kubeconfig_hook_def intro: cache_entry.intros)

lemma cache_entry_inject:
  assumes "cache_entry c k call" "cache_entry c' k call'"
  shows "call = call' \<and> (c = c' \<or> instance_wide (the (reads call)))"
  using assms(1)
  by (cases rule: cache_entry.cases; use assms(2) in \<open>auto elim: cache_entry_elim simp: instance_wide_def\<close>)

section \<open>Properties\<close>

text \<open>The cache never mixes up data: two enabled queries with the same key make the same call,
  and for the same cluster unless what they read is kept by the instance and not by a cluster.\<close>

theorem query_key_determines_call:
  assumes "hooks c h = Query q" "qh_enabled q" and "hooks c' h' = Query q'" "qh_enabled q'"
    and "qh_key q = qh_key q'"
  shows "qh_call q = qh_call q' \<and> (c = c' \<or> instance_wide (the (reads (qh_call q))))"
proof -
  have "cache_entry c (qh_key q) (qh_call q)"
    using assms(1) enabled_named [OF assms(1,2)] by (rule query_cache_entry)
  moreover have "cache_entry c' (qh_key q) (qh_call q')"
    using query_cache_entry [OF assms(3) enabled_named [OF assms(3,4)]] assms(5) by simp
  ultimately show ?thesis by (rule cache_entry_inject)
qed

theorem query_key_determines_call_witness:
  "\<exists>q. hooks ''test'' (HRbacQuery (UseRoles ''dev'')) = Query q \<and>
     \<not> instance_wide (the (reads (qh_call q))) \<and>
     (\<forall>c. hooks c (HRbacQuery (UseRoles ''dev'')) = Query q \<longleftrightarrow> c = ''test'')"
proof -
  let ?h = "HRbacQuery (UseRoles ''dev'')"
  obtain q where q: "hooks ''test'' ?h = Query q" "qh_enabled q"
    "\<not> instance_wide (the (reads (qh_call q)))"
    by (auto simp: instance_wide_def)
  have "c = ''test''" if "hooks c ?h = Query q" for c
    using query_key_determines_call [OF that q(2) q(1,2) refl] q(3) by blast
  with q show ?thesis by blast
qed

text \<open>A mutation touches nothing else of the session: the active cluster changes only when that
  very cluster was removed, and then to the local one; a failure shows its message once and does
  nothing more (an access check, which has no error handler, shows nothing).\<close>

theorem mutation_side_effects:
  assumes "hooks c h = Mutation m"
  shows "(SetActiveCluster n \<in> set (mh_success m) \<longleftrightarrow>
      h = HCluster (UseRemoveCluster c) \<and> n = ''local'') \<and>
    mh_error m e = (if \<exists>r. h = HRbac (UseCheckAccess r) then [] else [ToastError e])"
  using assms
proof (cases h)
  case (HAccessRequests x) with assms show ?thesis by (cases x) auto
next case (HAudit x) with assms show ?thesis by (cases x) auto
next case (HCluster x) with assms show ?thesis by (cases x) auto
next case (HLink x) with assms show ?thesis by (cases x) auto
next case (HPermissions x) with assms show ?thesis by (cases x) auto
next case (HRbacQuery x) with assms show ?thesis by (cases x) auto
next case (HRbac x) with assms show ?thesis by (cases x) auto
next case (HTokens x) with assms show ?thesis by (cases x) auto
next case (HUsers x) with assms show ?thesis by (cases x) auto
qed (auto simp: backend_health_hook_def generate_kubeconfig_hook_def)

theorem mutation_side_effects_witness:
  "\<exists>m. hooks ''test'' (HCluster (UseRemoveCluster ''test'')) = Mutation m \<and>
     SetActiveCluster ''local'' \<in> set (mh_success m)"
proof -
  obtain m where m: "hooks ''test'' (HCluster (UseRemoveCluster ''test'')) = Mutation m" by simp
  from mutation_side_effects [OF m] m show ?thesis by blast
qed

text \<open>What stays cached: assigning or revoking a role leaves the access table of the namespaces
  as it was, a new cluster does not appear among the permission scopes, and a generated
  kubeconfig not in the history, until those queries go stale by themselves.\<close>

fun refreshes :: "hook \<Rightarrow> query_key \<Rightarrow> bool" where
  "refreshes (Query q) key = False"
| "refreshes (Mutation m) key =
     list_ex (\<lambda>f. case f of Invalidate k \<Rightarrow> prefix k key | _ \<Rightarrow> False) (mh_success m)"

theorem unrefreshed_reads:
  "\<not> refreshes (hooks c (HRbac (UseAssignRole u p kind sa)))
       [JStr ''namespace-access'', JStr c, JStr ns] \<and>
   \<not> refreshes (hooks c (HRbac (UseRevokeRole u role ns')))
       [JStr ''namespace-access'', JStr c, JStr ns] \<and>
   \<not> refreshes (hooks c (HCluster (UseAddCluster cp))) [JStr ''permission-scopes''] \<and>
   \<not> refreshes (hooks c (HKubeconfig kp)) [JStr ''token-history'', JStr c] \<and>
   (\<exists>q. hooks c (HRbacQuery (UseNamespaceAccess ns)) = Query q \<and>
      qh_key q = [JStr ''namespace-access'', JStr c, JStr ns] \<and> qh_stale q = Some 120000)"
  by (simp add: mutation_def generate_kubeconfig_hook_def)

end
