(* ===== verification/Session.thy ===== *)
theory Session
  imports Systems Hooks
begin

text \<open>
  Signing in and out and finding the page: \<^verbatim>\<open>App.tsx\<close>, \<^verbatim>\<open>components/auth\<close>,
  \<^verbatim>\<open>components/layout\<close>, \<^verbatim>\<open>pages/LoginPage.tsx\<close>. The router is the parameter
  \<open>resolve\<close>, which gives the route of a path; all that is asked of it is that it finds the route
  of each literal path of \<^verbatim>\<open>App.tsx\<close> (\<open>resolves_routes\<close>). A reload (also the one a failed
  token refresh forces) drops everything but the active cluster, which is in the local storage.

  The history of the browser may bring any path back at any time, the login page included (signing out and
  going back leaves entries of it). Calls outlive the component that made them: a sign-in whose page is gone, and
  a session check whose guard is gone, still take effect when they are answered.
\<close>

section \<open>Routes and guards\<close>

datatype route =
  R_login | R_index | R_dashboard | R_users | R_rbac | R_kubeconfig | R_tokens | R_access_requests
| R_clusters | R_settings | R_audit_log | R_not_found

datatype screen =
  LoginScreen | CheckingSession | Connecting | BackendUnreachable | Redirect string | Page route

definition route_table :: "(string \<times> route) list" where
  "route_table = [(''/login'', R_login), (''/'', R_index), (''/dashboard'', R_dashboard),
     (''/users'', R_users), (''/rbac'', R_rbac), (''/kubeconfig'', R_kubeconfig),
     (''/tokens'', R_tokens), (''/access-requests'', R_access_requests),
     (''/clusters'', R_clusters), (''/settings'', R_settings), (''/audit-log'', R_audit_log)]"

definition resolves_routes :: "(string \<Rightarrow> route) \<Rightarrow> bool" where
  "resolves_routes resolve \<longleftrightarrow> list_all (\<lambda>(p, r). resolve p = r) route_table"

definition require_auth :: "bool option \<Rightarrow> auth_store \<Rightarrow> screen \<Rightarrow> screen" where
  "require_auth is_checking a outlet =
     (if is_checking = Some True then CheckingSession
      else if as_user a = None then Redirect ''/login''
      else outlet)"

definition require_instance_admin :: "auth_store \<Rightarrow> screen \<Rightarrow> screen" where
  "require_instance_admin a outlet = (if \<not> is_instance_admin a then Redirect ''/'' else outlet)"

datatype health = HealthPending | HealthOk | HealthError "nat option"

definition backend_unreachable :: "health \<Rightarrow> bool" where
  "backend_unreachable h = (h = HealthError None)"

definition layout :: "health \<Rightarrow> screen \<Rightarrow> screen" where
  "layout h outlet =
     (if h = HealthPending then Connecting
      else if backend_unreachable h then BackendUnreachable
      else outlet)"

fun app :: "bool option \<Rightarrow> auth_store \<Rightarrow> health \<Rightarrow> route \<Rightarrow> screen" where
  "app is_checking a h R_login = LoginScreen"
| "app is_checking a h R_index = require_auth is_checking a (layout h (Redirect ''/dashboard''))"
| "app is_checking a h R_settings =
     require_auth is_checking a (layout h (require_instance_admin a (Page R_settings)))"
| "app is_checking a h R_audit_log =
     require_auth is_checking a (layout h (require_instance_admin a (Page R_audit_log)))"
| "app is_checking a h r = require_auth is_checking a (layout h (Page r))"

section \<open>Sidebar and top bar\<close>

definition CLUSTER_SCOPED_LINKS :: "string list" where
  "CLUSTER_SCOPED_LINKS = [''/users'', ''/rbac'', ''/kubeconfig'', ''/tokens'']"

definition sidebar_links :: "(string \<times> string) list" where
  "sidebar_links = [(''/dashboard'', ''Dashboard''), (''/users'', ''Users''), (''/rbac'', ''Permissions''),
     (''/access-requests'', ''Access Requests''), (''/kubeconfig'', ''Kubeconfig''),
     (''/tokens'', ''History''), (''/clusters'', ''Clusters'')]"

definition visible_links :: "auth_store \<Rightarrow> string list" where
  "visible_links a =
     map fst (filter (\<lambda>l. has_any_cluster_access a \<or> fst l \<notin> set CLUSTER_SCOPED_LINKS) sidebar_links) @
     (if is_instance_admin a then [''/settings'', ''/audit-log''] else [])"

definition pending_count :: "access_request list \<Rightarrow> nat" where
  "pending_count rs = length (filter (\<lambda>r. q_status r = Pending) rs)"

definition routeLabels :: "(string \<times> string) list" where
  "routeLabels = [(''/users'', ''Users''), (''/rbac'', ''Permissions''), (''/kubeconfig'', ''Kubeconfig''),
     (''/tokens'', ''Tokens''), (''/access-requests'', ''Access Requests''),
     (''/clusters'', ''Clusters''), (''/settings'', ''Settings'')]"

definition page_label :: "string \<Rightarrow> string" where
  "page_label pathname = (case map_of routeLabels pathname of Some l \<Rightarrow> l | None \<Rightarrow> ''ClusterVision'')"

definition cluster_fallback :: "string list option \<Rightarrow> string \<Rightarrow> string" where
  "cluster_fallback clusters activeCluster =
     (case clusters of
        Some cs \<Rightarrow> if activeCluster \<notin> set cs then ''local'' else activeCluster
      | None \<Rightarrow> activeCluster)"

section \<open>The session\<close>

text \<open>\<open>se_checking\<close> is the state of the mounted \<open>RequireAuth\<close> (\<open>None\<close>: not mounted). \<open>se_flying\<close> are the
  queries without an answer yet, \<open>se_cached\<close> the answers in the query cache, each with the user who was signed in
  when the query was sent; clearing the cache cancels what is in flight. \<open>se_detached\<close> counts the sign-ins
  whose login page is gone, \<open>se_stray\<close> the session checks whose guard is gone.\<close>

record session =
  se_auth :: auth_store
  se_path :: string
  se_checking :: "bool option"
  se_health :: health
  se_cluster :: string
  se_clusters :: "string list option"
  se_flying :: "(query_key \<times> string) list"
  se_cached :: "(query_key \<times> string) list"
  se_login_username :: string
  se_login_password :: string
  se_login_error :: string
  se_submitted :: "(string \<times> string) option"
  se_detached :: nat
  se_stray :: nat
  se_confirm_logout :: bool
  se_switcher_open :: bool
  se_logouts :: nat

datatype session_effect =
  PostRefresh | PostLogin string string | PostLogout | SignedOutToast

datatype session_event =
  SetUsername string | SetPassword string | Submit
| LoginOk auth_user string | LoginFailed string | LateLoginOk auth_user string | LateLoginFailed
| FollowLink string | FollowRedirect | Navigate string | Reload string
| RefreshOk auth_user string | RefreshFailed | LateRefreshOk auth_user string | LateRefreshFailed
| TokenRefreshed string | SessionExpired
| HealthAnswered health | ClustersLoaded "string list" | Fetch query_key | Cached query_key string
| AskLogout | CancelLogout | ConfirmLogout | LogoutAnswered
| ToggleSwitcher | CloseSwitcher | SwitchCluster string

definition enter :: "(string \<Rightarrow> route) \<Rightarrow> string \<Rightarrow> session \<Rightarrow> session \<times> session_effect list" where
  "enter resolve p s =
     (if resolve p = R_login then
        (if resolve (se_path s) = R_login then (s\<lparr>se_path := p\<rparr>, [])
         else (s\<lparr>se_path := p, se_checking := None,
                se_stray := (if se_checking s = Some True then Suc (se_stray s) else se_stray s),
                se_login_username := [], se_login_password := [], se_login_error := [], se_submitted := None\<rparr>, []))
      else case se_checking s of
        None \<Rightarrow> (s\<lparr>se_path := p, se_checking := Some (as_user (se_auth s) = None),
                   se_detached := (if se_submitted s \<noteq> None then Suc (se_detached s) else se_detached s),
                   se_submitted := None\<rparr>,
                 if as_user (se_auth s) = None then [PostRefresh] else [])
      | Some b \<Rightarrow> (s\<lparr>se_path := p\<rparr>, []))"

definition boot :: "(string \<Rightarrow> route) \<Rightarrow> string \<Rightarrow> string \<Rightarrow> session \<times> session_effect list" where
  "boot resolve p c = enter resolve p
     \<lparr>se_auth = auth_init, se_path = p, se_checking = None, se_health = HealthPending, se_cluster = c,
      se_clusters = None, se_flying = [], se_cached = [], se_login_username = [], se_login_password = [],
      se_login_error = [], se_submitted = None, se_detached = 0, se_stray = 0,
      se_confirm_logout = False, se_switcher_open = False, se_logouts = 0\<rparr>"

definition current_screen :: "(string \<Rightarrow> route) \<Rightarrow> session \<Rightarrow> screen" where
  "current_screen resolve s = app (se_checking s) (se_auth s) (se_health s) (resolve (se_path s))"

definition em_dash :: string where
  "em_dash = [CHR 0xE2, CHR 0x80, CHR 0x94]"

definition login_message :: "string \<Rightarrow> string \<Rightarrow> string \<Rightarrow> string" where
  "login_message msg username password =
     (if msg = ''Invalid credentials'' then ''Incorrect username or password.''
      else if username = [] \<or> password = [] then ''Please fill in all fields.''
      else ''Sign in failed '' @ em_dash @ '' please try again.'')"

definition loading :: "session \<Rightarrow> bool" where
  "loading s = (se_submitted s \<noteq> None)"

fun handle_login ::
  "(string \<Rightarrow> route) \<Rightarrow> session \<Rightarrow> session_event \<Rightarrow> session \<times> session_effect list"
where
  "handle_login resolve s (SetUsername v) = (s\<lparr>se_login_username := v\<rparr>, [])"
| "handle_login resolve s (SetPassword v) = (s\<lparr>se_login_password := v\<rparr>, [])"
| "handle_login resolve s Submit =
     (s\<lparr>se_login_error := [], se_submitted := Some (se_login_username s, se_login_password s)\<rparr>,
      [PostLogin (se_login_username s) (se_login_password s)])"
| "handle_login resolve s (LoginOk user token) =
     enter resolve ''/'' (s\<lparr>se_auth := set_auth user token (se_auth s), se_submitted := None\<rparr>)"
| "handle_login resolve s (LoginFailed msg) =
     (case se_submitted s of
        Some (username, password) \<Rightarrow>
          (s\<lparr>se_login_error := login_message msg username password, se_submitted := None\<rparr>, [])
      | None \<Rightarrow> (s, []))"
| "handle_login resolve s (LateLoginOk user token) =
     enter resolve ''/'' (s\<lparr>se_auth := set_auth user token (se_auth s), se_detached := se_detached s - 1\<rparr>)"
| "handle_login resolve s LateLoginFailed = (s\<lparr>se_detached := se_detached s - 1\<rparr>, [])"
| "handle_login resolve s _ = (s, [])"

fun handle_guard :: "session \<Rightarrow> session_event \<Rightarrow> session" where
  "handle_guard s (RefreshOk user token) =
     s\<lparr>se_auth := set_auth user token (se_auth s), se_checking := Some False\<rparr>"
| "handle_guard s RefreshFailed = s\<lparr>se_checking := Some False\<rparr>"
| "handle_guard s (LateRefreshOk user token) =
     s\<lparr>se_auth := set_auth user token (se_auth s), se_stray := se_stray s - 1\<rparr>"
| "handle_guard s LateRefreshFailed = s\<lparr>se_stray := se_stray s - 1\<rparr>"
| "handle_guard s _ = s"

fun handle_top_bar ::
  "(string \<Rightarrow> route) \<Rightarrow> session \<Rightarrow> session_event \<Rightarrow> session \<times> session_effect list"
where
  "handle_top_bar resolve s AskLogout = (s\<lparr>se_confirm_logout := True\<rparr>, [])"
| "handle_top_bar resolve s CancelLogout = (s\<lparr>se_confirm_logout := False\<rparr>, [])"
| "handle_top_bar resolve s ConfirmLogout = (s\<lparr>se_logouts := Suc (se_logouts s)\<rparr>, [PostLogout])"
| "handle_top_bar resolve s LogoutAnswered =
     (let (t, fs) = enter resolve ''/login''
        (s\<lparr>se_auth := clear_auth (se_auth s), se_flying := [], se_cached := [], se_health := HealthPending,
           se_clusters := None,
           se_confirm_logout := False, se_switcher_open := False, se_logouts := se_logouts s - 1\<rparr>)
      in (t, SignedOutToast # fs))"
| "handle_top_bar resolve s _ = (s, [])"

fun handle_switcher :: "session \<Rightarrow> session_event \<Rightarrow> session" where
  "handle_switcher s ToggleSwitcher = s\<lparr>se_switcher_open := \<not> se_switcher_open s\<rparr>"
| "handle_switcher s CloseSwitcher = s\<lparr>se_switcher_open := False\<rparr>"
| "handle_switcher s (SwitchCluster c) = s\<lparr>se_cluster := c, se_switcher_open := False\<rparr>"
| "handle_switcher s _ = s"

fun handle_session ::
  "(string \<Rightarrow> route) \<Rightarrow> session \<Rightarrow> session_event \<Rightarrow> session \<times> session_effect list"
where
  "handle_session resolve s (FollowLink p) = enter resolve p s"
| "handle_session resolve s (Navigate p) = enter resolve p s"
| "handle_session resolve s FollowRedirect =
     (case current_screen resolve s of Redirect p \<Rightarrow> enter resolve p s | _ \<Rightarrow> (s, []))"
| "handle_session resolve s (Reload p) = boot resolve p (se_cluster s)"
| "handle_session resolve s SessionExpired = boot resolve ''/login'' (se_cluster s)"
| "handle_session resolve s (TokenRefreshed t) = (s\<lparr>se_auth := set_access_token t (se_auth s)\<rparr>, [])"
| "handle_session resolve s (HealthAnswered h) = (s\<lparr>se_health := h\<rparr>, [])"
| "handle_session resolve s (ClustersLoaded cs) = (s\<lparr>se_clusters := Some cs\<rparr>, [])"
| "handle_session resolve s (Fetch k) =
     (case as_user (se_auth s) of
        Some u \<Rightarrow> (s\<lparr>se_flying := se_flying s @ [(k, au_username u)]\<rparr>, [])
      | None \<Rightarrow> (s, []))"
| "handle_session resolve s (Cached k owner) =
     (s\<lparr>se_flying := remove1 (k, owner) (se_flying s), se_cached := se_cached s @ [(k, owner)]\<rparr>, [])"
| "handle_session resolve s (RefreshOk u t) = (handle_guard s (RefreshOk u t), [])"
| "handle_session resolve s RefreshFailed = (handle_guard s RefreshFailed, [])"
| "handle_session resolve s (LateRefreshOk u t) = (handle_guard s (LateRefreshOk u t), [])"
| "handle_session resolve s LateRefreshFailed = (handle_guard s LateRefreshFailed, [])"
| "handle_session resolve s AskLogout = handle_top_bar resolve s AskLogout"
| "handle_session resolve s CancelLogout = handle_top_bar resolve s CancelLogout"
| "handle_session resolve s ConfirmLogout = handle_top_bar resolve s ConfirmLogout"
| "handle_session resolve s LogoutAnswered = handle_top_bar resolve s LogoutAnswered"
| "handle_session resolve s ToggleSwitcher = (handle_switcher s ToggleSwitcher, [])"
| "handle_session resolve s CloseSwitcher = (handle_switcher s CloseSwitcher, [])"
| "handle_session resolve s (SwitchCluster c) = (handle_switcher s (SwitchCluster c), [])"
| "handle_session resolve s e = handle_login resolve s e"

text \<open>After each render the top bar's effect runs.\<close>

definition session_handle ::
  "(string \<Rightarrow> route) \<Rightarrow> session \<Rightarrow> session_event \<Rightarrow> session \<times> session_effect list"
where
  "session_handle resolve s e =
     (let (t, fs) = handle_session resolve s e
      in (t\<lparr>se_cluster := cluster_fallback (se_clusters t) (se_cluster t)\<rparr>, fs))"

section \<open>Views\<close>

definition login_view :: "session \<Rightarrow> session_event control list" where
  "login_view s = [Input True (se_login_username s) SetUsername,
     Input True (se_login_password s) SetPassword,
     Press (\<not> loading s) Submit]"

definition sidebar_view :: "session \<Rightarrow> session_event control list" where
  "sidebar_view s = map (\<lambda>p. Press True (FollowLink p)) (visible_links (se_auth s))"

definition cluster_switcher_view :: "session \<Rightarrow> session_event control list" where
  "cluster_switcher_view s =
     (let cs = (case se_clusters s of Some cs \<Rightarrow> cs | None \<Rightarrow> []) in
      if length cs \<le> 1 then []
      else Press True ToggleSwitcher #
        (if se_switcher_open s then Press True CloseSwitcher # map (\<lambda>c. Press True (SwitchCluster c)) cs
         else []))"

definition top_bar_view :: "session \<Rightarrow> session_event control list" where
  "top_bar_view s = cluster_switcher_view s @
     (if as_user (se_auth s) \<noteq> None
      then Press True AskLogout #
        (if se_confirm_logout s then [Press True CancelLogout, Press True ConfirmLogout] else [])
      else [])"

definition session_view :: "(string \<Rightarrow> route) \<Rightarrow> session \<Rightarrow> session_event control list" where
  "session_view resolve s =
     (case current_screen resolve s of
        LoginScreen \<Rightarrow> login_view s
      | BackendUnreachable \<Rightarrow> [Press True (Reload (se_path s))]
      | Page r \<Rightarrow> sidebar_view s @ top_bar_view s
      | _ \<Rightarrow> [])"

text \<open>What happens by itself. \<open>Navigate\<close> is a link inside a page or the history of the browser: any path,
  whatever is on screen and whatever is pending.\<close>

fun session_env :: "(string \<Rightarrow> route) \<Rightarrow> session \<Rightarrow> session_event \<Rightarrow> bool" where
  "session_env resolve s (LoginOk u t) = loading s"
| "session_env resolve s (LoginFailed m) = loading s"
| "session_env resolve s (LateLoginOk u t) = (0 < se_detached s)"
| "session_env resolve s LateLoginFailed = (0 < se_detached s)"
| "session_env resolve s (RefreshOk u t) = (se_checking s = Some True)"
| "session_env resolve s RefreshFailed = (se_checking s = Some True)"
| "session_env resolve s (LateRefreshOk u t) = (0 < se_stray s)"
| "session_env resolve s LateRefreshFailed = (0 < se_stray s)"
| "session_env resolve s FollowRedirect = (\<exists>p. current_screen resolve s = Redirect p)"
| "session_env resolve s (Navigate p) = True"
| "session_env resolve s (Reload p) = True"
| "session_env resolve s (TokenRefreshed t) = True"
| "session_env resolve s SessionExpired = True"
| "session_env resolve s (HealthAnswered h) = (as_user (se_auth s) \<noteq> None)"
| "session_env resolve s (ClustersLoaded cs) = (as_user (se_auth s) \<noteq> None)"
| "session_env resolve s (Fetch k) = (as_user (se_auth s) \<noteq> None)"
| "session_env resolve s (Cached k owner) = ((k, owner) \<in> set (se_flying s))"
| "session_env resolve s LogoutAnswered = (0 < se_logouts s)"
| "session_env resolve s _ = False"

section \<open>Lemmas\<close>

lemma resolves_routes_simps:
  assumes "resolves_routes resolve"
  shows "resolve ''/login'' = R_login" "resolve ''/'' = R_index" "resolve ''/dashboard'' = R_dashboard"
    "resolve ''/users'' = R_users" "resolve ''/rbac'' = R_rbac" "resolve ''/kubeconfig'' = R_kubeconfig"
    "resolve ''/tokens'' = R_tokens" "resolve ''/access-requests'' = R_access_requests"
    "resolve ''/clusters'' = R_clusters" "resolve ''/settings'' = R_settings"
    "resolve ''/audit-log'' = R_audit_log"
  using assms by (simp_all add: resolves_routes_def route_table_def)

lemmas guard_defs = require_auth_def layout_def require_instance_admin_def

lemma app_inside:
  "app ch a h r = Page r' \<Longrightarrow> r = r' \<and> as_user a \<noteq> None \<and> ch \<noteq> Some True \<and>
     (r \<in> {R_settings, R_audit_log} \<longrightarrow> is_instance_admin a)"
  by (cases r) (auto simp: guard_defs split: if_splits)

lemma app_redirect:
  "app ch a h r = Redirect p \<Longrightarrow>
     (p = ''/login'' \<and> as_user a = None) \<or> (p = ''/'' \<and> as_user a \<noteq> None) \<or>
     (p = ''/dashboard'' \<and> as_user a \<noteq> None)"
  by (cases r) (auto simp: guard_defs split: if_splits)

lemma app_login [simp]: "app ch a h r = LoginScreen \<longleftrightarrow> r = R_login"
  by (cases r) (auto simp: guard_defs)

lemma app_unreachable: "app ch a h r = BackendUnreachable \<Longrightarrow> as_user a \<noteq> None"
  by (cases r) (auto simp: guard_defs split: if_splits)

definition session_core :: "(string \<Rightarrow> route) \<Rightarrow> session \<Rightarrow> bool" where
  "session_core resolve s \<longleftrightarrow> resolves_routes resolve \<and>
     (loading s \<longrightarrow> resolve (se_path s) = R_login) \<and>
     (se_checking s = None \<longleftrightarrow> resolve (se_path s) = R_login)"

definition cluster_known :: "session \<Rightarrow> bool" where
  "cluster_known s \<longleftrightarrow>
     (\<forall>cs. se_clusters s = Some cs \<longrightarrow> se_cluster s \<in> set cs \<or> se_cluster s = ''local'')"

definition session_inv :: "(string \<Rightarrow> route) \<Rightarrow> session \<Rightarrow> bool" where
  "session_inv resolve s \<longleftrightarrow> session_core resolve s \<and> cluster_known s"

fun session_ok :: "session \<Rightarrow> session_effect \<Rightarrow> bool" where
  "session_ok s (PostLogin u p) = (\<not> loading s)"
| "session_ok s PostLogout = (as_user (se_auth s) \<noteq> None)"
| "session_ok s SignedOutToast = (0 < se_logouts s)"
| "session_ok s PostRefresh = True"

lemma enter_unchanged [simp]:
  "se_cluster (fst (enter resolve p s)) = se_cluster s"
  "se_clusters (fst (enter resolve p s)) = se_clusters s"
  "se_auth (fst (enter resolve p s)) = se_auth s" "se_health (fst (enter resolve p s)) = se_health s"
  "se_cached (fst (enter resolve p s)) = se_cached s" "se_flying (fst (enter resolve p s)) = se_flying s"
  "se_path (fst (enter resolve p s)) = p"
  by (simp_all add: enter_def split: option.splits)

lemma core_routes: "session_core resolve s \<Longrightarrow> resolves_routes resolve"
  by (simp add: session_core_def)

lemma enter_checking:
  "resolve p = R_login \<Longrightarrow> resolve (se_path s) = R_login \<longrightarrow> se_checking s = None \<Longrightarrow>
   se_checking (fst (enter resolve p s)) = None"
  "resolve p \<noteq> R_login \<Longrightarrow> se_checking (fst (enter resolve p s)) =
     Some (case se_checking s of None \<Rightarrow> as_user (se_auth s) = None | Some b \<Rightarrow> b)"
  by (simp_all add: enter_def split: option.splits)

lemma enter_settled:
  "se_checking s \<noteq> Some True \<Longrightarrow> as_user (se_auth s) \<noteq> None \<or> resolve p = R_login \<Longrightarrow>
   se_checking (fst (enter resolve p s)) \<noteq> Some True"
  by (auto simp: enter_def split: option.splits)

lemma enter_core:
  assumes "resolves_routes resolve" "loading s \<longrightarrow> se_checking s = None"
    "resolve (se_path s) = R_login \<longrightarrow> se_checking s = None"
  shows "session_core resolve (fst (enter resolve p s))"
  using assms by (auto simp: session_core_def enter_def loading_def split: option.splits)

lemma core_enters:
  assumes "session_core resolve s"
  shows "session_core resolve (fst (enter resolve p s))"
  by (rule enter_core) (use assms in \<open>auto simp: session_core_def\<close>)

lemma boot_core: "resolves_routes resolve \<Longrightarrow> session_core resolve (fst (boot resolve p c))"
  unfolding boot_def by (rule enter_core) (simp_all add: loading_def)

lemma boot_fresh [simp]:
  "se_cached (fst (boot resolve p c)) = []" "se_flying (fst (boot resolve p c)) = []"
  by (simp_all add: boot_def)

lemma boot_clusters [simp]: "se_clusters (fst (boot resolve p c)) = None"
  by (simp add: boot_def)

lemma screen_page:
  "session_core resolve s \<Longrightarrow> current_screen resolve s = Page r \<Longrightarrow>
     se_checking s \<noteq> Some True \<and> as_user (se_auth s) \<noteq> None"
  unfolding current_screen_def by (metis app_inside)

lemma visible_links_cases:
  assumes "p \<in> set (visible_links a)"
  obtains "p \<in> set (map fst sidebar_links)" | "is_instance_admin a" "p \<in> {''/settings'', ''/audit-log''}"
proof -
  from assms have "p \<in> set (map fst sidebar_links) \<or>
      p \<in> set (if is_instance_admin a then [''/settings'', ''/audit-log''] else [])"
    unfolding visible_links_def set_append Un_iff by (metis filter_is_subset image_mono set_map subsetD)
  with that show thesis by (auto split: if_splits)
qed

lemma sidebar_routes:
  assumes "resolves_routes resolve"
  shows "list_all (\<lambda>p. resolve p \<notin> {R_login, R_index, R_not_found, R_settings, R_audit_log})
    (map fst sidebar_links)"
  by (simp add: sidebar_links_def resolves_routes_simps [OF assms])

lemma visible_links_routes:
  assumes "resolves_routes resolve" "p \<in> set (visible_links a)"
  shows "resolve p \<notin> {R_login, R_index, R_not_found} \<and>
    (resolve p \<in> {R_settings, R_audit_log} \<longrightarrow> is_instance_admin a)"
  using assms(2)
proof (cases rule: visible_links_cases)
  case 1
  with sidebar_routes [OF assms(1)] show ?thesis unfolding list_all_iff by blast
next
  case 2
  with resolves_routes_simps(10,11) [OF assms(1)] show ?thesis by auto
qed

lemma core_fields:
  assumes "session_core resolve s"
  shows "session_core resolve (s\<lparr>se_health := h\<rparr>)" "session_core resolve (s\<lparr>se_clusters := cs\<rparr>)"
    "session_core resolve (s\<lparr>se_cluster := c\<rparr>)" "session_core resolve (s\<lparr>se_confirm_logout := b\<rparr>)"
    "session_core resolve (s\<lparr>se_switcher_open := b\<rparr>)" "session_core resolve (s\<lparr>se_logouts := n\<rparr>)"
    "session_core resolve (s\<lparr>se_login_username := v\<rparr>)" "session_core resolve (s\<lparr>se_login_password := v\<rparr>)"
  using assms by (simp_all add: session_core_def loading_def)

text \<open>The events a view offers, and the environment's.\<close>

lemma session_view_fires:
  assumes "fires (session_view resolve s) e"
  obtains (login) "current_screen resolve s = LoginScreen" "fires (login_view s) e"
  | (unreachable) "current_screen resolve s = BackendUnreachable" "e = Reload (se_path s)"
  | (sidebar) r where "current_screen resolve s = Page r" "fires (sidebar_view s) e"
  | (top_bar) r where "current_screen resolve s = Page r" "fires (top_bar_view s) e"
  using assms by (cases "current_screen resolve s") (auto simp: session_view_def)

lemma session_env_core:
  assumes core: "session_core resolve s" and env: "session_env resolve s e"
  shows "session_core resolve (fst (handle_session resolve s e))"
proof -
  note rr = core_routes [OF core]
  show ?thesis
  proof (cases e)
    case (LoginOk u t)
    have "session_core resolve (s\<lparr>se_auth := set_auth u t (se_auth s), se_submitted := None\<rparr>)"
      using core by (simp add: session_core_def loading_def)
    with LoginOk core_enters show ?thesis by simp
  next
    case (LateLoginOk u t)
    have "session_core resolve (s\<lparr>se_auth := set_auth u t (se_auth s), se_detached := se_detached s - 1\<rparr>)"
      using core by (simp add: session_core_def loading_def)
    with LateLoginOk core_enters show ?thesis by simp
  next
    case FollowRedirect
    with core core_enters show ?thesis by (simp split: screen.split)
  next
    case LogoutAnswered
    have "session_core resolve (s\<lparr>se_auth := clear_auth (se_auth s), se_flying := [], se_cached := [],
        se_health := HealthPending, se_clusters := None, se_confirm_logout := False, se_switcher_open := False,
        se_logouts := se_logouts s - 1\<rparr>)"
      using core by (simp add: session_core_def loading_def)
    with LogoutAnswered core_enters show ?thesis by (simp add: Let_def split_beta)
  next
    case (LoginFailed m)
    with env obtain e where "fst (handle_session resolve s (LoginFailed m)) =
        s\<lparr>se_login_error := e, se_submitted := None\<rparr>" by (auto simp: loading_def)
    with core LoginFailed show ?thesis by (simp add: session_core_def loading_def)
  next
    case (Navigate p)
    with core core_enters show ?thesis by simp
  next
    case (Reload p)
    with boot_core [OF rr] show ?thesis by simp
  next
    case SessionExpired
    with boot_core [OF rr] show ?thesis by simp
  next
    case (RefreshOk u t)
    with core env show ?thesis by (simp add: session_core_def loading_def)
  next
    case RefreshFailed
    with core env show ?thesis by (simp add: session_core_def loading_def)
  next
    case (Fetch k)
    with core show ?thesis by (simp add: session_core_def loading_def split: option.split)
  qed (use core env in \<open>simp_all add: session_core_def loading_def\<close>)
qed

lemma session_view_core:
  assumes core: "session_core resolve s" and "fires (session_view resolve s) e"
  shows "session_core resolve (fst (handle_session resolve s e))"
  using assms(2)
proof (cases rule: session_view_fires)
  case login
  with core show ?thesis
    by (auto simp: login_view_def core_fields session_core_def current_screen_def loading_def)
next
  case unreachable
  with core show ?thesis by (simp add: boot_core core_routes)
next
  case (sidebar r)
  then show ?thesis using core core_enters by (auto simp: sidebar_view_def fires_map)
next
  case (top_bar r)
  with core show ?thesis
    by (auto simp: top_bar_view_def cluster_switcher_view_def fires_map core_fields Let_def
        split: if_splits option.splits)
qed

lemma session_event_inv:
  "session_inv resolve s \<Longrightarrow> fires (session_view resolve s) e \<or> session_env resolve s e \<Longrightarrow>
   session_inv resolve (fst (session_handle resolve s e))"
  using session_env_core [of resolve s e] session_view_core [of resolve s e]
  by (auto simp: session_inv_def session_handle_def cluster_known_def cluster_fallback_def Let_def
      split_beta core_fields split: option.splits)

lemma enter_effects: "f \<in> set (snd (enter resolve p s)) \<Longrightarrow> f = PostRefresh"
  by (simp add: enter_def split: if_splits option.splits)

lemma session_env_ok:
  assumes "session_env resolve s e" "f \<in> set (snd (handle_session resolve s e))"
  shows "session_ok s f"
proof (cases e)
  case (LoginFailed m)
  with assms show ?thesis by (cases "se_submitted s") auto
next
  case LogoutAnswered
  with assms show ?thesis by (auto simp: Let_def split_beta dest: enter_effects)
next
  case FollowRedirect
  with assms show ?thesis using enter_effects by fastforce
next
  case (Fetch k)
  with assms show ?thesis by (auto split: option.splits)
qed (use assms in \<open>auto simp: boot_def dest: enter_effects\<close>)

lemma session_view_ok:
  assumes "session_core resolve s" "fires (session_view resolve s) e"
    "f \<in> set (snd (handle_session resolve s e))"
  shows "session_ok s f"
  using assms(2)
proof (cases rule: session_view_fires)
  case login
  with assms(1,3) show ?thesis
    by (auto simp: login_view_def session_core_def current_screen_def)
next
  case unreachable
  with assms(3) show ?thesis by (auto simp: boot_def dest: enter_effects)
next
  case (sidebar r)
  with assms(3) enter_effects show ?thesis by (fastforce simp: sidebar_view_def fires_map)
next
  case (top_bar r)
  with assms(3) show ?thesis
    by (auto simp: top_bar_view_def cluster_switcher_view_def fires_map Let_def split: if_splits)
qed

interpretation session: ui_contract "session_view resolve" "session_env resolve"
  "session_handle resolve" "session_inv resolve" session_ok
  for resolve
proof
  fix s e f
  assume inv: "session_inv resolve s" and e: "fires (session_view resolve s) e \<or> session_env resolve s e"
  then show "session_inv resolve (fst (session_handle resolve s e))" by (rule session_event_inv)
  assume "f \<in> set (snd (session_handle resolve s e))"
  then show "session_ok s f"
    using inv e session_env_ok session_view_ok
    by (simp add: session_handle_def Let_def split_beta session_inv_def) blast
qed

section \<open>Properties\<close>

text \<open>The guards: whatever the session, a page of the application is shown only to a signed-in
  user, the settings and the audit log only to an instance admin, and only for its own path.\<close>

theorem pages_guarded:
  assumes "current_screen resolve s = Page r"
  shows "resolve (se_path s) = r \<and> as_user (se_auth s) \<noteq> None \<and>
    (r \<in> {R_settings, R_audit_log} \<longrightarrow> is_instance_admin (se_auth s)) \<and>
    \<not> backend_unreachable (se_health s)"
proof -
  have "\<not> backend_unreachable (se_health s)"
    using assms by (cases "resolve (se_path s)") (auto simp: current_screen_def guard_defs split: if_splits)
  with app_inside [OF assms [unfolded current_screen_def]] show ?thesis by blast
qed

definition demo_resolve :: "string \<Rightarrow> route" where
  "demo_resolve p = (case map_of route_table p of Some r \<Rightarrow> r | None \<Rightarrow> R_not_found)"

lemma demo_resolves: "resolves_routes demo_resolve"
  by (simp add: resolves_routes_def demo_resolve_def route_table_def)

definition demo_session :: "role \<Rightarrow> string \<Rightarrow> session" where
  "demo_session r p = (fst (boot demo_resolve p ''local''))
     \<lparr>se_auth := set_auth \<lparr>au_username = ''ann'', au_roles = [(INSTANCE_SCOPE, r)]\<rparr> ''t'' auth_init,
      se_checking := Some False, se_health := HealthOk\<rparr>"

lemmas demo_defs = demo_session_def boot_def enter_def demo_resolve_def route_table_def set_auth_def
  auth_init_def is_instance_admin_def role_for_def

theorem pages_guarded_witness:
  "is_instance_admin (se_auth (demo_session Admin ''/audit-log''))"
proof -
  have "current_screen demo_resolve (demo_session Admin ''/audit-log'') = Page R_audit_log"
    by (simp add: demo_defs current_screen_def guard_defs backend_unreachable_def)
  from pages_guarded [OF this] show ?thesis by simp
qed

text \<open>C37. The redirects end: once the session is checked and the backend has answered, following
  redirects at most three times reaches a page, the login page (for nobody signed in) or the
  notice that the backend is unreachable.\<close>

definition follow :: "(string \<Rightarrow> route) \<Rightarrow> session \<Rightarrow> session" where
  "follow resolve s = (case current_screen resolve s of
     Redirect p \<Rightarrow> fst (session_handle resolve s FollowRedirect) | _ \<Rightarrow> s)"

lemma follow_unchanged [simp]:
  "se_auth (follow resolve s) = se_auth s" "se_health (follow resolve s) = se_health s"
  by (auto simp: follow_def session_handle_def split_beta Let_def split: screen.splits)

lemma follow_redirect:
  "current_screen resolve s = Redirect p \<Longrightarrow> se_path (follow resolve s) = p"
  by (auto simp: follow_def session_handle_def split_beta Let_def split: screen.splits)

lemma follow_stays:
  "(\<And>p. current_screen resolve s \<noteq> Redirect p) \<Longrightarrow> follow resolve s = s"
  by (simp add: follow_def split: screen.split)

lemma follow_checking:
  assumes "se_checking s \<noteq> Some True" "as_user (se_auth s) \<noteq> None \<or> resolve (se_path (follow resolve s)) = R_login"
  shows "se_checking (follow resolve s) \<noteq> Some True"
proof (cases "\<exists>p. current_screen resolve s = Redirect p")
  case True
  then obtain p where p: "current_screen resolve s = Redirect p" ..
  with assms follow_redirect [OF p] have "se_checking (fst (enter resolve p s)) \<noteq> Some True"
    by (intro enter_settled) simp_all
  with p show ?thesis by (simp add: follow_def session_handle_def split_beta Let_def)
next
  case False
  with assms(1) show ?thesis by (simp add: follow_stays)
qed

lemma follow_anonymous:
  assumes "resolves_routes resolve" "se_checking s \<noteq> Some True" "as_user (se_auth s) = None"
  shows "current_screen resolve (follow resolve s) = LoginScreen"
proof (cases "\<exists>p. current_screen resolve s = Redirect p")
  case True
  then obtain p where p: "current_screen resolve s = Redirect p" ..
  with app_redirect [OF p [unfolded current_screen_def]] assms(3) have "p = ''/login''" by simp
  with follow_redirect [OF p] resolves_routes_simps(1) [OF assms(1)] show ?thesis
    by (simp add: current_screen_def)
next
  case False
  then have "resolve (se_path s) = R_login"
    using assms(2,3) by (cases "resolve (se_path s)") (auto simp: current_screen_def guard_defs)
  with False show ?thesis by (simp add: follow_stays current_screen_def)
qed

lemma dashboard_screen:
  assumes "resolves_routes resolve" "se_checking s \<noteq> Some True" "as_user (se_auth s) \<noteq> None"
    "se_health s \<noteq> HealthPending" "se_path s = ''/dashboard''"
  shows "current_screen resolve s \<in> {Page R_dashboard, BackendUnreachable}"
  using assms resolves_routes_simps(3) [OF assms(1)] by (simp add: current_screen_def guard_defs)

lemma index_screen:
  assumes "resolves_routes resolve" "se_checking s \<noteq> Some True" "as_user (se_auth s) \<noteq> None"
    "se_health s \<noteq> HealthPending" "se_path s = ''/''"
  shows "current_screen resolve s \<in> {Redirect ''/dashboard'', BackendUnreachable}"
  using assms resolves_routes_simps(2) [OF assms(1)] by (simp add: current_screen_def guard_defs)

definition settled_screen :: "screen \<Rightarrow> bool" where
  "settled_screen sc = (case sc of Page r \<Rightarrow> True | LoginScreen \<Rightarrow> True | BackendUnreachable \<Rightarrow> True | _ \<Rightarrow> False)"

lemma follow_settled: "settled_screen (current_screen resolve s) \<Longrightarrow> follow resolve s = s"
  by (rule follow_stays) (auto simp: settled_screen_def)

lemma signed_in_screen:
  assumes "se_checking s \<noteq> Some True" "as_user (se_auth s) \<noteq> None" "se_health s \<noteq> HealthPending"
  shows "settled_screen (current_screen resolve s) \<or>
    current_screen resolve s \<in> {Redirect ''/'', Redirect ''/dashboard''}"
  using assms
  by (cases "resolve (se_path s)") (auto simp: current_screen_def guard_defs settled_screen_def)

lemma follow_signed_in:
  assumes "resolves_routes resolve" "se_checking s \<noteq> Some True" "as_user (se_auth s) \<noteq> None"
    "se_health s \<noteq> HealthPending"
  shows "se_checking (follow resolve s) \<noteq> Some True"
    "current_screen resolve s = Redirect ''/dashboard'' \<Longrightarrow>
       settled_screen (current_screen resolve (follow resolve s))"
    "current_screen resolve s = Redirect ''/'' \<Longrightarrow>
       settled_screen (current_screen resolve (follow resolve s)) \<or>
       current_screen resolve (follow resolve s) = Redirect ''/dashboard''"
proof -
  show ch: "se_checking (follow resolve s) \<noteq> Some True"
    by (rule follow_checking) (use assms in simp_all)
  show "settled_screen (current_screen resolve (follow resolve s))"
    if "current_screen resolve s = Redirect ''/dashboard''"
    using dashboard_screen [OF assms(1) ch] follow_redirect [OF that] assms(3,4)
    by (auto simp: settled_screen_def)
  show "settled_screen (current_screen resolve (follow resolve s)) \<or>
       current_screen resolve (follow resolve s) = Redirect ''/dashboard''"
    if "current_screen resolve s = Redirect ''/''"
    using index_screen [OF assms(1) ch] follow_redirect [OF that] assms(3,4)
    by (auto simp: settled_screen_def)
qed

theorem redirects_settle:
  assumes "resolves_routes resolve" "se_checking s \<noteq> Some True" "se_health s \<noteq> HealthPending"
  shows "let t = (follow resolve ^^ 3) s in se_auth t = se_auth s \<and>
    settled_screen (current_screen resolve t) \<and>
    (as_user (se_auth s) = None \<longrightarrow> current_screen resolve t = LoginScreen)"
proof -
  let ?f = "follow resolve"
  have three: "(?f ^^ 3) s = ?f (?f (?f s))" by (simp add: numeral_3_eq_3)
  show ?thesis
  proof (cases "as_user (se_auth s)")
    case None
    have "current_screen resolve (?f s) = LoginScreen" by (rule follow_anonymous [OF assms(1,2) None])
    with three show ?thesis by (simp add: settled_screen_def follow_settled)
  next
    case (Some u)
    then have u: "as_user (se_auth s) \<noteq> None" by simp
    note step = follow_signed_in [OF assms(1,2) u assms(3)]
    note step2 = follow_signed_in(2) [OF assms(1) step(1)]
    from signed_in_screen [OF assms(2) u assms(3), of resolve] step(2,3) step2 u assms(3)
    have "settled_screen (current_screen resolve (?f (?f s)))"
      by (auto simp: follow_settled)
    with three Some show ?thesis by (simp add: follow_settled)
  qed
qed

theorem redirects_settle_witness:
  "current_screen demo_resolve ((follow demo_resolve ^^ 3) (demo_session Viewer ''/settings''))
     = Page R_dashboard"
proof -
  let ?s = "demo_session Viewer ''/settings''"
  have "settled_screen (current_screen demo_resolve ((follow demo_resolve ^^ 3) ?s))"
    using redirects_settle [OF demo_resolves, of ?s] by (simp add: demo_session_def Let_def)
  then show ?thesis
    by (simp add: numeral_3_eq_3 follow_def session_handle_def current_screen_def demo_defs guard_defs
        backend_unreachable_def cluster_fallback_def INSTANCE_SCOPE_def Let_def)
qed

text \<open>The condition of isolation: nobody else comes in while somebody is signed in. The login page and the
  session check do not look whether the store holds a user when they are answered.\<close>

fun newcomer :: "session_event \<Rightarrow> auth_user option" where
  "newcomer (LoginOk u t) = Some u"
| "newcomer (LateLoginOk u t) = Some u"
| "newcomer (RefreshOk u t) = Some u"
| "newcomer (LateRefreshOk u t) = Some u"
| "newcomer _ = None"

definition orderly :: "session \<Rightarrow> session_event \<Rightarrow> bool" where
  "orderly s e \<longleftrightarrow> (case (newcomer e, as_user (se_auth s)) of
     (Some u, Some v) \<Rightarrow> au_username u = au_username v | _ \<Rightarrow> True)"

text \<open>Every answer of the cache, and every query in flight, belongs to the user who is signed in.\<close>

definition cache_owned :: "session \<Rightarrow> bool" where
  "cache_owned s \<longleftrightarrow> (\<forall>owner\<in>snd ` set (se_cached s @ se_flying s).
     map_option au_username (as_user (se_auth s)) = Some owner)"

lemma cache_owned_cong:
  assumes "cache_owned s" "set (se_cached t @ se_flying t) \<subseteq> set (se_cached s @ se_flying s)"
    and "as_user (se_auth s) = None \<or>
      map_option au_username (as_user (se_auth t)) = map_option au_username (as_user (se_auth s))"
  shows "cache_owned t"
  using assms by (fastforce simp: cache_owned_def)

lemma cache_owned_enter [simp]: "cache_owned (fst (enter resolve p s)) = cache_owned s"
  by (simp add: cache_owned_def)

lemma cache_owned_fresh: "se_cached s = [] \<Longrightarrow> se_flying s = [] \<Longrightarrow> cache_owned s"
  by (simp add: cache_owned_def)

lemma owned_event:
  assumes "cache_owned s" "orderly s e" "\<And>k owner. e = Cached k owner \<Longrightarrow> (k, owner) \<in> set (se_flying s)"
  shows "cache_owned (fst (handle_session resolve s e))"
proof (cases e)
  case (Cached k owner)
  with assms(3) have "set (remove1 (k, owner) (se_flying s)) \<union> {(k, owner)} \<subseteq> set (se_flying s)"
    using set_remove1_subset [of "(k, owner)" "se_flying s"] by simp
  with Cached show ?thesis by (auto intro!: cache_owned_cong [OF assms(1)])
next
  case (Fetch k)
  show ?thesis
  proof (cases "as_user (se_auth s)")
    case (Some u)
    with assms(1) Fetch show ?thesis by (fastforce simp: cache_owned_def)
  qed (use assms(1) Fetch in simp)
next
  case LogoutAnswered
  then show ?thesis by (simp add: Let_def split_beta cache_owned_fresh)
next
  case (LoginFailed m)
  have "cache_owned (fst (handle_login resolve s (LoginFailed m)))"
    by (rule cache_owned_cong [OF assms(1)]) (auto split: option.split)
  with LoginFailed show ?thesis by simp
next
  case FollowRedirect
  with assms(1) show ?thesis by (simp split: screen.split)
next
  case (Reload p)
  then show ?thesis by (simp add: cache_owned_fresh)
next
  case SessionExpired
  then show ?thesis by (simp add: cache_owned_fresh)
qed (use assms(1,2) in \<open>auto simp: orderly_def set_auth_def set_access_token_def
    intro!: cache_owned_cong [OF assms(1)] split: option.splits\<close>)

lemma view_events:
  assumes "fires (session_view resolve s) e"
  shows "newcomer e = None \<and> (\<forall>k owner. e \<noteq> Cached k owner)"
  using assms
proof (cases rule: session_view_fires)
  case (top_bar r)
  then show ?thesis
    by (auto simp: top_bar_view_def cluster_switcher_view_def fires_map Let_def split: if_splits)
qed (auto simp: login_view_def sidebar_view_def fires_map)

interpretation orderly_session: ui_contract "session_view resolve" "\<lambda>s e. session_env resolve s e \<and> orderly s e"
  "session_handle resolve" "\<lambda>s. session_inv resolve s \<and> cache_owned s" session_ok
  for resolve
proof
  fix s e f
  assume inv: "session_inv resolve s \<and> cache_owned s"
    and e: "fires (session_view resolve s) e \<or> (session_env resolve s e \<and> orderly s e)"
  have "orderly s e" using e view_events [of resolve s e] by (auto simp: orderly_def)
  moreover have "(k, owner) \<in> set (se_flying s)" if "e = Cached k owner" for k owner
    using e view_events [of resolve s e] that by auto
  ultimately have "cache_owned (fst (handle_session resolve s e))" using inv owned_event by blast
  then have "cache_owned (fst (session_handle resolve s e))"
    by (simp add: session_handle_def split_beta Let_def cache_owned_def)
  with inv e show "session_inv resolve (fst (session_handle resolve s e)) \<and> cache_owned (fst (session_handle resolve s e))"
    using session.inv_event [of resolve s e] by blast
  assume "f \<in> set (snd (session_handle resolve s e))"
  with inv e show "session_ok s f" using session.ok_event [of resolve s e f] by blast
qed


definition ann :: auth_user where
  "ann = \<lparr>au_username = ''ann'', au_roles = []\<rparr>"

definition bob :: auth_user where
  "bob = \<lparr>au_username = ''bob'', au_roles = [(''local'', Viewer)]\<rparr>"

lemma names [simp]: "au_username ann = ''ann''" "au_username bob = ''bob''"
  by (simp_all add: ann_def bob_def)

text \<open>Ann signs in, one of two queries is answered, she signs out, goes back in the history and meets the login page
  again, where Bob signs in.\<close>

definition two_sessions :: "session_event list" where
  "two_sessions = [SetUsername ''ann'', Submit, LoginOk ann ''t1'', HealthAnswered HealthOk,
     FollowRedirect, Fetch [JStr ''my-link''], Fetch [JStr ''users''], Cached [JStr ''my-link''] ''ann'',
     AskLogout, ConfirmLogout, LogoutAnswered, Navigate ''/users'', RefreshFailed, FollowRedirect,
     SetUsername ''bob'', Submit, LoginOk bob ''t2'', Fetch [JStr ''users'']]"

lemmas session_eval = demo_defs boot_def session_handle_def session_view_def login_view_def
  sidebar_view_def top_bar_view_def cluster_switcher_view_def current_screen_def guard_defs
  backend_unreachable_def cluster_fallback_def loading_def store_defs Let_def

lemma two_sessions_playable:
  "playable (session_view demo_resolve) (\<lambda>s e. session_env demo_resolve s e \<and> orderly s e) (session_handle demo_resolve)
     (fst (boot demo_resolve ''/login'' ''local'')) two_sessions"
  by (simp add: two_sessions_def session_eval orderly_def)

lemma two_sessions_end:
  "as_user (se_auth (play (session_handle demo_resolve)
     (fst (boot demo_resolve ''/login'' ''local'')) two_sessions)) = Some bob"
  by (simp add: two_sessions_def session_eval)


text \<open>Without the condition they do leak: a login page left in the history signs Bob in over Ann, and what was
  fetched for Ann is in the cache of Bob.\<close>

definition taken_over :: "session_event list" where
  "taken_over = [SetUsername ''ann'', Submit, LoginOk ann ''t1'', HealthAnswered HealthOk, FollowRedirect,
     Fetch [JStr ''my-link''], Cached [JStr ''my-link''] ''ann'', Navigate ''/login'',
     SetUsername ''bob'', Submit, LoginOk bob ''t2'']"

theorem sign_in_over_session_leaks:
  "playable (session_view demo_resolve) (session_env demo_resolve) (session_handle demo_resolve)
     (fst (boot demo_resolve ''/login'' ''local'')) taken_over \<and>
   (let s = play (session_handle demo_resolve) (fst (boot demo_resolve ''/login'' ''local'')) taken_over in
    as_user (se_auth s) = Some bob \<and> se_cached s = [([JStr ''my-link''], ''ann'')])"
proof
  show "playable (session_view demo_resolve) (session_env demo_resolve) (session_handle demo_resolve)
     (fst (boot demo_resolve ''/login'' ''local'')) taken_over"
    by (simp add: taken_over_def session_eval)
  show "let s = play (session_handle demo_resolve) (fst (boot demo_resolve ''/login'' ''local'')) taken_over in
    as_user (se_auth s) = Some bob \<and> se_cached s = [([JStr ''my-link''], ''ann'')]"
    by (simp add: taken_over_def session_eval)
qed

text \<open>No dead link: for a signed-in user with the backend up, every link of the sidebar opens the
  page of its path, none is redirected; pages of a single cluster are only linked for a user who
  has a role on some cluster.\<close>

theorem sidebar_links_open:
  assumes "session_inv resolve s" "current_screen resolve s = Page r"
    and "p \<in> set (visible_links (se_auth s))"
  shows "current_screen resolve (fst (session_handle resolve s (FollowLink p))) = Page (resolve p) \<and>
    (p \<in> set CLUSTER_SCOPED_LINKS \<longrightarrow> has_any_cluster_access (se_auth s))"
proof -
  have core: "session_core resolve s" using assms(1) by (simp add: session_inv_def)
  note page = screen_page [OF core assms(2)]
  note route = visible_links_routes [OF core_routes [OF core] assms(3)]
  have up: "se_health s \<noteq> HealthPending" "\<not> backend_unreachable (se_health s)"
    using assms(2) page
    by (cases "resolve (se_path s)"; auto simp: current_screen_def guard_defs split: if_splits)+
  have ch: "se_checking (fst (enter resolve p s)) \<noteq> Some True"
    using page route by (cases "se_checking s") (simp_all add: enter_checking)
  have "current_screen resolve (fst (enter resolve p s)) = Page (resolve p)"
    using route ch page up
    by (cases "resolve p") (auto simp: current_screen_def guard_defs)
  moreover have "has_any_cluster_access (se_auth s)" if "p \<in> set CLUSTER_SCOPED_LINKS"
  proof (rule ccontr)
    assume "\<not> has_any_cluster_access (se_auth s)"
    with assms(3) that show False
      by (auto simp: visible_links_def CLUSTER_SCOPED_LINKS_def split: if_splits)
  qed
  ultimately show ?thesis
    by (simp add: session_handle_def Let_def split_beta current_screen_def)
qed

theorem sidebar_links_open_witness:
  "current_screen demo_resolve
     (fst (session_handle demo_resolve (demo_session Admin ''/dashboard'') (FollowLink ''/settings'')))
   = Page R_settings"
proof -
  let ?s = "demo_session Admin ''/dashboard''"
  have "session_inv demo_resolve ?s"
    using demo_resolves by (simp add: session_inv_def session_core_def cluster_known_def
        demo_defs loading_def)
  moreover have "current_screen demo_resolve ?s = Page R_dashboard"
    by (simp add: session_eval)
  moreover have "''/settings'' \<in> set (visible_links (se_auth ?s))"
    by (simp add: visible_links_def session_eval)
  ultimately have "current_screen demo_resolve
      (fst (session_handle demo_resolve ?s (FollowLink ''/settings''))) = Page (demo_resolve ''/settings'')"
    using sidebar_links_open by blast
  then show ?thesis by (simp add: demo_resolve_def route_table_def)
qed

end
