(* ===== verification/Listing.thy ===== *)
theory Listing
  imports Systems Collections Hooks
begin

text \<open>
  The paged tables: \<^verbatim>\<open>components/ui/Pagination.tsx\<close>, \<^verbatim>\<open>components/rbac/RoleList.tsx\<close>,
  \<^verbatim>\<open>components/users/UserList.tsx\<close> and \<^verbatim>\<open>pages/AuditLogPage.tsx\<close>. The collation of
  \<open>localeCompare\<close> is the parameter \<open>collate\<close> (a consistent compare function), the reading of a
  date the parameter \<open>time_of\<close> (its milliseconds).
\<close>

section \<open>components/ui/Pagination.tsx\<close>

datatype page_item = PageNo nat | Ellipsis

definition total_pages :: "nat \<Rightarrow> nat \<Rightarrow> nat" where
  "total_pages tot pageSize = (tot + pageSize - 1) div pageSize"

definition shown_page :: "nat \<Rightarrow> nat \<Rightarrow> nat \<Rightarrow> bool" where
  "shown_page page n i = (i = 0 \<or> i = n - 1 \<or> \<bar>int i - int page\<bar> \<le> 1)"

definition page_step :: "nat \<Rightarrow> nat \<Rightarrow> page_item list \<Rightarrow> nat \<Rightarrow> page_item list" where
  "page_step page n pages i =
     (if shown_page page n i then pages @ [PageNo i]
      else if pages = [] \<or> last pages \<noteq> Ellipsis then pages @ [Ellipsis]
      else pages)"

definition page_items :: "nat \<Rightarrow> nat \<Rightarrow> page_item list" where
  "page_items page n = foldl (page_step page n) [] [0..<n]"

fun page_button :: "(nat \<Rightarrow> 'e) \<Rightarrow> page_item \<Rightarrow> 'e control list" where
  "page_button onChange Ellipsis = []"
| "page_button onChange (PageNo p) = [Press True (onChange p)]"

definition pagination_view :: "nat \<Rightarrow> nat \<Rightarrow> nat \<Rightarrow> (nat \<Rightarrow> 'e) \<Rightarrow> 'e control list" where
  "pagination_view page pageSize tot onChange =
     (let n = total_pages tot pageSize in
      if n \<le> 1 then []
      else Press (page \<noteq> 0) (onChange (page - 1)) #
        concat (map (page_button onChange) (page_items page n)) @
        [Press (\<not> n - 1 \<le> page) (onChange (page + 1))])"

definition pagination_range :: "nat \<Rightarrow> nat \<Rightarrow> nat \<Rightarrow> nat \<times> nat" where
  "pagination_range page pageSize tot = (page * pageSize + 1, min ((page + 1) * pageSize) tot)"

section \<open>State of a sorted table\<close>

datatype sort_dir = Asc | Desc

record 'c table_state =
  ts_expanded :: "string js_set"
  ts_sort_col :: 'c
  ts_sort_dir :: sort_dir
  ts_page :: nat

definition toggle_sort :: "'c \<Rightarrow> 'c table_state \<Rightarrow> 'c table_state" where
  "toggle_sort col s =
     (if ts_sort_col s = col
      then s\<lparr>ts_sort_dir := (case ts_sort_dir s of Asc \<Rightarrow> Desc | Desc \<Rightarrow> Asc), ts_page := 0\<rparr>
      else s\<lparr>ts_sort_col := col, ts_sort_dir := Asc, ts_page := 0\<rparr>)"

definition toggle_row :: "string \<Rightarrow> 'c table_state \<Rightarrow> 'c table_state" where
  "toggle_row name s = s\<lparr>ts_expanded := set_toggle (ts_expanded s) name\<rparr>"

definition directed :: "sort_dir \<Rightarrow> int \<Rightarrow> int" where
  "directed d cmp = (case d of Asc \<Rightarrow> cmp | Desc \<Rightarrow> - cmp)"

definition page_slice :: "nat \<Rightarrow> nat \<Rightarrow> 'a list \<Rightarrow> 'a list" where
  "page_slice pageSize p xs = js_slice xs (p * pageSize) ((p + 1) * pageSize)"

section \<open>components/rbac/RoleList.tsx\<close>

datatype role_col = RoleName | RoleRules | RoleStatus

record role_list_props =
  rl_roles :: "role_read list"
  rl_on_edit :: bool
  rl_on_copy :: bool
  rl_on_delete :: bool
  rl_on_create :: bool

definition role_page_size :: nat where
  "role_page_size = 25"

definition role_list_init :: "role_col table_state" where
  "role_list_init = \<lparr>ts_expanded = [], ts_sort_col = RoleName, ts_sort_dir = Asc, ts_page = 0\<rparr>"

definition bool_number :: "bool \<Rightarrow> int" where
  "bool_number b = (if b then 1 else 0)"

definition role_compare :: "(string \<Rightarrow> string \<Rightarrow> int) \<Rightarrow> role_col \<Rightarrow> role_read \<Rightarrow> role_read \<Rightarrow> int" where
  "role_compare collate col a b =
     (case col of
        RoleName \<Rightarrow> collate (rr_name a) (rr_name b)
      | RoleRules \<Rightarrow> int (length (rr_rules a)) - int (length (rr_rules b))
      | RoleStatus \<Rightarrow> bool_number (rr_is_system a) - bool_number (rr_is_system b))"

definition role_list_sorted ::
  "(string \<Rightarrow> string \<Rightarrow> int) \<Rightarrow> role_col table_state \<Rightarrow> role_read list \<Rightarrow> role_read list"
where
  "role_list_sorted collate s roles =
     js_sort (\<lambda>a b. directed (ts_sort_dir s) (role_compare collate (ts_sort_col s) a b)) roles"

definition role_list_rows ::
  "(string \<Rightarrow> string \<Rightarrow> int) \<Rightarrow> role_col table_state \<Rightarrow> role_read list \<Rightarrow> role_read list"
where
  "role_list_rows collate s roles = page_slice role_page_size (ts_page s) (role_list_sorted collate s roles)"

datatype role_list_event =
  RL_sort role_col | RL_toggle string | RL_page nat
| RL_edit role_read | RL_copy role_read | RL_delete role_read | RL_create

datatype role_list_effect = OnEdit role_read | OnCopy role_read | OnDelete role_read | OnCreateClick

fun role_list_handle ::
  "role_col table_state \<Rightarrow> role_list_event \<Rightarrow> role_col table_state \<times> role_list_effect list"
where
  "role_list_handle s (RL_sort col) = (toggle_sort col s, [])"
| "role_list_handle s (RL_toggle name) = (toggle_row name s, [])"
| "role_list_handle s (RL_page p) = (s\<lparr>ts_page := p\<rparr>, [])"
| "role_list_handle s (RL_edit r) = (s, [OnEdit r])"
| "role_list_handle s (RL_copy r) = (s, [OnCopy r])"
| "role_list_handle s (RL_delete r) = (s, [OnDelete r])"
| "role_list_handle s RL_create = (s, [OnCreateClick])"

definition role_row_view :: "role_list_props \<Rightarrow> role_read \<Rightarrow> role_list_event control list" where
  "role_row_view props r =
     [Press True (RL_toggle (rr_name r))] @
     (if rl_on_copy props then [Press True (RL_copy r)] else []) @
     (if \<not> rr_is_system r \<and> rl_on_edit props then [Press True (RL_edit r)] else []) @
     (if \<not> rr_is_system r \<and> rl_on_delete props then [Press True (RL_delete r)] else [])"

definition role_list_view ::
  "(string \<Rightarrow> string \<Rightarrow> int) \<Rightarrow> role_list_props \<Rightarrow> role_col table_state \<Rightarrow> role_list_event control list"
where
  "role_list_view collate props s =
     (if rl_roles props = []
      then (if rl_on_create props then [Press True RL_create] else [])
      else map (\<lambda>c. Press True (RL_sort c)) [RoleName, RoleRules, RoleStatus] @
        concat (map (role_row_view props) (role_list_rows collate s (rl_roles props))) @
        pagination_view (ts_page s) role_page_size (length (rl_roles props)) RL_page)"

section \<open>components/users/UserList.tsx\<close>

datatype user_col = UserName | UserType | UserCreated

record user_list_props =
  ul_users :: "user list"
  ul_on_create :: bool
  ul_can_write :: bool

definition user_page_size :: nat where
  "user_page_size = 20"

definition user_list_init :: "user_col table_state" where
  "user_list_init = \<lparr>ts_expanded = [], ts_sort_col = UserName, ts_sort_dir = Asc, ts_page = 0\<rparr>"

definition user_compare ::
  "(string \<Rightarrow> string \<Rightarrow> int) \<Rightarrow> (string \<Rightarrow> int) \<Rightarrow> user_col \<Rightarrow> user \<Rightarrow> user \<Rightarrow> int"
where
  "user_compare collate time_of col a b =
     (case col of
        UserName \<Rightarrow> collate (u_name a) (u_name b)
      | UserType \<Rightarrow> collate (user_type_string (u_user_type a)) (user_type_string (u_user_type b))
      | UserCreated \<Rightarrow> time_of (u_created_at a) - time_of (u_created_at b))"

definition user_list_sorted ::
  "(string \<Rightarrow> string \<Rightarrow> int) \<Rightarrow> (string \<Rightarrow> int) \<Rightarrow> user_col table_state \<Rightarrow> user list \<Rightarrow> user list"
where
  "user_list_sorted collate time_of s users =
     js_sort (\<lambda>a b. directed (ts_sort_dir s) (user_compare collate time_of (ts_sort_col s) a b)) users"

definition user_list_rows ::
  "(string \<Rightarrow> string \<Rightarrow> int) \<Rightarrow> (string \<Rightarrow> int) \<Rightarrow> user_col table_state \<Rightarrow> user list \<Rightarrow> user list"
where
  "user_list_rows collate time_of s users =
     page_slice user_page_size (ts_page s) (user_list_sorted collate time_of s users)"

text \<open>\<open>ExpiryBadge\<close>: whole days left, by which the badge is chosen.\<close>

datatype expiry_badge = ExpiredBadge | DangerDays int | WarningDays int | SuccessDays int

definition expiry_badge :: "int \<Rightarrow> int \<Rightarrow> expiry_badge" where
  "expiry_badge expiry now =
     (let days = (expiry - now) div 86400000 in
      if days < 0 then ExpiredBadge
      else if days < 30 then DangerDays days
      else if days < 90 then WarningDays days
      else SuccessDays days)"

datatype user_list_event =
  UL_sort user_col | UL_toggle string | UL_page nat
| UL_kubeconfig user | UL_delete user | UL_create

datatype user_list_effect = OnKubeconfig user | OnDeleteUser user | OnCreateUserClick

fun user_list_handle ::
  "user_col table_state \<Rightarrow> user_list_event \<Rightarrow> user_col table_state \<times> user_list_effect list"
where
  "user_list_handle s (UL_sort col) = (toggle_sort col s, [])"
| "user_list_handle s (UL_toggle name) = (toggle_row name s, [])"
| "user_list_handle s (UL_page p) = (s\<lparr>ts_page := p\<rparr>, [])"
| "user_list_handle s (UL_kubeconfig u) = (s, [OnKubeconfig u])"
| "user_list_handle s (UL_delete u) = (s, [OnDeleteUser u])"
| "user_list_handle s UL_create = (s, [OnCreateUserClick])"

definition user_row_view :: "user_list_props \<Rightarrow> user \<Rightarrow> user_list_event control list" where
  "user_row_view props u =
     [Press True (UL_toggle (u_name u)), Press True (UL_kubeconfig u)] @
     (if ul_can_write props then [Press True (UL_delete u)] else [])"

definition user_list_view ::
  "(string \<Rightarrow> string \<Rightarrow> int) \<Rightarrow> (string \<Rightarrow> int) \<Rightarrow> user_list_props \<Rightarrow> user_col table_state \<Rightarrow>
   user_list_event control list"
where
  "user_list_view collate time_of props s =
     (if ul_users props = []
      then (if ul_on_create props \<and> ul_can_write props then [Press True UL_create] else [])
      else map (\<lambda>c. Press True (UL_sort c)) [UserName, UserType, UserCreated] @
        concat (map (user_row_view props) (user_list_rows collate time_of s (ul_users props))) @
        pagination_view (ts_page s) user_page_size (length (ul_users props)) UL_page)"

text \<open>The users whose permissions panel is open.\<close>

definition open_panels ::
  "(string \<Rightarrow> string \<Rightarrow> int) \<Rightarrow> (string \<Rightarrow> int) \<Rightarrow> user_col table_state \<Rightarrow> user list \<Rightarrow> user list"
where
  "open_panels collate time_of s users =
     filter (\<lambda>u. set_has (ts_expanded s) (u_name u)) (user_list_rows collate time_of s users)"

section \<open>pages/AuditLogPage.tsx\<close>

text \<open>\<open>ap_timer\<close>: the debounce timer of the two text filters is running; an edit restarts it. Dates of
  the export are the inputs' values. The modal shows the payload of one entry.\<close>

definition audit_page_size :: nat where
  "audit_page_size = 25"

record audit_entry =
  ae_id :: string
  ae_payload :: "jsval option"

record audit_page =
  ap_actor :: string
  ap_path_contains :: string
  ap_debounced_actor :: string
  ap_debounced_path_contains :: string
  ap_from_date :: string
  ap_to_date :: string
  ap_offset :: nat
  ap_payload_target :: "audit_entry option"
  ap_timer :: bool

definition audit_page_init :: audit_page where
  "audit_page_init = \<lparr>ap_actor = [], ap_path_contains = [], ap_debounced_actor = [],
     ap_debounced_path_contains = [], ap_from_date = [], ap_to_date = [], ap_offset = 0,
     ap_payload_target = None, ap_timer = True\<rparr>"

datatype audit_event =
  AP_actor string | AP_path string | AP_from string | AP_to string | AP_timer | AP_export
| AP_prev | AP_next | AP_refresh | AP_view audit_entry | AP_close

datatype audit_effect = ExportAudit audit_log_export_query | InvalidateAudit

definition audit_query :: "audit_page \<Rightarrow> audit_log_query" where
  "audit_query s = \<lparr>al_limit = audit_page_size, al_offset = ap_offset s,
     al_actor = or_undef (ap_debounced_actor s),
     al_path_contains = or_undef (ap_debounced_path_contains s)\<rparr>"

fun audit_handle :: "audit_page \<Rightarrow> audit_event \<Rightarrow> audit_page \<times> audit_effect list" where
  "audit_handle s (AP_actor v) =
     (s\<lparr>ap_actor := v, ap_timer := (ap_timer s \<or> v \<noteq> ap_actor s)\<rparr>, [])"
| "audit_handle s (AP_path v) =
     (s\<lparr>ap_path_contains := v, ap_timer := (ap_timer s \<or> v \<noteq> ap_path_contains s)\<rparr>, [])"
| "audit_handle s (AP_from v) = (s\<lparr>ap_from_date := v\<rparr>, [])"
| "audit_handle s (AP_to v) = (s\<lparr>ap_to_date := v\<rparr>, [])"
| "audit_handle s AP_timer =
     (s\<lparr>ap_debounced_actor := ap_actor s, ap_debounced_path_contains := ap_path_contains s,
        ap_offset := 0, ap_timer := False\<rparr>, [])"
| "audit_handle s AP_export =
     (s, [ExportAudit \<lparr>ax_from = or_undef (ap_from_date s), ax_to = or_undef (ap_to_date s),
            ax_actor = or_undef (ap_actor s), ax_path_contains = or_undef (ap_path_contains s)\<rparr>])"
| "audit_handle s AP_prev = (s\<lparr>ap_offset := ap_offset s - audit_page_size\<rparr>, [])"
| "audit_handle s AP_next = (s\<lparr>ap_offset := ap_offset s + audit_page_size\<rparr>, [])"
| "audit_handle s AP_refresh = (s, [InvalidateAudit])"
| "audit_handle s (AP_view e) = (s\<lparr>ap_payload_target := Some e\<rparr>, [])"
| "audit_handle s AP_close = (s\<lparr>ap_payload_target := None\<rparr>, [])"

definition audit_view ::
  "bool \<Rightarrow> bool \<Rightarrow> audit_entry list \<Rightarrow> nat \<Rightarrow> audit_page \<Rightarrow> audit_event control list"
where
  "audit_view isLoading exporting items tot s =
     [Press True AP_refresh, Input True (ap_actor s) AP_actor, Input True (ap_path_contains s) AP_path,
      Input True (ap_from_date s) AP_from, Input True (ap_to_date s) AP_to,
      Press (\<not> exporting) AP_export] @
     (if isLoading then []
      else concat (map (\<lambda>e. if ae_payload e \<noteq> None then [Press True (AP_view e)] else []) items)) @
     (if 0 < tot
      then [Press (ap_offset s \<noteq> 0) AP_prev, Press (\<not> tot \<le> ap_offset s + audit_page_size) AP_next]
      else []) @
     (if ap_payload_target s \<noteq> None then [Press True AP_close] else [])"

section \<open>Lemmas: pagination\<close>

text \<open>What the loop computes, written without a loop: the pages shown, in order, with one
  ellipsis wherever a page between two of them is left out.\<close>

fun with_gaps :: "nat list \<Rightarrow> page_item list" where
  "with_gaps (i # j # is) =
     PageNo i # (if j = Suc i then [] else [Ellipsis]) @ with_gaps (j # is)"
| "with_gaps [i] = [PageNo i]"
| "with_gaps [] = []"

lemma with_gaps_snoc:
  "xs \<noteq> [] \<Longrightarrow> with_gaps (xs @ [m]) =
     with_gaps xs @ (if m = Suc (last xs) then [] else [Ellipsis]) @ [PageNo m]"
  by (induction xs rule: with_gaps.induct) auto

lemma with_gaps_last: "xs \<noteq> [] \<Longrightarrow> with_gaps xs \<noteq> [] \<and> last (with_gaps xs) = PageNo (last xs)"
  by (induction xs rule: with_gaps.induct) auto

lemma last_filter_upt:
  assumes "P 0" "0 < m"
  shows "filter P [0..<m] \<noteq> []" "last (filter P [0..<m]) < m"
    "P (m - 1) \<longleftrightarrow> last (filter P [0..<m]) = m - 1"
proof -
  show ne: "filter P [0..<m] \<noteq> []" using assms by (auto simp: filter_empty_conv)
  from last_in_set [OF ne] show "last (filter P [0..<m]) < m" by simp
  show "P (m - 1) \<longleftrightarrow> last (filter P [0..<m]) = m - 1"
  proof
    assume "P (m - 1)"
    moreover have "[0..<m] = [0..<m - 1] @ [m - 1]" using assms(2) by (cases m) auto
    ultimately show "last (filter P [0..<m]) = m - 1" by simp
  next
    assume "last (filter P [0..<m]) = m - 1"
    with last_in_set [OF ne] show "P (m - 1)" by simp
  qed
qed

lemma page_loop:
  "0 < m \<Longrightarrow> foldl (page_step p n) [] [0..<m] =
     with_gaps (filter (shown_page p n) [0..<m]) @ (if shown_page p n (m - 1) then [] else [Ellipsis])"
proof (induction m)
  case (Suc m)
  have zero: "shown_page p n 0" by (simp add: shown_page_def)
  show ?case
  proof (cases "m = 0")
    case True
    with zero show ?thesis by (simp add: page_step_def)
  next
    case False
    then have IH: "foldl (page_step p n) [] [0..<m] =
       with_gaps (filter (shown_page p n) [0..<m]) @ (if shown_page p n (m - 1) then [] else [Ellipsis])"
      using Suc.IH by simp
    let ?xs = "filter (shown_page p n) [0..<m]"
    note last = last_filter_upt [of "shown_page p n" m, OF zero]
    from False have m: "m = Suc (last ?xs) \<longleftrightarrow> shown_page p n (m - 1)" using last(3) by auto
    have ne: "with_gaps ?xs \<noteq> []" "last (with_gaps ?xs) \<noteq> Ellipsis"
      using with_gaps_last [OF last(1)] False by auto
    have step: "foldl (page_step p n) [] [0..<Suc m] =
        page_step p n (with_gaps ?xs @ (if shown_page p n (m - 1) then [] else [Ellipsis])) m"
      by (simp add: IH del: One_nat_def)
    show ?thesis
    proof (cases "shown_page p n m")
      case True
      then have f: "filter (shown_page p n) [0..<Suc m] = ?xs @ [m]" by simp
      have "with_gaps (?xs @ [m]) =
          with_gaps ?xs @ (if shown_page p n (m - 1) then [] else [Ellipsis]) @ [PageNo m]"
        using with_gaps_snoc [of ?xs m] last(1) False m by simp
      with True show ?thesis unfolding step f by (simp add: page_step_def)
    next
      case out: False
      then have f: "filter (shown_page p n) [0..<Suc m] = ?xs" by simp
      from out ne show ?thesis unfolding step f by (simp add: page_step_def)
    qed
  qed
qed simp

lemma page_items_eq:
  "0 < n \<Longrightarrow> page_items p n = with_gaps (filter (shown_page p n) [0..<n])"
  using page_loop [of n p n] by (simp add: page_items_def shown_page_def)

lemma with_gaps_pages: "(PageNo i \<in> set (with_gaps xs)) = (i \<in> set xs)"
  by (induction xs rule: with_gaps.induct) auto

lemma total_pages_bounds:
  assumes "0 < sz"
  shows "tot \<le> total_pages tot sz * sz" "0 < tot \<Longrightarrow> (total_pages tot sz - 1) * sz < tot"
proof -
  have "tot + sz - 1 < (total_pages tot sz + 1) * sz"
    using assms by (simp add: total_pages_def dividend_less_div_times)
  then show "tot \<le> total_pages tot sz * sz" using assms by simp
  assume "0 < tot"
  have "total_pages tot sz * sz \<le> tot + sz - 1"
    by (simp add: total_pages_def)
  then show "(total_pages tot sz - 1) * sz < tot"
    using assms \<open>0 < tot\<close> by (simp add: diff_mult_distrib)
qed

lemma concat_pages:
  "concat (map (\<lambda>p. page_slice sz p xs) [0..<n]) = take (n * sz) xs"
proof (induction n)
  case (Suc n)
  have "take (n * sz) xs @ take sz (drop (n * sz) xs) = take (n * sz + sz) xs"
    by (rule take_add [symmetric])
  with Suc show ?case by (simp add: page_slice_def js_slice_def ac_simps)
qed simp

lemma concat_all_pages:
  assumes "0 < sz"
  shows "concat (map (\<lambda>p. page_slice sz p xs) [0..<total_pages (length xs) sz]) = xs"
  by (simp add: concat_pages total_pages_bounds(1) [OF assms])

lemma page_beyond:
  assumes "0 < sz" "total_pages (length xs) sz \<le> p"
  shows "page_slice sz p xs = []"
proof -
  have "length xs \<le> p * sz"
    using total_pages_bounds(1) [OF assms(1), of "length xs"] mult_le_mono1 [OF assms(2), of sz]
    by (rule le_trans)
  then show ?thesis by (simp add: page_slice_def js_slice_beyond)
qed

lemma page_nonempty:
  assumes "0 < sz" "p < total_pages (length xs) sz"
  shows "page_slice sz p xs \<noteq> []"
proof -
  have "0 < length xs" using assms by (cases xs) (simp_all add: total_pages_def)
  then have "p * sz < length xs"
    using total_pages_bounds(2) [OF assms(1), of "length xs"] assms(2)
      mult_le_mono1 [of p "total_pages (length xs) sz - 1" sz] by linarith
  with assms(1) show ?thesis by (simp add: page_slice_def js_slice_def)
qed

lemma page_empty_iff: "0 < sz \<Longrightarrow> page_slice sz p xs = [] \<longleftrightarrow> total_pages (length xs) sz \<le> p"
  using page_beyond page_nonempty not_le by blast

lemma page_size: "length (page_slice sz p xs) \<le> sz"
  by (simp add: page_slice_def length_js_slice)

section \<open>Lemmas: sorting\<close>

lemma comparator_directed: "comparator cmp \<Longrightarrow> comparator (\<lambda>a b. directed d (cmp a b))"
  by (cases d) (simp_all add: directed_def comparator_negate)

lemma comparator_diff_key: "comparator (\<lambda>a b. f a - (f b :: int))"
  by (rule comparator_key [OF comparator_int_diff])

lemma comparator_role: "comparator collate \<Longrightarrow> comparator (role_compare collate col)"
  unfolding role_compare_def
  by (cases col) (simp_all add: comparator_key comparator_diff_key)

lemma comparator_user: "comparator collate \<Longrightarrow> comparator (user_compare collate time_of col)"
  unfolding user_compare_def
  by (cases col) (simp_all add: comparator_key [of collate u_name]
      comparator_key [of collate "\<lambda>u. user_type_string (u_user_type u)"]
      comparator_diff_key [of "\<lambda>u. time_of (u_created_at u)"])

section \<open>Lemmas: rows\<close>

text \<open>A click on a row satisfies the toggle interface, for the name of the row.\<close>

interpretation table_row: toggle_set "\<lambda>s name. toggle_row name s" "\<lambda>s. set_has (ts_expanded s)"
  by unfold_locales (simp add: toggle_row_def js_set.has_toggle)

lemma pagination_fires:
  assumes "fires (pagination_view p sz tot f) e"
  obtains q where "e = f q" "q < total_pages tot sz \<or> q = p - 1"
proof -
  let ?n = "total_pages tot sz"
  have n: "1 < ?n" using assms by (auto simp: pagination_view_def Let_def split: if_splits)
  from assms n consider "e = f (p - 1)" | "Suc p < ?n" "e = f (Suc p)" |
    it where "it \<in> set (page_items p ?n)" "fires (page_button f it) e"
    by (auto simp: pagination_view_def Let_def fires_concat_map)
  then show thesis
  proof cases
    case (3 it)
    with n obtain q where "e = f q" "q < ?n"
      by (cases it) (auto simp: page_items_eq with_gaps_pages)
    with that show thesis by blast
  qed (use that in blast)+
qed

lemma pagination_no_event: "(\<And>q. e \<noteq> f q) \<Longrightarrow> \<not> fires (pagination_view p sz tot f) e"
  by (metis pagination_fires)

section \<open>Properties\<close>

text \<open>The pages of a table are a partition of its sorted rows: put together in order they are the
  sorted list, every page the pagination counts has a row and at most a page of rows, and a page
  beyond them is empty.\<close>

theorem pages_partition:
  "concat (map (\<lambda>p. role_list_rows collate (s\<lparr>ts_page := p\<rparr>) roles)
      [0..<total_pages (length roles) role_page_size]) = role_list_sorted collate s roles \<and>
   concat (map (\<lambda>p. user_list_rows collate time_of (t\<lparr>ts_page := p\<rparr>) users)
      [0..<total_pages (length users) user_page_size]) = user_list_sorted collate time_of t users \<and>
   (role_list_rows collate s roles = [] \<longleftrightarrow> total_pages (length roles) role_page_size \<le> ts_page s) \<and>
   (user_list_rows collate time_of t users = [] \<longleftrightarrow>
      total_pages (length users) user_page_size \<le> ts_page t) \<and>
   length (role_list_rows collate s roles) \<le> 25 \<and> length (user_list_rows collate time_of t users) \<le> 20"
proof -
  let ?r = "role_list_sorted collate s roles" and ?u = "user_list_sorted collate time_of t users"
  have len: "length ?r = length roles" "length ?u = length users"
    by (simp_all add: role_list_sorted_def user_list_sorted_def)
  have page: "role_list_rows collate (s\<lparr>ts_page := p\<rparr>) roles = page_slice 25 p ?r"
    "user_list_rows collate time_of (t\<lparr>ts_page := p\<rparr>) users = page_slice 20 p ?u"
    "role_list_rows collate s roles = page_slice 25 (ts_page s) ?r"
    "user_list_rows collate time_of t users = page_slice 20 (ts_page t) ?u" for p
    by (simp_all add: role_list_rows_def user_list_rows_def role_list_sorted_def user_list_sorted_def
        role_page_size_def user_page_size_def)
  have pos: "0 < (25 :: nat)" "0 < (20 :: nat)" by simp_all
  show ?thesis
    using concat_all_pages [OF pos(1), of ?r] concat_all_pages [OF pos(2), of ?u]
      page_empty_iff [OF pos(1), of "ts_page s" ?r] page_empty_iff [OF pos(2), of "ts_page t" ?u]
      page_size [of 25 "ts_page s" ?r] page_size [of 20 "ts_page t" ?u]
    unfolding page len role_page_size_def user_page_size_def by blast
qed

text \<open>The tables sort: whatever the column and the direction, the rows are the given ones, in the
  order of the column, and rows that compare equal keep the order they were given in.\<close>

theorem tables_sorted:
  assumes "comparator collate"
  shows "mset (role_list_sorted collate s roles) = mset roles \<and>
    sorted_wrt (\<lambda>a b. directed (ts_sort_dir s) (role_compare collate (ts_sort_col s) a b) \<le> 0)
      (role_list_sorted collate s roles) \<and>
    filter (\<lambda>r. role_compare collate (ts_sort_col s) r k = 0) (role_list_sorted collate s roles) =
      filter (\<lambda>r. role_compare collate (ts_sort_col s) r k = 0) roles \<and>
    mset (user_list_sorted collate time_of t users) = mset users \<and>
    sorted_wrt (\<lambda>a b. directed (ts_sort_dir t) (user_compare collate time_of (ts_sort_col t) a b) \<le> 0)
      (user_list_sorted collate time_of t users) \<and>
    filter (\<lambda>u. user_compare collate time_of (ts_sort_col t) u l = 0)
        (user_list_sorted collate time_of t users) =
      filter (\<lambda>u. user_compare collate time_of (ts_sort_col t) u l = 0) users"
proof -
  have zero: "directed d c = 0 \<longleftrightarrow> c = 0" for d c by (cases d) (simp_all add: directed_def)
  note r = comparator_directed [OF comparator_role [OF assms], of "ts_sort_dir s" "ts_sort_col s"]
  note u = comparator_directed [OF comparator_user [OF assms], of "ts_sort_dir t" time_of "ts_sort_col t"]
  show ?thesis
    using comparator.sorted_js_sort [OF r, of roles] comparator.filter_js_sort [OF r, of k roles]
      comparator.sorted_js_sort [OF u, of users] comparator.filter_js_sort [OF u, of l users]
    by (simp add: role_list_sorted_def user_list_sorted_def zero)
qed

definition demo_role :: "string \<Rightarrow> bool \<Rightarrow> role_read" where
  "demo_role n sys = \<lparr>rr_name = n, rr_namespace = None, rr_rules = [], rr_is_system = sys\<rparr>"

theorem tables_sorted_witness:
  "map rr_name (role_list_sorted (\<lambda>a b. int (length a) - int (length b))
     (role_list_init\<lparr>ts_sort_dir := Desc\<rparr>)
     [demo_role ''a'' False, demo_role ''bbb'' False, demo_role ''c'' True]) = [''bbb'', ''a'', ''c''] \<and>
   mset (role_list_sorted (\<lambda>a b. int (length a) - int (length b)) role_list_init
     [demo_role ''bb'' False, demo_role ''a'' True]) = {#demo_role ''a'' True, demo_role ''bb'' False#}"
proof -
  have c: "comparator (\<lambda>a b :: string. int (length a) - int (length b))"
    by (rule comparator_diff_key)
  show ?thesis
    using tables_sorted [OF c, of role_list_init "[demo_role ''bb'' False, demo_role ''a'' True]"]
    by (simp add: role_list_sorted_def role_list_init_def role_compare_def directed_def demo_role_def)
qed

text \<open>The pagination bar shows the first, the last, the current page and its neighbours, in order,
  with one ellipsis exactly where pages are left out; its buttons lead to pages that exist.\<close>

theorem pagination_shows:
  assumes "p < n"
  shows "page_items p n =
      with_gaps (filter (\<lambda>i. i = 0 \<or> i = n - 1 \<or> \<bar>int i - int p\<bar> \<le> 1) [0..<n]) \<and>
    (total_pages tot sz = n \<and> fires (pagination_view p sz tot f) e \<longrightarrow> (\<exists>q < n. e = f q))"
proof -
  have "shown_page p n = (\<lambda>i. i = 0 \<or> i = n - 1 \<or> \<bar>int i - int p\<bar> \<le> 1)"
    by (rule ext) (simp add: shown_page_def)
  with page_items_eq [of n p] assms pagination_fires [of p sz tot f e] show ?thesis
    by (metis (no_types, lifting) gr_implies_not0 gr_zeroI less_imp_diff_less)
qed

theorem pagination_shows_witness:
  "page_items 5 10 = [PageNo 0, Ellipsis, PageNo 4, PageNo 5, PageNo 6, Ellipsis, PageNo 9]"
proof -
  have "[0..<10] = [0, 1, 2, 3, 4, 5, 6, 7, 8, 9 :: nat]" by (simp add: upt_rec)
  with pagination_shows [of 5 10, THEN conjunct1] show ?thesis by simp
qed

text \<open>What the tables let a user do: edit and delete only roles that are given, are not system
  roles and whose action the page allows; delete a cluster user only with the right to write.\<close>

theorem table_actions_guarded:
  "(fires (role_list_view collate props s) (RL_delete r) \<longrightarrow>
      r \<in> set (rl_roles props) \<and> \<not> rr_is_system r \<and> rl_on_delete props) \<and>
   (fires (role_list_view collate props s) (RL_edit r) \<longrightarrow>
      r \<in> set (rl_roles props) \<and> \<not> rr_is_system r \<and> rl_on_edit props) \<and>
   (fires (user_list_view collate time_of uprops t) (UL_delete u) \<longrightarrow>
      u \<in> set (ul_users uprops) \<and> ul_can_write uprops) \<and>
   (fires (user_list_view collate time_of uprops t) UL_create \<longrightarrow>
      ul_users uprops = [] \<and> ul_can_write uprops)"
proof -
  have "set (role_list_rows collate s (rl_roles props)) \<subseteq> set (rl_roles props)"
    "set (user_list_rows collate time_of t (ul_users uprops)) \<subseteq> set (ul_users uprops)"
    using set_js_slice by (fastforce simp: role_list_rows_def user_list_rows_def page_slice_def
        role_list_sorted_def user_list_sorted_def)+
  then show ?thesis
    by (auto simp: role_list_view_def user_list_view_def fires_concat_map fires_map role_row_view_def
        user_row_view_def pagination_no_event split: if_splits)
qed

theorem table_actions_guarded_witness:
  "\<not> fires (role_list_view (\<lambda>a b. 0) \<lparr>rl_roles = [demo_role ''admin'' True], rl_on_edit = True,
     rl_on_copy = True, rl_on_delete = True, rl_on_create = True\<rparr> role_list_init)
     (RL_delete (demo_role ''admin'' True))"
  using table_actions_guarded [of "\<lambda>a b. 0" "\<lparr>rl_roles = [demo_role ''admin'' True], rl_on_edit = True,
     rl_on_copy = True, rl_on_delete = True, rl_on_create = True\<rparr>" role_list_init
     "demo_role ''admin'' True"]
  by (simp add: demo_role_def)

text \<open>A deletion can strand the table: on the second page of 21 users, after one of them is gone,
  no row is shown and no pagination either, although twenty users are left (the page is not
  brought back into range).\<close>

theorem deletion_strands:
  assumes "length users = 21" "u \<in> set users"
  shows "let before = \<lparr>ul_users = users, ul_on_create = oc, ul_can_write = w\<rparr>;
             after = before\<lparr>ul_users := remove1 u users\<rparr>;
             s = fst (user_list_handle user_list_init (UL_page 1))
         in fires (user_list_view collate time_of before user_list_init) (UL_page 1) \<and>
            length (ul_users after) = 20 \<and>
            user_list_rows collate time_of s (ul_users after) = [] \<and>
            (\<forall>p. \<not> fires (user_list_view collate time_of after s) (UL_page p))"
proof -
  have len: "length (remove1 u users) = 20" using assms by (simp add: length_remove1)
  have one: "total_pages 20 20 = 1" "total_pages 21 20 = 2" by (simp_all add: total_pages_def)
  have "PageNo 1 \<in> set (page_items 0 2)"
    by (simp add: page_items_eq with_gaps_pages shown_page_def)
  then have "fires (pagination_view 0 20 21 UL_page) (UL_page 1)"
    by (auto simp: pagination_view_def Let_def one)
  moreover have "users \<noteq> []" using assms by auto
  moreover have "user_list_rows collate time_of (user_list_init\<lparr>ts_page := 1\<rparr>) (remove1 u users) = []"
    unfolding user_list_rows_def user_page_size_def
    by (rule page_beyond) (simp_all add: user_list_sorted_def len one)
  ultimately show ?thesis
    using len assms(1)
    by (auto simp: user_list_view_def user_page_size_def user_list_init_def Let_def pagination_view_def
        one fires_map)
qed

definition demo_user :: "string \<Rightarrow> string \<Rightarrow> user" where
  "demo_user n ns = \<lparr>u_name = n, u_user_type = Service_account, u_groups = [], u_namespace = ns,
     u_created_at = [], u_cert_expiry = None, u_csr_name = None\<rparr>"

theorem deletion_strands_witness:
  "user_list_rows (\<lambda>a b. 0) (\<lambda>d. 0) (user_list_init\<lparr>ts_page := 1\<rparr>)
     (remove1 (demo_user ''x'' ''ns'') (replicate 21 (demo_user ''x'' ''ns''))) = []"
  using deletion_strands [of "replicate 21 (demo_user ''x'' ''ns'')" "demo_user ''x'' ''ns''" True True
      "\<lambda>a b. 0" "\<lambda>d. 0"]
  by (simp add: Let_def)

text \<open>Panels open by name: two service accounts with one name in different namespaces, both on the
  page, are always open or closed together, whichever row was clicked.\<close>

theorem panels_open_by_name:
  assumes "u_name u = u_name v"
    and "u \<in> set (user_list_rows collate time_of s users)" "v \<in> set (user_list_rows collate time_of s users)"
  shows "(u \<in> set (open_panels collate time_of s users) \<longleftrightarrow> v \<in> set (open_panels collate time_of s users)) \<and>
    (u \<in> set (open_panels collate time_of (toggle_row (u_name v) s) users) \<longleftrightarrow>
       u \<notin> set (open_panels collate time_of s users))"
proof -
  have "user_list_rows collate time_of (toggle_row n s) users = user_list_rows collate time_of s users" for n
    by (simp add: user_list_rows_def user_list_sorted_def toggle_row_def)
  then show ?thesis
    using assms table_row.has_toggle_same [of "u_name v" s] by (auto simp: open_panels_def)
qed

theorem panels_open_by_name_witness:
  "let users = [demo_user ''ci'' ''dev'', demo_user ''ci'' ''prod'']
   in demo_user ''ci'' ''prod'' \<in>
      set (open_panels (\<lambda>a b. 0) (\<lambda>d. 0) (toggle_row ''ci'' user_list_init) users)"
proof -
  let ?users = "[demo_user ''ci'' ''dev'', demo_user ''ci'' ''prod'']"
  have rows: "user_list_rows (\<lambda>a b. 0) (\<lambda>d. 0) user_list_init ?users = ?users"
    by (simp add: user_list_rows_def user_list_sorted_def user_list_init_def user_compare_def
        directed_def page_slice_def js_slice_def user_page_size_def)
  have "demo_user ''ci'' ''prod'' \<notin> set (open_panels (\<lambda>a b. 0) (\<lambda>d. 0) user_list_init ?users)"
    by (simp add: open_panels_def set_has_def user_list_init_def)
  moreover have "u_name (demo_user ''ci'' ''prod'') = u_name (demo_user ''ci'' ''dev'')"
    "u_name (demo_user ''ci'' ''dev'') = ''ci''"
    by (simp_all add: demo_user_def)
  ultimately show ?thesis
    using panels_open_by_name [of "demo_user ''ci'' ''prod''" "demo_user ''ci'' ''dev''" "\<lambda>a b. 0" "\<lambda>d. 0"
        user_list_init ?users] rows
    by (simp add: Let_def)
qed

text \<open>The audit page: its invariant holds for any event.\<close>

definition audit_inv :: "audit_page \<Rightarrow> bool" where
  "audit_inv s \<longleftrightarrow> 25 dvd ap_offset s \<and>
     (ap_timer s \<or> (ap_debounced_actor s = ap_actor s \<and> ap_debounced_path_contains s = ap_path_contains s))"

lemma audit_inv_event: "audit_inv s \<Longrightarrow> audit_inv (fst (audit_handle s e))"
  by (cases e) (auto simp: audit_inv_def audit_page_size_def)

interpretation audit: ui_contract "audit_view isLoading exporting items tot" "\<lambda>s e. True" audit_handle
  audit_inv "\<lambda>s f. True"
  for isLoading exporting items tot
  by unfold_locales (simp_all add: audit_inv_event)

lemma playable_any: "playable view (\<lambda>s e. True) handle s es"
  by (induction es arbitrary: s) simp_all

text \<open>What the audit log shows is what the filters say: after any events, in any order, the query
  starts at a whole page, and once the typing pause is over it asks for exactly the actor and the
  path in the two inputs, beginning with the first page.\<close>

theorem audit_query_follows_filters:
  "let s = play audit_handle audit_page_init es; t = fst (audit_handle s AP_timer) in
   25 dvd al_offset (audit_query s) \<and> al_limit (audit_query s) = 25 \<and>
   (ap_timer s \<or> (al_actor (audit_query s) = or_undef (ap_actor s) \<and>
      al_path_contains (audit_query s) = or_undef (ap_path_contains s))) \<and>
   al_actor (audit_query t) = or_undef (ap_actor s) \<and>
   al_path_contains (audit_query t) = or_undef (ap_path_contains s) \<and> al_offset (audit_query t) = 0"
proof -
  let ?s = "play audit_handle audit_page_init es"
  have "audit_inv ?s"
    using audit.run_inv [OF ui_run_play [OF playable_any]] by (simp add: audit_inv_def audit_page_init_def)
  then show ?thesis
    by (auto simp: Let_def audit_inv_def audit_query_def audit_page_size_def)
qed

text \<open>Paging through the audit log reads it all: starting on the first page and pressing Next as
  long as it is offered ends, and the pages visited hold each of the entries exactly once, in
  order.\<close>

function audit_walk :: "nat \<Rightarrow> audit_page \<Rightarrow> nat list list" where
  "audit_walk tot s =
     [ap_offset s..<min (ap_offset s + audit_page_size) tot] #
     (if ap_offset s + audit_page_size < tot then audit_walk tot (fst (audit_handle s AP_next)) else [])"
  by pat_completeness auto
termination by (relation "measure (\<lambda>(tot, s). tot - ap_offset s)") (auto simp: audit_page_size_def)

declare audit_walk.simps [simp del]

lemma audit_walk_from:
  "ap_offset s < tot \<Longrightarrow> concat (audit_walk tot s) = [ap_offset s..<tot]"
proof (induction tot s rule: audit_walk.induct)
  case (1 tot s)
  show ?case
  proof (cases "ap_offset s + audit_page_size < tot")
    case True
    with 1 have "concat (audit_walk tot s) =
        [ap_offset s..<ap_offset s + audit_page_size] @ [ap_offset s + audit_page_size..<tot]"
      by (subst audit_walk.simps) simp
    also have "\<dots> = [ap_offset s..<tot]"
      using True upt_add_eq_append [of "ap_offset s" "ap_offset s + audit_page_size" "tot - (ap_offset s + audit_page_size)"]
      by simp
    finally show ?thesis .
  next
    case False
    then show ?thesis by (subst audit_walk.simps) (simp add: min_def)
  qed
qed

theorem audit_pages_cover:
  assumes "0 < tot" "ap_offset s = 0"
  shows "concat (audit_walk tot s) = [0..<tot] \<and>
    (fires (audit_view isLoading exporting items tot s) AP_next \<longleftrightarrow> ap_offset s + audit_page_size < tot)"
  using audit_walk_from [of s tot] assms
  by (auto simp: audit_view_def fires_concat_map split: if_splits)

theorem audit_pages_cover_witness: "concat (audit_walk 60 audit_page_init) = [0..<60]"
  using audit_pages_cover [of 60 audit_page_init] by (simp add: audit_page_init_def)

end
