(* ===== verification/RoleEditor.thy ===== *)
theory RoleEditor
  imports Systems Collections Hooks RbacYaml
begin

text \<open>
  Editing roles: \<^verbatim>\<open>components/rbac/RoleEditorModal.tsx\<close> (the rule rows and the YAML import) and
  the page that opens it, \<^verbatim>\<open>pages/RbacPage.tsx\<close>. The YAML library is the parameter \<open>load\<close> of
  \<open>parse_rules_yaml\<close>. A modal that keeps its backdrop can still be closed with the close button
  or the Escape key.
\<close>

section \<open>Rule rows\<close>

definition ALL_VERBS :: "string list" where
  "ALL_VERBS = [''get'', ''list'', ''watch'', ''create'', ''update'', ''patch'', ''delete'',
     ''deletecollection'']"

definition emptyRule :: policy_rule where
  "emptyRule = \<lparr>api_groups = [[]], resources = [], verbs = [], resource_names = None\<rparr>"

definition split_trim :: "string \<Rightarrow> string list" where
  "split_trim v = map js_trim (js_split '','' v)"

definition split_nonempty :: "string \<Rightarrow> string list" where
  "split_nonempty v = filter truthy (split_trim v)"

definition toggleVerb :: "string list \<Rightarrow> string \<Rightarrow> string list" where
  "toggleVerb vs v = (if v \<in> set vs then filter (\<lambda>x. x \<noteq> v) vs else vs @ [v])"

datatype row_event = Row_groups string | Row_resources string | Row_verb string

fun row_change :: "policy_rule \<Rightarrow> row_event \<Rightarrow> policy_rule" where
  "row_change r (Row_groups v) = r\<lparr>api_groups := split_trim v\<rparr>"
| "row_change r (Row_resources v) = r\<lparr>resources := split_nonempty v\<rparr>"
| "row_change r (Row_verb v) = r\<lparr>verbs := toggleVerb (verbs r) v\<rparr>"

section \<open>The modal\<close>

record editor_props =
  ep_role :: "role_read option"
  ep_copy_from :: "role_read option"
  ep_namespace :: "string option"
  ep_namespaces :: "string list"
  ep_is_cluster :: bool
  ep_loading :: bool

text \<open>\<open>ed_importing\<close> holds the text an import is parsing.\<close>

record editor =
  ed_name :: string
  ed_namespace :: string
  ed_rules :: "policy_rule list"
  ed_show_import :: bool
  ed_yaml_text :: string
  ed_yaml_error :: "string option"
  ed_importing :: "string option"

definition first_rules :: "role_read option \<Rightarrow> policy_rule list" where
  "first_rules r = (case r of Some x \<Rightarrow> rr_rules x | None \<Rightarrow> [])"

definition first_some :: "'a option \<Rightarrow> 'a option \<Rightarrow> 'a option" where
  "first_some a b = (case a of Some x \<Rightarrow> Some x | None \<Rightarrow> b)"

definition editor_init :: "editor_props \<Rightarrow> editor" where
  "editor_init p =
     \<lparr>ed_name = (case ep_role p of
        Some r \<Rightarrow> rr_name r
      | None \<Rightarrow> (case ep_copy_from p of Some r \<Rightarrow> ''copy-of-'' @ rr_name r | None \<Rightarrow> [])),
      ed_namespace = (case first_some (Option.bind (ep_role p) rr_namespace)
          (first_some (Option.bind (ep_copy_from p) rr_namespace) (ep_namespace p)) of
        Some n \<Rightarrow> n | None \<Rightarrow> ''default''),
      ed_rules = (if first_rules (ep_role p) \<noteq> [] then first_rules (ep_role p)
        else if first_rules (ep_copy_from p) \<noteq> [] then first_rules (ep_copy_from p)
        else [emptyRule]),
      ed_show_import = False, ed_yaml_text = [], ed_yaml_error = None, ed_importing = None\<rparr>"

datatype editor_event =
  Ed_name string | Ed_namespace string | Ed_row nat row_event | Ed_remove nat | Ed_add
| Ed_toggle_import | Ed_yaml string | Ed_cancel_import | Ed_apply | Ed_imported | Ed_import_broken
| Ed_save | Ed_close

datatype editor_effect = OnSave string "policy_rule list" "string option" | OnClose

definition updateRule :: "nat \<Rightarrow> (policy_rule \<Rightarrow> policy_rule) \<Rightarrow> policy_rule list \<Rightarrow> policy_rule list" where
  "updateRule i f rs = map (\<lambda>(j, x). if j = i then f x else x) (enumerate 0 rs)"

definition removeRule :: "nat \<Rightarrow> policy_rule list \<Rightarrow> policy_rule list" where
  "removeRule i rs = map snd (filter (\<lambda>(j, x). j \<noteq> i) (enumerate 0 rs))"

definition closeImport :: "editor \<Rightarrow> editor" where
  "closeImport s = s\<lparr>ed_show_import := False, ed_yaml_text := [], ed_yaml_error := None\<rparr>"

definition handleSave :: "editor_props \<Rightarrow> editor \<Rightarrow> editor_effect list" where
  "handleSave p s =
     (if js_trim (ed_name s) = [] then []
      else [OnSave (js_trim (ed_name s)) (ed_rules s)
              (if ep_is_cluster p then None else Some (ed_namespace s))])"

fun editor_handle ::
  "yaml_loader \<Rightarrow> editor_props \<Rightarrow> editor \<Rightarrow> editor_event \<Rightarrow> editor \<times> editor_effect list"
where
  "editor_handle load p s (Ed_name v) = (s\<lparr>ed_name := v\<rparr>, [])"
| "editor_handle load p s (Ed_namespace v) = (s\<lparr>ed_namespace := v\<rparr>, [])"
| "editor_handle load p s (Ed_row i e) =
     (s\<lparr>ed_rules := updateRule i (\<lambda>r. row_change r e) (ed_rules s)\<rparr>, [])"
| "editor_handle load p s (Ed_remove i) = (s\<lparr>ed_rules := removeRule i (ed_rules s)\<rparr>, [])"
| "editor_handle load p s Ed_add = (s\<lparr>ed_rules := ed_rules s @ [emptyRule]\<rparr>, [])"
| "editor_handle load p s Ed_toggle_import =
     ((if ed_show_import s then closeImport s else s\<lparr>ed_show_import := True\<rparr>), [])"
| "editor_handle load p s (Ed_yaml v) = (s\<lparr>ed_yaml_text := v\<rparr>, [])"
| "editor_handle load p s Ed_cancel_import = (closeImport s, [])"
| "editor_handle load p s Ed_apply =
     (s\<lparr>ed_importing := Some (ed_yaml_text s), ed_yaml_error := None\<rparr>, [])"
| "editor_handle load p s Ed_imported =
     (case ed_importing s of
        None \<Rightarrow> (s, [])
      | Some text \<Rightarrow>
          (case parse_rules_yaml load text of
             Inr imported \<Rightarrow> (closeImport (s\<lparr>ed_rules := imported, ed_importing := None\<rparr>), [])
           | Inl msg \<Rightarrow> (s\<lparr>ed_yaml_error := Some msg, ed_importing := None\<rparr>, [])))"
| "editor_handle load p s Ed_import_broken =
     (s\<lparr>ed_yaml_error := Some ''Failed to parse YAML'', ed_importing := None\<rparr>, [])"
| "editor_handle load p s Ed_save = (s, handleSave p s)"
| "editor_handle load p s Ed_close = (s, [OnClose])"

definition rule_row_view :: "nat \<Rightarrow> policy_rule \<Rightarrow> editor_event control list" where
  "rule_row_view i r =
     [Input True (js_join '', '' (api_groups r)) (\<lambda>v. Ed_row i (Row_groups v)),
      Input True (js_join '', '' (resources r)) (\<lambda>v. Ed_row i (Row_resources v)),
      Press True (Ed_remove i)] @
     map (\<lambda>v. Press True (Ed_row i (Row_verb v))) ALL_VERBS"

definition editor_locked :: "editor_props \<Rightarrow> bool" where
  "editor_locked p \<longleftrightarrow> ep_role p \<noteq> None \<and> ep_copy_from p = None"

definition editor_view :: "editor_props \<Rightarrow> editor \<Rightarrow> editor_event control list" where
  "editor_view p s =
     [Press True Ed_close, Input (\<not> editor_locked p) (ed_name s) Ed_name] @
     (if \<not> ep_is_cluster p
      then [Choose (\<not> editor_locked p) (ed_namespace s) (ep_namespaces p) Ed_namespace] else []) @
     [Press True Ed_toggle_import, Press True Ed_add] @
     (if ed_show_import s
      then [Input True (ed_yaml_text s) Ed_yaml, Press True Ed_cancel_import,
            Press (ed_importing s = None \<and> js_trim (ed_yaml_text s) \<noteq> []) Ed_apply]
      else []) @
     concat (map (\<lambda>(i, r). rule_row_view i r) (enumerate 0 (ed_rules s))) @
     [Press (\<not> ep_loading p \<and> js_trim (ed_name s) \<noteq> [] \<and> ed_rules s \<noteq> []) Ed_save]"

fun editor_env :: "editor \<Rightarrow> editor_event \<Rightarrow> bool" where
  "editor_env s Ed_imported = (ed_importing s \<noteq> None)"
| "editor_env s Ed_import_broken = (ed_importing s \<noteq> None)"
| "editor_env s _ = False"

section \<open>pages/RbacPage.tsx\<close>

datatype rbac_tab = RolesTab | ClusterRolesTab | AccessTab | SimulatorTab

record role_modal =
  md_open :: bool
  md_is_cluster :: bool
  md_role :: "role_read option"
  md_copy_from :: "role_read option"

text \<open>\<open>rp_saving\<close> and \<open>rp_deleting\<close> count the mutations that are pending.\<close>

record rbac_page =
  rp_tab :: rbac_tab
  rp_namespace :: string
  rp_show_system :: bool
  rp_modal :: role_modal
  rp_delete_target :: "(role_read \<times> bool) option"
  rp_saving :: nat
  rp_deleting :: nat

definition closed_modal :: role_modal where
  "closed_modal = \<lparr>md_open = False, md_is_cluster = False, md_role = None, md_copy_from = None\<rparr>"

definition rbac_page_init :: rbac_page where
  "rbac_page_init = \<lparr>rp_tab = RolesTab, rp_namespace = ''default'', rp_show_system = False,
     rp_modal = closed_modal, rp_delete_target = None, rp_saving = 0, rp_deleting = 0\<rparr>"

datatype rbac_page_event =
  RP_tab rbac_tab | RP_namespace string | RP_show_system bool | RP_refresh | RP_retry
| RP_create bool | RP_edit bool role_read | RP_copy bool role_read | RP_ask_delete bool role_read
| RP_cancel_delete | RP_confirm_delete | RP_save string "policy_rule list" "string option"
| RP_close_modal | RP_saved | RP_save_failed | RP_deleted

datatype rbac_page_effect = Mutate rbac_mutation | InvalidateRoles | Refetch

definition page_save :: "rbac_page \<Rightarrow> string \<Rightarrow> policy_rule list \<Rightarrow> string option \<Rightarrow> rbac_mutation" where
  "page_save s name rules ns =
     (let namespace = (case ns of Some n \<Rightarrow> n | None \<Rightarrow> rp_namespace s); m = rp_modal s in
      if md_is_cluster m
      then (if md_role m \<noteq> None then UseUpdateClusterRole name rules else UseCreateClusterRole name rules)
      else (if md_role m \<noteq> None then UseUpdateRole namespace name rules
            else UseCreateRole namespace name rules))"

definition confirmDelete :: "rbac_page \<Rightarrow> rbac_page \<times> rbac_page_effect list" where
  "confirmDelete s =
     (case rp_delete_target s of
        None \<Rightarrow> (s, [])
      | Some (r, isCluster) \<Rightarrow>
          (s\<lparr>rp_delete_target := None, rp_deleting := Suc (rp_deleting s)\<rparr>,
           [Mutate (if isCluster then UseDeleteClusterRole (rr_name r)
              else UseDeleteRole (case rr_namespace r of Some n \<Rightarrow> n | None \<Rightarrow> rp_namespace s)
                     (rr_name r))]))"

definition open_modal :: "bool \<Rightarrow> role_read option \<Rightarrow> role_read option \<Rightarrow> role_modal" where
  "open_modal isCluster r c =
     \<lparr>md_open = True, md_is_cluster = isCluster, md_role = r, md_copy_from = c\<rparr>"

fun rbac_page_handle :: "rbac_page \<Rightarrow> rbac_page_event \<Rightarrow> rbac_page \<times> rbac_page_effect list" where
  "rbac_page_handle s (RP_tab t) = (s\<lparr>rp_tab := t\<rparr>, [])"
| "rbac_page_handle s (RP_namespace n) = (s\<lparr>rp_namespace := n\<rparr>, [])"
| "rbac_page_handle s (RP_show_system b) = (s\<lparr>rp_show_system := b\<rparr>, [])"
| "rbac_page_handle s RP_refresh = (s, [InvalidateRoles])"
| "rbac_page_handle s RP_retry = (s, [Refetch])"
| "rbac_page_handle s (RP_create ic) = (s\<lparr>rp_modal := open_modal ic None None\<rparr>, [])"
| "rbac_page_handle s (RP_edit ic r) = (s\<lparr>rp_modal := open_modal ic (Some r) None\<rparr>, [])"
| "rbac_page_handle s (RP_copy ic r) = (s\<lparr>rp_modal := open_modal ic None (Some r)\<rparr>, [])"
| "rbac_page_handle s (RP_ask_delete ic r) = (s\<lparr>rp_delete_target := Some (r, ic)\<rparr>, [])"
| "rbac_page_handle s RP_cancel_delete = (s\<lparr>rp_delete_target := None\<rparr>, [])"
| "rbac_page_handle s RP_confirm_delete = confirmDelete s"
| "rbac_page_handle s (RP_save name rules ns) =
     (s\<lparr>rp_saving := Suc (rp_saving s)\<rparr>, [Mutate (page_save s name rules ns)])"
| "rbac_page_handle s RP_close_modal = (s\<lparr>rp_modal := closed_modal\<rparr>, [])"
| "rbac_page_handle s RP_saved = (s\<lparr>rp_modal := closed_modal, rp_saving := rp_saving s - 1\<rparr>, [])"
| "rbac_page_handle s RP_save_failed = (s\<lparr>rp_saving := rp_saving s - 1\<rparr>, [])"
| "rbac_page_handle s RP_deleted = (s\<lparr>rp_deleting := rp_deleting s - 1\<rparr>, [])"

text \<open>\<open>editor_save_ok\<close> is the contract between the modal and the page: what the modal hands to
  \<open>onSave\<close>.\<close>

definition editor_save_ok :: "editor_props \<Rightarrow> string \<Rightarrow> policy_rule list \<Rightarrow> string option \<Rightarrow> bool" where
  "editor_save_ok p name rules ns \<longleftrightarrow>
     name \<noteq> [] \<and> js_trim name = name \<and> rules \<noteq> [] \<and> (ns = None \<longleftrightarrow> ep_is_cluster p) \<and>
     (case ep_role p of
        Some r \<Rightarrow> ep_copy_from p = None \<longrightarrow> name = js_trim (rr_name r) \<and>
          (case rr_namespace r of Some k \<Rightarrow> ns \<in> {None, Some k} | None \<Rightarrow> True)
      | None \<Rightarrow> True)"

datatype 'a fetched = Loading | Failed | Ready 'a

record rbac_data =
  rd_namespaces :: "string list"
  rd_roles :: "role_read list fetched"
  rd_cluster_roles :: "role_read list fetched"

definition modal_props :: "rbac_data \<Rightarrow> rbac_page \<Rightarrow> editor_props" where
  "modal_props d s = \<lparr>ep_role = md_role (rp_modal s), ep_copy_from = md_copy_from (rp_modal s),
     ep_namespace = Some (rp_namespace s), ep_namespaces = rd_namespaces d,
     ep_is_cluster = md_is_cluster (rp_modal s), ep_loading = 0 < rp_saving s\<rparr>"

text \<open>The callbacks handed to the role list, which offers them for the roles it shows, editing and
  deleting only for those that are not system roles.\<close>

definition role_actions :: "bool \<Rightarrow> bool \<Rightarrow> role_read list fetched \<Rightarrow> rbac_page_event control list" where
  "role_actions canWrite isCluster f =
     (case f of
        Loading \<Rightarrow> []
      | Failed \<Rightarrow> [Press True RP_retry]
      | Ready rs \<Rightarrow>
          if canWrite
          then (if rs = [] then [Press True (RP_create isCluster)] else []) @
            map (\<lambda>r. Press True (RP_copy isCluster r)) rs @
            map (\<lambda>r. Press True (RP_edit isCluster r)) (filter (\<lambda>r. \<not> rr_is_system r) rs) @
            map (\<lambda>r. Press True (RP_ask_delete isCluster r)) (filter (\<lambda>r. \<not> rr_is_system r) rs)
          else [])"

definition rbac_page_view :: "bool \<Rightarrow> rbac_data \<Rightarrow> rbac_page \<Rightarrow> rbac_page_event control list" where
  "rbac_page_view canWrite d s =
     [Tick True (rp_show_system s) RP_show_system, Press True RP_refresh] @
     map (\<lambda>t. Press True (RP_tab t)) [RolesTab, ClusterRolesTab, AccessTab, SimulatorTab] @
     (case rp_tab s of
        RolesTab \<Rightarrow> [Choose True (rp_namespace s) (rd_namespaces d) RP_namespace] @
          (if canWrite then [Press True (RP_create False)] else []) @
          role_actions canWrite False (rd_roles d)
      | ClusterRolesTab \<Rightarrow> (if canWrite then [Press True (RP_create True)] else []) @
          role_actions canWrite True (rd_cluster_roles d)
      | _ \<Rightarrow> []) @
     (if rp_delete_target s \<noteq> None
      then [Press True RP_cancel_delete, Press (rp_deleting s = 0) RP_confirm_delete] else [])"

text \<open>The page alone, for any modal: whatever it hands to \<open>onSave\<close> while its button is not disabled. What
  \<^verbatim>\<open>RoleEditorModal\<close> hands over is not assumed: the two are composed below.\<close>

fun rbac_page_env :: "rbac_data \<Rightarrow> rbac_page \<Rightarrow> rbac_page_event \<Rightarrow> bool" where
  "rbac_page_env d s (RP_save name rules ns) = (md_open (rp_modal s) \<and> rp_saving s = 0)"
| "rbac_page_env d s RP_close_modal = md_open (rp_modal s)"
| "rbac_page_env d s RP_saved = (0 < rp_saving s)"
| "rbac_page_env d s RP_save_failed = (0 < rp_saving s)"
| "rbac_page_env d s RP_deleted = (0 < rp_deleting s)"
| "rbac_page_env d s _ = False"

section \<open>The page and its editor\<close>

text \<open>The page mounts a \<^verbatim>\<open>RoleEditorModal\<close> when \<open>modal.open\<close> becomes true, with fresh state, and
  renders it without a key: as long as \<open>modal.open\<close> stays true it is the same editor, with the props of
  the last render. \<open>rs_data\<close> are the answers of the queries.\<close>

record roles_screen =
  rs_page :: rbac_page
  rs_editor :: "editor option"
  rs_data :: rbac_data

datatype screen_event = OnPage rbac_page_event | InEditor editor_event | Answers rbac_data

definition screen_init :: "rbac_data \<Rightarrow> roles_screen" where
  "screen_init d = \<lparr>rs_page = rbac_page_init, rs_editor = None, rs_data = d\<rparr>"

definition screen_props :: "roles_screen \<Rightarrow> editor_props" where
  "screen_props s = modal_props (rs_data s) (rs_page s)"

definition mount_editor :: "roles_screen \<Rightarrow> roles_screen" where
  "mount_editor s = s\<lparr>rs_editor :=
     (if md_open (rp_modal (rs_page s))
      then Some (case rs_editor s of Some ed \<Rightarrow> ed | None \<Rightarrow> editor_init (screen_props s))
      else None)\<rparr>"

text \<open>The callbacks of the page the editor is given.\<close>

fun modal_callback :: "editor_effect \<Rightarrow> rbac_page_event" where
  "modal_callback (OnSave name rules ns) = RP_save name rules ns"
| "modal_callback OnClose = RP_close_modal"

primrec page_calls :: "rbac_page \<Rightarrow> rbac_page_event list \<Rightarrow> rbac_page \<times> rbac_page_effect list" where
  "page_calls s [] = (s, [])"
| "page_calls s (e # es) =
     (let (t, fs) = rbac_page_handle s e; (u, gs) = page_calls t es in (u, fs @ gs))"

fun screen_handle ::
  "yaml_loader \<Rightarrow> roles_screen \<Rightarrow> screen_event \<Rightarrow> roles_screen \<times> rbac_page_effect list"
where
  "screen_handle load s (OnPage e) =
     (let (t, fs) = rbac_page_handle (rs_page s) e in (mount_editor (s\<lparr>rs_page := t\<rparr>), fs))"
| "screen_handle load s (InEditor e) =
     (case rs_editor s of
        None \<Rightarrow> (s, [])
      | Some ed \<Rightarrow>
          (let (ed', calls) = editor_handle load (screen_props s) ed e;
               (t, fs) = page_calls (rs_page s) (map modal_callback calls)
           in (mount_editor (s\<lparr>rs_page := t, rs_editor := Some ed'\<rparr>), fs)))"
| "screen_handle load s (Answers d) = (s\<lparr>rs_data := d\<rparr>, [])"

text \<open>The backdrop of the editor covers the page; with the Tab key (\<open>tabbing\<close>) what is behind it
  can still be reached.\<close>

definition screen_view :: "bool \<Rightarrow> bool \<Rightarrow> roles_screen \<Rightarrow> screen_event control list" where
  "screen_view tabbing canWrite s =
     (if rs_editor s = None \<or> tabbing
      then map (map_control OnPage) (rbac_page_view canWrite (rs_data s) (rs_page s)) else []) @
     (case rs_editor s of
        Some ed \<Rightarrow> map (map_control InEditor) (editor_view (screen_props s) ed) | None \<Rightarrow> [])"

fun screen_env :: "roles_screen \<Rightarrow> screen_event \<Rightarrow> bool" where
  "screen_env s (OnPage RP_saved) = (0 < rp_saving (rs_page s))"
| "screen_env s (OnPage RP_save_failed) = (0 < rp_saving (rs_page s))"
| "screen_env s (OnPage RP_deleted) = (0 < rp_deleting (rs_page s))"
| "screen_env s (OnPage e) = False"
| "screen_env s (InEditor e) = (case rs_editor s of Some ed \<Rightarrow> editor_env ed e | None \<Rightarrow> False)"
| "screen_env s (Answers d) = True"

section \<open>Lemmas\<close>

interpretation verb_toggle: toggle_set toggleVerb "\<lambda>vs v. v \<in> set vs"
  by unfold_locales (auto simp: toggleVerb_def)

lemma js_trim_space: "js_trim (CHR '' '' # s) = js_trim s"
proof -
  have "strip_with ws_seqs (CHR '' '' # s) = strip_with ws_seqs s"
    by (subst strip_with.simps) (simp add: ws_seqs_def)
  then show ?thesis by (simp add: js_trim_def)
qed

lemma js_join_comma_space:
  "js_join '', '' (w # ws) = js_join '','' (w # map (Cons (CHR '' '')) ws)"
proof (induction ws arbitrary: w)
  case (Cons v ws)
  have "js_join '', '' (w # v # ws) = w @ '', '' @ js_join '', '' (v # ws)" by simp
  also have "\<dots> = w @ '','' @ CHR '' '' # js_join '','' (v # map (Cons (CHR '' '')) ws)"
    using Cons.IH [of v] by simp
  also have "\<dots> = w @ '','' @ js_join '','' ((CHR '' '' # v) # map (Cons (CHR '' '')) ws)"
    by (simp only: js_join_Cons_head)
  finally show ?case by simp
qed simp

definition list_entry :: "string \<Rightarrow> bool" where
  "list_entry w \<longleftrightarrow> js_trim w = w \<and> CHR '','' \<notin> set w"

lemma trim_entries: "\<forall>w\<in>set ws. list_entry w \<Longrightarrow> map (js_trim \<circ> Cons (CHR '' '')) ws = ws"
  by (induction ws) (auto simp: list_entry_def js_trim_space)

lemma split_trim_join: "ws \<noteq> [] \<Longrightarrow> \<forall>w\<in>set ws. list_entry w \<Longrightarrow> split_trim (js_join '', '' ws) = ws"
proof (cases ws)
  case (Cons w us)
  assume entries: "\<forall>w\<in>set ws. list_entry w"
  have "js_split '','' (js_join '', '' ws) = w # map (Cons (CHR '' '')) us"
    unfolding Cons js_join_comma_space
    by (rule js_split_join_char) (use entries Cons in \<open>auto simp: list_entry_def\<close>)
  with entries Cons trim_entries [of us] show ?thesis by (simp add: split_trim_def list_entry_def)
qed simp

lemma split_trim_join_comma:
  "ws \<noteq> [] \<Longrightarrow> \<forall>w\<in>set ws. list_entry w \<Longrightarrow> split_trim (js_join '', '' ws @ '','') = ws @ [[]]"
proof (cases ws)
  case (Cons w us)
  assume entries: "\<forall>w\<in>set ws. list_entry w"
  have join: "js_join '','' (xs @ [[]]) = js_join '','' xs @ '',''" if "xs \<noteq> []" for xs
    using that by (induction xs rule: list_nonempty_induct) (simp_all add: js_join_Cons)
  have "js_split '','' (js_join '', '' ws @ '','') = (w # map (Cons (CHR '' '')) us) @ [[]]"
    unfolding Cons js_join_comma_space
    by (subst join [symmetric]) (use entries Cons in \<open>auto simp: list_entry_def intro!: js_split_join_char\<close>)
  with entries Cons trim_entries [of us] show ?thesis by (simp add: split_trim_def list_entry_def)
qed simp

lemma length_updateRule [simp]: "length (updateRule i f rs) = length rs"
  by (simp add: updateRule_def)

lemma nth_updateRule: "j < length rs \<Longrightarrow> updateRule i f rs ! j = (if j = i then f (rs ! j) else rs ! j)"
  by (simp add: updateRule_def nth_enumerate_eq)

definition editor_inv :: "editor_props \<Rightarrow> editor \<Rightarrow> bool" where
  "editor_inv p s \<longleftrightarrow> (editor_locked p \<longrightarrow>
     ed_name s = ed_name (editor_init p) \<and> ed_namespace s = ed_namespace (editor_init p))"

fun editor_ok :: "editor_props \<Rightarrow> editor \<Rightarrow> editor_effect \<Rightarrow> bool" where
  "editor_ok p s (OnSave name rules ns) =
     (editor_save_ok p name rules ns \<and> rules = ed_rules s \<and> name = js_trim (ed_name s) \<and>
      ns = (if ep_is_cluster p then None else Some (ed_namespace s)))"
| "editor_ok p s OnClose = True"

lemma editor_inv_keep:
  "ed_name t = ed_name s \<Longrightarrow> ed_namespace t = ed_namespace s \<Longrightarrow> editor_inv p s \<Longrightarrow> editor_inv p t"
  by (simp add: editor_inv_def)

lemma rule_rows_fire:
  "fires (concat (map (\<lambda>(i, r). rule_row_view i r) (enumerate 0 rs))) e \<Longrightarrow>
   (\<exists>i re. e = Ed_row i re) \<or> (\<exists>i. e = Ed_remove i)"
  by (auto simp: fires_concat_map rule_row_view_def fires_map)

lemma editor_inv_event:
  assumes "editor_inv p s" "fires (editor_view p s) e \<or> editor_env s e"
  shows "editor_inv p (fst (editor_handle load p s e))"
proof (cases e)
  case (Ed_name v)
  with assms(2) have "\<not> editor_locked p"
    by (auto simp: editor_view_def dest: rule_rows_fire split: if_splits)
  then show ?thesis by (simp add: editor_inv_def)
next
  case (Ed_namespace v)
  with assms(2) have "\<not> editor_locked p"
    by (auto simp: editor_view_def dest: rule_rows_fire split: if_splits)
  then show ?thesis by (simp add: editor_inv_def)
qed (use assms(1) in \<open>auto simp: closeImport_def intro: editor_inv_keep split: option.split sum.split\<close>)

lemma editor_save_event:
  assumes "editor_inv p s" "fires (editor_view p s) Ed_save"
    "f \<in> set (handleSave p s)"
  shows "editor_ok p s f"
proof -
  have nz: "js_trim (ed_name s) \<noteq> []" "ed_rules s \<noteq> []"
    using assms(2) by (auto simp: editor_view_def dest: rule_rows_fire split: if_splits)
  with assms(1,3) show ?thesis
    by (auto simp: handleSave_def editor_save_ok_def editor_inv_def editor_locked_def editor_init_def
        first_some_def split: option.splits if_splits)
qed

interpretation role_editor: ui_contract "editor_view p" editor_env "editor_handle load p"
  "editor_inv p" "editor_ok p"
  for load p
proof
  fix s e f
  assume inv: "editor_inv p s" and e: "fires (editor_view p s) e \<or> editor_env s e"
  then show "editor_inv p (fst (editor_handle load p s e))" by (rule editor_inv_event)
  assume f: "f \<in> set (snd (editor_handle load p s e))"
  show "editor_ok p s f"
  proof (cases e)
    case Ed_save
    with inv e f editor_save_event [of p s f] show ?thesis by simp
  qed (use f in \<open>auto split: option.splits sum.splits\<close>)
qed

definition page_inv :: "bool \<Rightarrow> rbac_page \<Rightarrow> bool" where
  "page_inv canWrite s \<longleftrightarrow>
     (md_open (rp_modal s) \<longrightarrow> canWrite \<and> (\<forall>r. md_role (rp_modal s) = Some r \<longrightarrow> \<not> rr_is_system r)) \<and>
     (md_role (rp_modal s) = None \<or> md_copy_from (rp_modal s) = None) \<and>
     (\<forall>r ic. rp_delete_target s = Some (r, ic) \<longrightarrow> canWrite \<and> \<not> rr_is_system r)"

text \<open>What the page alone makes sure of, whatever its modal hands over.\<close>

fun page_mutation :: "rbac_page \<Rightarrow> rbac_mutation \<Rightarrow> bool" where
  "page_mutation s (UseUpdateClusterRole n rs) = (\<exists>r. md_role (rp_modal s) = Some r \<and> \<not> rr_is_system r)"
| "page_mutation s (UseUpdateRole ns n rs) = (\<exists>r. md_role (rp_modal s) = Some r \<and> \<not> rr_is_system r)"
| "page_mutation s (UseCreateClusterRole n rs) = (md_role (rp_modal s) = None)"
| "page_mutation s (UseCreateRole ns n rs) = (md_role (rp_modal s) = None)"
| "page_mutation s (UseDeleteClusterRole n) =
     (\<exists>r. rp_delete_target s = Some (r, True) \<and> \<not> rr_is_system r \<and> n = rr_name r)"
| "page_mutation s (UseDeleteRole ns n) =
     (\<exists>r. rp_delete_target s = Some (r, False) \<and> \<not> rr_is_system r \<and> n = rr_name r \<and>
        ns = (case rr_namespace r of Some k \<Rightarrow> k | None \<Rightarrow> rp_namespace s))"
| "page_mutation s _ = False"

fun page_ok :: "bool \<Rightarrow> rbac_page \<Rightarrow> rbac_page_effect \<Rightarrow> bool" where
  "page_ok canWrite s (Mutate m) = (canWrite \<and> page_mutation s m)"
| "page_ok canWrite s _ = True"

text \<open>What a change of a role may be: the rules on display, for a role the editor was opened on, which is
  not a system role, under its own name and namespace, or for a new one under the name in the field; or the
  deletion of the role that was asked about.\<close>

fun mutation_ok :: "roles_screen \<Rightarrow> rbac_mutation \<Rightarrow> bool" where
  "mutation_ok s (UseUpdateClusterRole n rs) =
     (\<exists>ed r. rs_editor s = Some ed \<and> rs = ed_rules ed \<and> rs \<noteq> [] \<and> md_is_cluster (rp_modal (rs_page s)) \<and>
        md_role (rp_modal (rs_page s)) = Some r \<and> \<not> rr_is_system r \<and> n = js_trim (rr_name r))"
| "mutation_ok s (UseUpdateRole ns n rs) =
     (\<exists>ed r. rs_editor s = Some ed \<and> rs = ed_rules ed \<and> rs \<noteq> [] \<and> \<not> md_is_cluster (rp_modal (rs_page s)) \<and>
        md_role (rp_modal (rs_page s)) = Some r \<and> \<not> rr_is_system r \<and> n = js_trim (rr_name r) \<and>
        (\<forall>k. rr_namespace r = Some k \<longrightarrow> ns = k))"
| "mutation_ok s (UseCreateClusterRole n rs) =
     (\<exists>ed. rs_editor s = Some ed \<and> rs = ed_rules ed \<and> rs \<noteq> [] \<and> md_is_cluster (rp_modal (rs_page s)) \<and>
        md_role (rp_modal (rs_page s)) = None \<and> n = js_trim (ed_name ed) \<and> n \<noteq> [])"
| "mutation_ok s (UseCreateRole ns n rs) =
     (\<exists>ed. rs_editor s = Some ed \<and> rs = ed_rules ed \<and> rs \<noteq> [] \<and> \<not> md_is_cluster (rp_modal (rs_page s)) \<and>
        md_role (rp_modal (rs_page s)) = None \<and> n = js_trim (ed_name ed) \<and> n \<noteq> [] \<and> ns = ed_namespace ed)"
| "mutation_ok s m = page_mutation (rs_page s) m"

fun screen_ok :: "bool \<Rightarrow> roles_screen \<Rightarrow> rbac_page_effect \<Rightarrow> bool" where
  "screen_ok canWrite s (Mutate m) = (canWrite \<and> mutation_ok s m)"
| "screen_ok canWrite s _ = True"

lemma role_actions_fire:
  assumes "fires (role_actions w ic f) e"
  shows "e = RP_retry \<or> (w \<and> (e = RP_create ic \<or> (\<exists>r. e = RP_copy ic r \<or>
    (\<not> rr_is_system r \<and> (e = RP_edit ic r \<or> e = RP_ask_delete ic r)))))"
  using assms by (auto simp: role_actions_def fires_map split: fetched.splits if_splits)

lemma page_view_fires:
  assumes "fires (rbac_page_view w d s) e"
  shows "e \<in> {RP_refresh, RP_retry} \<or> (\<exists>b. e = RP_show_system b) \<or> (\<exists>t. e = RP_tab t) \<or>
    (\<exists>n. e = RP_namespace n) \<or>
    (w \<and> (\<exists>ic r. e = RP_create ic \<or> e = RP_copy ic r \<or>
       (\<not> rr_is_system r \<and> (e = RP_edit ic r \<or> e = RP_ask_delete ic r)))) \<or>
    (rp_delete_target s \<noteq> None \<and> (e = RP_cancel_delete \<or> e = RP_confirm_delete))"
  using assms
  by (cases "rp_tab s")
    (auto simp: rbac_page_view_def fires_map dest!: role_actions_fire split: if_splits)

lemma page_inv_event:
  assumes "page_inv w s" "fires (rbac_page_view w d s) e \<or> rbac_page_env d s e"
  shows "page_inv w (fst (rbac_page_handle s e))"
  using assms(2)
proof
  assume "fires (rbac_page_view w d s) e"
  from page_view_fires [OF this] assms(1) show ?thesis
    by (auto simp: page_inv_def open_modal_def confirmDelete_def split: option.splits)
next
  assume "rbac_page_env d s e"
  with assms(1) show ?thesis by (cases e) (auto simp: page_inv_def closed_modal_def)
qed

lemma page_save_ok:
  assumes "page_inv w s" "md_open (rp_modal s)"
  shows "page_ok w s (Mutate (page_save s n rs ns))"
  using assms by (auto simp: page_save_def Let_def page_inv_def)

lemma confirm_delete_ok:
  assumes "page_inv w s" "f \<in> set (snd (confirmDelete s))"
  shows "page_ok w s f"
  using assms by (auto simp: confirmDelete_def page_inv_def split: option.splits)

interpretation rbac_page: ui_contract "rbac_page_view w d" "rbac_page_env d" rbac_page_handle
  "page_inv w" "page_ok w"
  for w d
proof
  fix s e f
  assume inv: "page_inv w s" and e: "fires (rbac_page_view w d s) e \<or> rbac_page_env d s e"
  then show "page_inv w (fst (rbac_page_handle s e))" by (rule page_inv_event)
  assume f: "f \<in> set (snd (rbac_page_handle s e))"
  show "page_ok w s f"
  proof (cases e)
    case RP_confirm_delete
    with inv f confirm_delete_ok show ?thesis by simp
  next
    case (RP_save n rs ns)
    with e have "rbac_page_env d s (RP_save n rs ns)" by (auto dest: page_view_fires)
    with f RP_save page_save_ok [OF inv, of n rs ns] show ?thesis by auto
  qed (use f in auto)
qed

section \<open>The composed run\<close>

lemma fires_map_control: "fires (map (map_control g) cs) e \<longleftrightarrow> (\<exists>e'. fires cs e' \<and> e = g e')"
proof -
  have "offers (map_control g c) e \<longleftrightarrow> (\<exists>e'. offers c e' \<and> e = g e')" for c by (cases c) auto
  then show ?thesis by (auto simp: fires_def)
qed

lemma screen_view_fires:
  "fires (screen_view False w s) e \<longleftrightarrow>
     (case rs_editor s of
        None \<Rightarrow> \<exists>e'. e = OnPage e' \<and> fires (rbac_page_view w (rs_data s) (rs_page s)) e'
      | Some ed \<Rightarrow> \<exists>e'. e = InEditor e' \<and> fires (editor_view (screen_props s) ed) e')"
  by (auto simp: screen_view_def fires_map_control split: option.split)

definition screen_inv :: "bool \<Rightarrow> roles_screen \<Rightarrow> bool" where
  "screen_inv canWrite s \<longleftrightarrow> page_inv canWrite (rs_page s) \<and>
     (case rs_editor s of
        None \<Rightarrow> \<not> md_open (rp_modal (rs_page s))
      | Some ed \<Rightarrow> md_open (rp_modal (rs_page s)) \<and> editor_inv (screen_props s) ed)"

lemma editor_inv_props:
  assumes "editor_inv p s" "ep_role q = ep_role p" "ep_copy_from q = ep_copy_from p" "ep_namespace q = ep_namespace p"
  shows "editor_inv q s"
  using assms by (simp add: editor_inv_def editor_locked_def editor_init_def split: option.split)

lemma editor_inv_init: "editor_inv p (editor_init p)"
  by (simp add: editor_inv_def)

text \<open>An editor lives on with the props it has: only the namespaces offered and the disabled button change.\<close>

lemma mount_inv:
  assumes "page_inv w (rs_page s)"
    and "\<And>ed. rs_editor s = Some ed \<Longrightarrow> md_open (rp_modal (rs_page s)) \<Longrightarrow> editor_inv (screen_props s) ed"
  shows "screen_inv w (mount_editor s)"
proof -
  have "screen_props (s\<lparr>rs_editor := x\<rparr>) = screen_props s" for x by (simp add: screen_props_def)
  with assms editor_inv_init show ?thesis by (auto simp: screen_inv_def mount_editor_def split: option.split)
qed

lemma page_keeps_editor:
  assumes "rs_editor s = Some ed" "screen_inv w s" "screen_env s (OnPage e)"
    and "md_open (rp_modal (fst (rbac_page_handle (rs_page s) e)))"
  shows "editor_inv (screen_props (s\<lparr>rs_page := fst (rbac_page_handle (rs_page s) e)\<rparr>)) ed"
proof -
  from assms(1,2) have "editor_inv (screen_props s) ed" by (simp add: screen_inv_def)
  with assms(3,4) show ?thesis
    by (cases e) (auto simp: screen_props_def modal_props_def closed_modal_def elim: editor_inv_props)
qed

lemma env_of_page: "screen_env s (OnPage e) \<Longrightarrow> rbac_page_env (rs_data s) (rs_page s) e"
  by (cases e) auto

lemma editor_calls: "snd (editor_handle load p ed e) = [] \<or> (\<exists>f. snd (editor_handle load p ed e) = [f])"
  by (cases e) (auto simp: handleSave_def split: option.split sum.split)

lemma editor_saves_unlocked:
  "fires (editor_view p ed) e \<or> editor_env ed e \<Longrightarrow> OnSave n rs ns \<in> set (snd (editor_handle load p ed e)) \<Longrightarrow>
   \<not> ep_loading p"
  by (cases e) (auto simp: editor_view_def dest: rule_rows_fire split: option.splits sum.splits if_splits)

text \<open>What the editor hands to the page is something the page accepts, and a change as it should be.\<close>

lemma handed_over:
  assumes inv: "screen_inv w s" and ed: "rs_editor s = Some ed"
    and e: "fires (editor_view (screen_props s) ed) e \<or> editor_env ed e"
    and f: "f \<in> set (snd (editor_handle load (screen_props s) ed e))"
  shows "rbac_page_env (rs_data s) (rs_page s) (modal_callback f)"
    and "g \<in> set (snd (rbac_page_handle (rs_page s) (modal_callback f))) \<Longrightarrow> screen_ok w s g"
proof -
  from inv ed have open_now: "md_open (rp_modal (rs_page s))" and ei: "editor_inv (screen_props s) ed"
    and pi: "page_inv w (rs_page s)" by (simp_all add: screen_inv_def)
  from role_editor.ok_event [OF ei e f] have ok: "editor_ok (screen_props s) ed f" .
  show "rbac_page_env (rs_data s) (rs_page s) (modal_callback f)"
  proof (cases f)
    case (OnSave n rs ns)
    with editor_saves_unlocked [OF e] f have "\<not> ep_loading (screen_props s)" by blast
    with OnSave open_now show ?thesis by (simp add: screen_props_def modal_props_def)
  qed (use open_now in simp)
  assume g: "g \<in> set (snd (rbac_page_handle (rs_page s) (modal_callback f)))"
  show "screen_ok w s g"
  proof (cases f)
    case (OnSave n rs ns)
    with g have "g = Mutate (page_save (rs_page s) n rs ns)" by simp
    with ok OnSave pi ed open_now show ?thesis
      by (auto simp: page_save_def Let_def page_inv_def editor_save_ok_def screen_props_def modal_props_def
          split: option.splits)
  qed (use g in simp)
qed

lemma page_effects_ok:
  assumes "screen_inv w s" "fires (rbac_page_view w (rs_data s) (rs_page s)) e \<or> screen_env s (OnPage e)"
    and "f \<in> set (snd (rbac_page_handle (rs_page s) e))"
  shows "screen_ok w s f"
proof (cases e)
  case RP_confirm_delete
  with assms(1,3) show ?thesis
    by (auto simp: confirmDelete_def screen_inv_def page_inv_def split: option.splits)
next
  case (RP_save n rs ns)
  with assms(2) show ?thesis by (auto dest: page_view_fires)
qed (use assms(3) in auto)

lemma page_event_inv:
  assumes inv: "screen_inv w s"
    and e: "(rs_editor s = None \<and> fires (rbac_page_view w (rs_data s) (rs_page s)) e) \<or> screen_env s (OnPage e)"
  shows "screen_inv w (fst (screen_handle load s (OnPage e)))"
proof -
  let ?t = "fst (rbac_page_handle (rs_page s) e)"
  from inv have "page_inv w (rs_page s)" by (simp add: screen_inv_def)
  with e env_of_page have page: "page_inv w ?t" by (blast intro: page_inv_event)
  have "screen_inv w (mount_editor (s\<lparr>rs_page := ?t\<rparr>))"
  proof (rule mount_inv)
    show "page_inv w (rs_page (s\<lparr>rs_page := ?t\<rparr>))" using page by simp
    fix ed
    assume "rs_editor (s\<lparr>rs_page := ?t\<rparr>) = Some ed" "md_open (rp_modal (rs_page (s\<lparr>rs_page := ?t\<rparr>)))"
    with e inv show "editor_inv (screen_props (s\<lparr>rs_page := ?t\<rparr>)) ed"
      by (auto intro: page_keeps_editor)
  qed
  then show ?thesis by (simp add: case_prod_beta)
qed

lemma editor_event_inv:
  assumes inv: "screen_inv w s" and ed: "rs_editor s = Some ed"
    and e: "fires (editor_view (screen_props s) ed) e \<or> editor_env ed e"
  shows "screen_inv w (fst (screen_handle load s (InEditor e)))"
proof -
  obtain ed' fs where h: "editor_handle load (screen_props s) ed e = (ed', fs)" by fastforce
  from inv ed have pi: "page_inv w (rs_page s)" and ei: "editor_inv (screen_props s) ed" by (simp_all add: screen_inv_def)
  from role_editor.inv_event [OF ei e, of load] h have ei': "editor_inv (screen_props s) ed'" by simp
  from editor_calls [of load "screen_props s" ed e] h consider (none) "fs = []" | (one) f where "fs = [f]" by auto
  then show ?thesis
  proof cases
    case none
    have "screen_inv w (mount_editor (s\<lparr>rs_editor := Some ed'\<rparr>))"
      by (rule mount_inv) (use pi ei' in \<open>auto simp: screen_props_def\<close>)
    with none h ed show ?thesis by simp
  next
    case (one f)
    let ?t = "fst (rbac_page_handle (rs_page s) (modal_callback f))"
    from handed_over(1) [OF inv ed e, of f load] one h
    have "rbac_page_env (rs_data s) (rs_page s) (modal_callback f)" by simp
    with pi have page: "page_inv w ?t" by (blast intro: page_inv_event)
    have "screen_inv w (mount_editor (s\<lparr>rs_page := ?t, rs_editor := Some ed'\<rparr>))"
    proof (rule mount_inv)
      show "page_inv w (rs_page (s\<lparr>rs_page := ?t, rs_editor := Some ed'\<rparr>))" using page by simp
      show "editor_inv (screen_props (s\<lparr>rs_page := ?t, rs_editor := Some ed'\<rparr>)) ed2"
        if "rs_editor (s\<lparr>rs_page := ?t, rs_editor := Some ed'\<rparr>) = Some ed2"
          "md_open (rp_modal (rs_page (s\<lparr>rs_page := ?t, rs_editor := Some ed'\<rparr>)))" for ed2
        using that ei' by (cases f) (auto simp: screen_props_def modal_props_def closed_modal_def elim: editor_inv_props)
    qed
    with one h ed show ?thesis by (simp add: case_prod_beta)
  qed
qed

lemma editor_effects_ok:
  assumes inv: "screen_inv w s" and ed: "rs_editor s = Some ed"
    and e: "fires (editor_view (screen_props s) ed) e \<or> editor_env ed e"
    and g: "g \<in> set (snd (screen_handle load s (InEditor e)))"
  shows "screen_ok w s g"
proof -
  from editor_calls [of load "screen_props s" ed e] g ed obtain f where
    f: "snd (editor_handle load (screen_props s) ed e) = [f]" by (auto simp: case_prod_beta)
  with g ed have "g \<in> set (snd (rbac_page_handle (rs_page s) (modal_callback f)))" by (simp add: case_prod_beta)
  with handed_over(2) [OF inv ed e, of f load g] f show ?thesis by simp
qed

interpretation roles_screen: ui_contract "screen_view False w" screen_env "screen_handle load"
  "screen_inv w" "screen_ok w"
  for w load
proof
  fix s e f
  assume inv: "screen_inv w s" and e: "fires (screen_view False w s) e \<or> screen_env s e"
  show "screen_inv w (fst (screen_handle load s e))"
  proof (cases e)
    case (OnPage e')
    with e have "(rs_editor s = None \<and> fires (rbac_page_view w (rs_data s) (rs_page s)) e') \<or> screen_env s (OnPage e')"
      by (auto simp: screen_view_fires split: option.splits)
    with inv OnPage page_event_inv show ?thesis by blast
  next
    case (InEditor e')
    with e obtain ed where ed: "rs_editor s = Some ed" "fires (editor_view (screen_props s) ed) e' \<or> editor_env ed e'"
      by (auto simp: screen_view_fires split: option.splits)
    from editor_event_inv [OF inv ed] show ?thesis unfolding InEditor .
  next
    case (Answers d)
    with inv show ?thesis
      by (auto simp: screen_inv_def screen_props_def modal_props_def elim: editor_inv_props split: option.splits)
  qed
  assume f: "f \<in> set (snd (screen_handle load s e))"
  show "screen_ok w s f"
  proof (cases e)
    case (OnPage e')
    with e f have "fires (rbac_page_view w (rs_data s) (rs_page s)) e' \<or> screen_env s (OnPage e')"
      "f \<in> set (snd (rbac_page_handle (rs_page s) e'))"
      by (auto simp: screen_view_fires case_prod_beta split: option.splits)
    with inv page_effects_ok show ?thesis by blast
  next
    case (InEditor e')
    with e obtain ed where ed: "rs_editor s = Some ed" "fires (editor_view (screen_props s) ed) e' \<or> editor_env ed e'"
      by (auto simp: screen_view_fires split: option.splits)
    from f show ?thesis unfolding InEditor by (rule editor_effects_ok [OF inv ed])
  qed (use f in simp)
qed

section \<open>Properties\<close>

text \<open>What the role editor saves: in any run, whatever is typed and imported, it saves only a
  non-empty trimmed name with at least one rule (the rules shown), a namespace exactly for a
  namespaced role, and when it edits a role that role's own name and namespace.\<close>

theorem role_editor_saves:
  assumes "ui_run (editor_view p) editor_env (editor_handle load p) (editor_init p) log s"
    and "(s', OnSave name rules ns) \<in> set log"
  shows "editor_save_ok p name rules ns \<and> rules = ed_rules s' \<and> name = js_trim (ed_name s') \<and>
    ns = (if ep_is_cluster p then None else Some (ed_namespace s'))"
proof -
  have "editor_inv p (editor_init p)" by (simp add: editor_inv_def)
  from role_editor.run_ok [OF assms(1) this assms(2)] show ?thesis unfolding editor_ok.simps .
qed

definition demo_edit :: editor_props where
  "demo_edit = \<lparr>ep_role = Some \<lparr>rr_name = ''deployer'', rr_namespace = Some ''dev'', rr_rules = [],
       rr_is_system = False\<rparr>, ep_copy_from = None, ep_namespace = Some ''default'',
     ep_namespaces = [''default'', ''dev''], ep_is_cluster = False, ep_loading = False\<rparr>"

lemma plain_visible [simp]: "plain_char (CHR ''d'')" "plain_char (CHR ''r'')" "plain_char (CHR ''p'')"
  "plain_char (CHR ''s'')"
  by (simp_all add: plain_char_def ws_seqs_def)

lemma demo_edit_playable:
  "playable (editor_view demo_edit) editor_env (editor_handle load demo_edit) (editor_init demo_edit)
     [Ed_row 0 (Row_verb ''get''), Ed_save]"
  by (simp add: demo_edit_def editor_view_def editor_init_def first_rules_def first_some_def
      rule_row_view_def ALL_VERBS_def editor_locked_def emptyRule_def updateRule_def
      js_trim_plain enumerate_eq_zip)

theorem role_editor_saves_witness:
  "\<exists>s'. (s', OnSave ''deployer'' [emptyRule\<lparr>verbs := [''get'']\<rparr>] (Some ''dev'')) \<in>
     set (play_log (editor_handle (\<lambda>t. Inl None) demo_edit) (editor_init demo_edit)
       [Ed_row 0 (Row_verb ''get''), Ed_save]) \<and> ed_rules s' = [emptyRule\<lparr>verbs := [''get'']\<rparr>]"
proof -
  let ?log = "play_log (editor_handle (\<lambda>t. Inl None) demo_edit) (editor_init demo_edit)
     [Ed_row 0 (Row_verb ''get''), Ed_save]"
  have "OnSave ''deployer'' [emptyRule\<lparr>verbs := [''get'']\<rparr>] (Some ''dev'') \<in> snd ` set ?log"
    by (simp add: demo_edit_def editor_init_def first_rules_def first_some_def emptyRule_def
        updateRule_def handleSave_def js_trim_plain toggleVerb_def)
  from log_effect [OF this] obtain s' where
    s': "(s', OnSave ''deployer'' [emptyRule\<lparr>verbs := [''get'']\<rparr>] (Some ''dev'')) \<in> set ?log" ..
  note saved = role_editor_saves [OF ui_run_play [OF demo_edit_playable] s']
  show ?thesis by (intro exI conjI) (rule s', rule saved [THEN conjunct2, THEN conjunct1, symmetric])
qed

text \<open>C13. What the roles page and its editor change together: in any run, whatever the queries answer meanwhile,
  as long as the right to write stays the same and an open editor keeps the user from the page behind it, every
  change that is sent needs the right to write. A save carries the rules on display, at least one; an edit updates
  the role the editor was opened on, which is not a system role, of that kind, under its own name (trimmed) and
  namespace; a save without one creates under the name in the field, trimmed and not empty, in the namespace
  chosen; a deletion is of the role asked about, which is not a system role.\<close>

theorem rbac_page_writes:
  assumes "ui_run (screen_view False canWrite) screen_env (screen_handle load) (screen_init d) log s"
    and "(s', Mutate m) \<in> set log"
  shows "canWrite \<and> mutation_ok s' m"
proof -
  have "screen_inv canWrite (screen_init d)"
    by (simp add: screen_inv_def screen_init_def page_inv_def rbac_page_init_def closed_modal_def)
  from roles_screen.run_ok [OF assms(1) this assms(2)] show ?thesis by simp
qed

definition demo_role :: role_read where
  "demo_role = \<lparr>rr_name = ''dd'', rr_namespace = Some ''default'', rr_rules = [], rr_is_system = False\<rparr>"

definition demo_data :: rbac_data where
  "demo_data = \<lparr>rd_namespaces = [''default''], rd_roles = Ready [demo_role], rd_cluster_roles = Ready [demo_role]\<rparr>"

definition demo_screen :: "screen_event list" where
  "demo_screen = [OnPage (RP_edit False demo_role), InEditor (Ed_row 0 (Row_verb ''get'')), InEditor Ed_save]"

lemmas screen_eval = demo_role_def demo_data_def screen_init_def rbac_page_init_def closed_modal_def open_modal_def
  mount_editor_def screen_props_def modal_props_def editor_init_def first_rules_def first_some_def emptyRule_def
  editor_locked_def handleSave_def page_save_def js_trim_plain fires_map_control

lemma demo_screen_playable:
  "playable (screen_view False True) screen_env (screen_handle load) (screen_init demo_data) demo_screen"
  by (simp add: demo_screen_def screen_eval screen_view_def rbac_page_view_def role_actions_def editor_view_def
      rule_row_view_def ALL_VERBS_def updateRule_def enumerate_eq_zip)

theorem rbac_page_writes_witness:
  "\<exists>s' ed. (s', Mutate (UseUpdateRole ''default'' ''dd'' [emptyRule\<lparr>verbs := [''get'']\<rparr>])) \<in>
     set (play_log (screen_handle (\<lambda>t. Inl None)) (screen_init demo_data) demo_screen) \<and>
     rs_editor s' = Some ed \<and> ed_rules ed = [emptyRule\<lparr>verbs := [''get'']\<rparr>]"
proof -
  let ?m = "Mutate (UseUpdateRole ''default'' ''dd'' [emptyRule\<lparr>verbs := [''get'']\<rparr>])"
  let ?log = "play_log (screen_handle (\<lambda>t. Inl None)) (screen_init demo_data) demo_screen"
  have "?m \<in> snd ` set ?log"
    by (simp add: demo_screen_def screen_eval updateRule_def toggleVerb_def)
  from log_effect [OF this] obtain s' where s': "(s', ?m) \<in> set ?log" ..
  from rbac_page_writes [OF ui_run_play [OF demo_screen_playable] s'] obtain ed where
    "rs_editor s' = Some ed" "ed_rules ed = [emptyRule\<lparr>verbs := [''get'']\<rparr>]" by auto
  with s' show ?thesis by blast
qed

text \<open>With the Tab key the page behind an open editor can be reached. Opening the editor on another role there
  changes the props of the editor that is open, not its state: a name typed for a new role is saved as an update
  of the role that has that name, whichever it is.\<close>

definition tabbed_screen :: "screen_event list" where
  "tabbed_screen = [OnPage (RP_tab ClusterRolesTab), OnPage (RP_create True), InEditor (Ed_name ''rd''),
     OnPage (RP_edit True demo_role), InEditor Ed_save]"

theorem tab_key_updates_other_role:
  "playable (screen_view True True) screen_env (screen_handle load) (screen_init demo_data) tabbed_screen \<and>
   Mutate (UseUpdateClusterRole ''rd'' [emptyRule]) \<in>
     snd ` set (play_log (screen_handle load) (screen_init demo_data) tabbed_screen)"
proof
  show "playable (screen_view True True) screen_env (screen_handle load) (screen_init demo_data) tabbed_screen"
    by (simp add: tabbed_screen_def screen_eval screen_view_def rbac_page_view_def role_actions_def editor_view_def
        rule_row_view_def ALL_VERBS_def enumerate_eq_zip)
  show "Mutate (UseUpdateClusterRole ''rd'' [emptyRule]) \<in>
     snd ` set (play_log (screen_handle load) (screen_init demo_data) tabbed_screen)"
    by (simp add: tabbed_screen_def screen_eval)
qed

text \<open>The list fields read back what they show: with trimmed entries free of commas, the value of
  the resources input and that of the API groups input parse to the lists they were made of.\<close>

theorem rule_fields_roundtrip:
  assumes "\<forall>w\<in>set (resources r). list_entry w \<and> w \<noteq> []"
    and "\<forall>w\<in>set (api_groups r). list_entry w" "api_groups r \<noteq> []"
  shows "row_change r (Row_resources (js_join '', '' (resources r))) = r \<and>
    row_change r (Row_groups (js_join '', '' (api_groups r))) = r"
proof -
  have "split_nonempty (js_join '', '' (resources r)) = resources r"
  proof (cases "resources r = []")
    case False
    with assms(1) split_trim_join [of "resources r"] show ?thesis
      by (simp add: split_nonempty_def truthy_def)
  qed (simp add: split_nonempty_def split_trim_def truthy_def)
  with split_trim_join [OF assms(3,2)] show ?thesis by simp
qed

lemma demo_entries: "list_entry ''pods''" "list_entry []"
  by (simp_all add: list_entry_def js_trim_plain)

definition demo_rule :: policy_rule where
  "demo_rule = \<lparr>api_groups = [[]], resources = [''pods''], verbs = [], resource_names = Some [''a'']\<rparr>"

theorem rule_fields_roundtrip_witness: "row_change demo_rule (Row_resources ''pods'') = demo_rule"
  using rule_fields_roundtrip [of demo_rule] demo_entries by (simp add: demo_rule_def)

text \<open>A comma typed after the last resource is lost at once: the input shows the same list again,
  so a second resource cannot be typed after the first one (it can only be pasted). The API
  groups input, which keeps empty entries, does take it.\<close>

theorem typed_comma_lost:
  assumes "\<forall>w\<in>set (resources r). list_entry w \<and> w \<noteq> []" "resources r \<noteq> []"
    and "\<forall>w\<in>set (api_groups r). list_entry w" "api_groups r \<noteq> []"
  shows "row_change r (Row_resources (js_join '', '' (resources r) @ '','')) = r \<and>
    api_groups (row_change r (Row_groups (js_join '', '' (api_groups r) @ '',''))) = api_groups r @ [[]]"
  using assms split_trim_join_comma [of "resources r"] split_trim_join_comma [of "api_groups r"]
  by (simp add: split_nonempty_def truthy_def)

theorem typed_comma_lost_witness: "row_change demo_rule (Row_resources ''pods,'') = demo_rule"
  using typed_comma_lost [of demo_rule] demo_entries by (simp add: demo_rule_def)

text \<open>An edit of a rule row stays in its row: the other rules, their number and the resource
  names, which the editor does not show, are kept; the verb buttons flip exactly their verb.\<close>

theorem row_edits_local:
  assumes "i < length (ed_rules s)"
  shows "let t = fst (editor_handle load p s (Ed_row i e)) in
    length (ed_rules t) = length (ed_rules s) \<and>
    (\<forall>j < length (ed_rules s). j \<noteq> i \<longrightarrow> ed_rules t ! j = ed_rules s ! j) \<and>
    ed_rules t ! i = row_change (ed_rules s ! i) e \<and>
    resource_names (ed_rules t ! i) = resource_names (ed_rules s ! i) \<and>
    (\<forall>v w. e = Row_verb v \<longrightarrow> (w \<in> set (verbs (ed_rules t ! i)) \<longleftrightarrow>
        (if v = w then w \<notin> set (verbs (ed_rules s ! i)) else w \<in> set (verbs (ed_rules s ! i)))))"
  using assms by (cases e) (auto simp: Let_def nth_updateRule verb_toggle.has_toggle)

theorem row_edits_local_witness:
  "let s = (editor_init demo_edit)\<lparr>ed_rules := [demo_rule, emptyRule]\<rparr>
   in ed_rules (fst (editor_handle (\<lambda>t. Inl None) demo_edit s (Ed_row 0 (Row_verb ''get'')))) ! 1 = emptyRule"
  using row_edits_local [of 0 "(editor_init demo_edit)\<lparr>ed_rules := [demo_rule, emptyRule]\<rparr>"
      "\<lambda>t. Inl None" demo_edit "Row_verb ''get''"]
  by (simp add: Let_def)

text \<open>An import is all or nothing: when the text that was applied parses, its rules, each with a
  verb, replace the rules and the import closes; otherwise the rules stay and the error is shown.\<close>

theorem import_all_or_nothing:
  assumes "ed_importing s = Some txt"
  shows "let t = fst (editor_handle load p s Ed_imported) in ed_importing t = None \<and>
    (case parse_rules_yaml load txt of
       Inr rs \<Rightarrow> ed_rules t = rs \<and> (\<forall>r\<in>set rs. verbs r \<noteq> []) \<and> \<not> ed_show_import t \<and> ed_yaml_error t = None
     | Inl msg \<Rightarrow> ed_rules t = ed_rules s \<and> ed_yaml_error t = Some msg \<and> ed_show_import t = ed_show_import s)"
proof (cases "parse_rules_yaml load txt")
  case (Inr rs)
  then obtain vs where vs: "map_throw parse_rule 0 vs = Inr rs"
    by (auto simp: parse_rules_yaml_def split: sum.splits option.splits if_splits)
  have "verbs r \<noteq> []" if "r \<in> set rs" for r
  proof -
    from that obtain k where "k < length rs" "rs ! k = r" by (auto simp: in_set_conv_nth)
    with vs have "\<exists>v. parse_rule k v = Inr r" by (auto simp: map_throw_Inr_iff)
    then show ?thesis using parse_rule_ok by (auto simp: rule_ok_def)
  qed
  with Inr assms show ?thesis by (simp add: Let_def closeImport_def)
next
  case (Inl msg)
  with assms show ?thesis by (simp add: Let_def)
qed

theorem import_all_or_nothing_witness:
  "ed_yaml_error (fst (editor_handle (\<lambda>t. Inr (JArr [])) demo_edit
     ((editor_init demo_edit)\<lparr>ed_importing := Some ''[]''\<rparr>) Ed_imported)) = Some ''No rules found''"
  using import_all_or_nothing [of "(editor_init demo_edit)\<lparr>ed_importing := Some ''[]''\<rparr>" "''[]''"
      "\<lambda>t. Inr (JArr [])" demo_edit]
  by (simp add: Let_def parse_rules_yaml_def rules_value_def)

end
