(* ===== verification/Wizard.thy ===== *)
theory Wizard
  imports Systems Collections Hooks
begin

text \<open>
  \<^verbatim>\<open>components/users/CreateUserWizard.tsx\<close>: identity, permissions, credentials. The wizard stays
  mounted while it is closed, so that answers which arrive later still change its state; the
  callback of the creation reads the state of the last render. The namespaces of the cluster are
  the parameter \<open>namespaces\<close> of the view.

  The parameter \<open>eager\<close> says when React runs the updater passed to \<open>setSelectedNs\<close>: its
  documentation promises the next render (\<open>False\<close>); when nothing else is pending it may run it at
  once (\<open>True\<close>). It matters, because the updater reads a ref the handler assigns right after.
\<close>

section \<open>State\<close>

datatype wizard_step = Step1 | Step2 | Step3
datatype wizard_scope = ClusterScope | NamespaceScope
datatype kubeconfig_status = KubeIdle | KubePending | KubeData string | KubeError

definition NEW_NS :: string where
  "NEW_NS = ''__new__''"

definition PRESETS :: "(string \<times> string option) list" where
  "PRESETS = [(''none'', None), (''readonly'', Some ''view''), (''developer'', Some ''edit''),
     (''admin'', Some ''admin'')]"

text \<open>\<open>wz_creating\<close>: the creation is pending; \<open>wz_assigning\<close>: the answer whose role assignments
  are pending; \<open>wz_last_auto\<close>: \<open>lastAutoAddedNsRef\<close>.\<close>

record wizard =
  wz_open :: bool
  wz_step :: wizard_step
  wz_name :: string
  wz_name_error :: string
  wz_user_type :: user_type
  wz_sa_namespace :: string
  wz_new_namespace :: string
  wz_new_namespace_error :: string
  wz_groups :: string
  wz_preset :: string
  wz_scope :: wizard_scope
  wz_selected :: "string js_set"
  wz_inline_input :: string
  wz_inline_error :: string
  wz_extra :: "string js_set"
  wz_credentials :: "user_with_credentials option"
  wz_confirmed :: bool
  wz_copied :: bool
  wz_last_auto :: "string option"
  wz_creating :: bool
  wz_assigning :: "user_with_credentials option"
  wz_kubeconfig :: kubeconfig_status

definition wizard_init :: wizard where
  "wizard_init = \<lparr>wz_open = False, wz_step = Step1, wz_name = [], wz_name_error = [],
     wz_user_type = Service_account, wz_sa_namespace = NEW_NS, wz_new_namespace = [],
     wz_new_namespace_error = [], wz_groups = [], wz_preset = ''readonly'', wz_scope = NamespaceScope,
     wz_selected = [], wz_inline_input = [], wz_inline_error = [], wz_extra = [],
     wz_credentials = None, wz_confirmed = False, wz_copied = False, wz_last_auto = None,
     wz_creating = False, wz_assigning = None, wz_kubeconfig = KubeIdle\<rparr>"

definition pendingNs :: "wizard \<Rightarrow> string" where
  "pendingNs s = (if wz_sa_namespace s = NEW_NS then js_trim (wz_new_namespace s) else [])"

definition allNewNs :: "wizard \<Rightarrow> string js_set" where
  "allNewNs s = set_of_list ((if truthy (pendingNs s) then [pendingNs s] else []) @ wz_extra s)"

definition namespacesWithPending :: "string list \<Rightarrow> wizard \<Rightarrow> string list" where
  "namespacesWithPending namespaces s =
     filter (\<lambda>ns. ns \<notin> set namespaces) (allNewNs s) @ namespaces"

definition wizard_is_cert :: "wizard \<Rightarrow> bool" where
  "wizard_is_cert s = (wz_user_type s = Certificate)"

definition has_vault_path :: "wizard \<Rightarrow> bool" where
  "has_vault_path s = (case wz_credentials s of
     Some c \<Rightarrow> (case vault_path c of Some v \<Rightarrow> truthy v | None \<Rightarrow> False) | None \<Rightarrow> False)"

definition key_shown :: "wizard \<Rightarrow> bool" where
  "key_shown s = (wizard_is_cert s \<and> (case wz_credentials s of
     Some c \<Rightarrow> (case private_key_pem c of Some k \<Rightarrow> truthy k | None \<Rightarrow> False) | None \<Rightarrow> False))"

definition canClose :: "wizard \<Rightarrow> bool" where
  "canClose s = (wz_step s \<noteq> Step3 \<or> \<not> wizard_is_cert s \<or> wz_confirmed s \<or> has_vault_path s)"

section \<open>Step 1\<close>

definition valid_name :: "string \<Rightarrow> bool" where
  "valid_name n = matches_class ''-.'' n"

definition valid_namespace :: "string \<Rightarrow> bool" where
  "valid_namespace n = matches_class ''-'' n"

definition validateStep1 :: "wizard \<Rightarrow> wizard \<times> bool" where
  "validateStep1 s =
     (if wz_name s = [] then (s\<lparr>wz_name_error := ''Required''\<rparr>, False)
      else if \<not> valid_name (wz_name s)
      then (s\<lparr>wz_name_error := ''Lowercase letters, numbers, dashes and dots only''\<rparr>, False)
      else
        let s1 = s\<lparr>wz_name_error := []\<rparr> in
        if wz_user_type s = Service_account \<and> wz_sa_namespace s = NEW_NS \<and>
          js_trim (wz_new_namespace s) = []
        then (s1\<lparr>wz_new_namespace_error := ''Required''\<rparr>, False)
        else if wz_user_type s = Service_account \<and> wz_sa_namespace s = NEW_NS \<and>
          \<not> valid_namespace (js_trim (wz_new_namespace s))
        then (s1\<lparr>wz_new_namespace_error :=
                ''Lowercase alphanumeric and hyphens only (e.g. my-namespace)''\<rparr>, False)
        else (s1\<lparr>wz_new_namespace_error := []\<rparr>, True))"

definition auto_select :: "string option \<Rightarrow> string \<Rightarrow> string js_set \<Rightarrow> string js_set" where
  "auto_select ref pending prev =
     (let next1 = (case ref of
                     Some r \<Rightarrow> if truthy r \<and> r \<noteq> pending then set_delete prev r else prev
                   | None \<Rightarrow> prev)
      in if truthy pending then set_add next1 pending else next1)"

definition handleStep1Next :: "bool \<Rightarrow> wizard \<Rightarrow> wizard" where
  "handleStep1Next eager s =
     (let (s1, ok) = validateStep1 s in
      if \<not> ok then s1
      else
        let pending = pendingNs s; new_ref = or_undef pending;
            ref = (if eager then wz_last_auto s else new_ref)
        in s1\<lparr>wz_selected := auto_select ref pending (wz_selected s), wz_last_auto := new_ref,
              wz_step := Step2\<rparr>)"

section \<open>Steps 2 and 3\<close>

datatype wizard_effect =
  CreateUser create_user_payload | CallAssign api_call | GenerateKubeconfig kubeconfig_payload
| AssignFailedToast | CloseWizard | CopyKey string | CopyKubeconfig string
| DownloadKubeconfig string string | DownloadCredentials user_with_credentials

definition handleCreate :: "wizard \<Rightarrow> wizard \<times> wizard_effect list" where
  "handleCreate s =
     (let effectiveNamespace =
        (if wz_sa_namespace s = NEW_NS then js_trim (wz_new_namespace s) else wz_sa_namespace s)
      in (s\<lparr>wz_creating := True\<rparr>,
          [CreateUser \<lparr>cu_name = wz_name s, cu_user_type = wz_user_type s,
             cu_groups = filter truthy (map js_trim (js_split '','' (wz_groups s))),
             cu_namespace = (if wz_user_type s = Service_account then effectiveNamespace else [])\<rparr>]))"

definition addInlineNs :: "wizard \<Rightarrow> wizard" where
  "addInlineNs s =
     (let ns = js_trim (wz_inline_input s) in
      if ns = [] then s
      else if \<not> valid_namespace ns
      then s\<lparr>wz_inline_error := ''Lowercase alphanumeric and hyphens only''\<rparr>
      else s\<lparr>wz_extra := set_add (wz_extra s) ns, wz_selected := set_add (wz_selected s) ns,
             wz_inline_input := [], wz_inline_error := []\<rparr>)"

definition kubeconfig_opts :: "user_with_credentials \<Rightarrow> kubeconfig_payload" where
  "kubeconfig_opts d = \<lparr>k_username = u_name d, k_user_type = u_user_type d, k_namespace = u_namespace d,
     k_sa_namespace = (if u_user_type d = Service_account then or_undef (u_namespace d) else None),
     k_private_key_pem = private_key_pem d\<rparr>"

definition finish_creation :: "user_with_credentials \<Rightarrow> wizard \<Rightarrow> wizard \<times> wizard_effect list" where
  "finish_creation d s =
     (s\<lparr>wz_assigning := None, wz_kubeconfig := KubePending, wz_step := Step3\<rparr>,
      [GenerateKubeconfig (kubeconfig_opts d)])"

definition assign_calls :: "wizard \<Rightarrow> user_with_credentials \<Rightarrow> string \<Rightarrow> api_call list" where
  "assign_calls s d role =
     (let userKind = (if wz_user_type s = Service_account then ''ServiceAccount'' else ''User'');
          saNs = (if wz_user_type s = Service_account then Some (u_namespace d) else None);
          call = (\<lambda>ns. Rbac (RB_assignRole (u_name d)
            \<lparr>ar_role_name = role, ar_role_kind = ''ClusterRole'', ar_namespace = ns\<rparr> userKind saNs))
      in if wz_scope s = ClusterScope then [call None]
         else map (\<lambda>ns. call (Some ns)) (wz_selected s))"

definition on_created :: "user_with_credentials \<Rightarrow> wizard \<Rightarrow> wizard \<times> wizard_effect list" where
  "on_created d s0 =
     (let s = s0\<lparr>wz_creating := False, wz_credentials := Some d\<rparr> in
      case map_of PRESETS (wz_preset s) of
        Some (Some role) \<Rightarrow> (s\<lparr>wz_assigning := Some d\<rparr>, map CallAssign (assign_calls s d role))
      | _ \<Rightarrow> finish_creation d s)"

definition handleClose :: "wizard \<Rightarrow> wizard \<times> wizard_effect list" where
  "handleClose s =
     (wizard_init\<lparr>wz_open := False, wz_creating := wz_creating s, wz_assigning := wz_assigning s\<rparr>,
      [CloseWizard])"

datatype wizard_event =
  Wz_open | Wz_close | Wz_type user_type | Wz_name string | Wz_sa_namespace string
| Wz_new_namespace string | Wz_groups string | Wz_next | Wz_back | Wz_preset string
| Wz_scope wizard_scope | Wz_toggle string | Wz_inline string | Wz_inline_add | Wz_create
| Wz_created user_with_credentials | Wz_create_failed | Wz_assigned bool
| Wz_kubeconfig_ok string | Wz_kubeconfig_failed
| Wz_copy_key | Wz_copy_kubeconfig | Wz_copied_over | Wz_download_kubeconfig
| Wz_download_credentials | Wz_confirm bool

fun wizard_handle :: "bool \<Rightarrow> wizard \<Rightarrow> wizard_event \<Rightarrow> wizard \<times> wizard_effect list" where
  "wizard_handle eager s Wz_open = (s\<lparr>wz_open := True\<rparr>, [])"
| "wizard_handle eager s Wz_close = handleClose s"
| "wizard_handle eager s (Wz_type t) = (s\<lparr>wz_user_type := t\<rparr>, [])"
| "wizard_handle eager s (Wz_name v) = (s\<lparr>wz_name := v, wz_name_error := []\<rparr>, [])"
| "wizard_handle eager s (Wz_sa_namespace v) = (s\<lparr>wz_sa_namespace := v, wz_new_namespace := []\<rparr>, [])"
| "wizard_handle eager s (Wz_new_namespace v) =
     (s\<lparr>wz_new_namespace := v, wz_new_namespace_error := []\<rparr>, [])"
| "wizard_handle eager s (Wz_groups v) = (s\<lparr>wz_groups := v\<rparr>, [])"
| "wizard_handle eager s Wz_next = (handleStep1Next eager s, [])"
| "wizard_handle eager s Wz_back = (s\<lparr>wz_step := Step1\<rparr>, [])"
| "wizard_handle eager s (Wz_preset p) = (s\<lparr>wz_preset := p\<rparr>, [])"
| "wizard_handle eager s (Wz_scope sc) = (s\<lparr>wz_scope := sc\<rparr>, [])"
| "wizard_handle eager s (Wz_toggle ns) = (s\<lparr>wz_selected := set_toggle (wz_selected s) ns\<rparr>, [])"
| "wizard_handle eager s (Wz_inline v) = (s\<lparr>wz_inline_input := v, wz_inline_error := []\<rparr>, [])"
| "wizard_handle eager s Wz_inline_add = (addInlineNs s, [])"
| "wizard_handle eager s Wz_create = handleCreate s"
| "wizard_handle eager s (Wz_created d) = on_created d s"
| "wizard_handle eager s Wz_create_failed = (s\<lparr>wz_creating := False\<rparr>, [])"
| "wizard_handle eager s (Wz_assigned ok) =
     (case wz_assigning s of
        None \<Rightarrow> (s, [])
      | Some d \<Rightarrow>
          let (t, fs) = finish_creation d s in (t, (if ok then [] else [AssignFailedToast]) @ fs))"
| "wizard_handle eager s (Wz_kubeconfig_ok y) = (s\<lparr>wz_kubeconfig := KubeData y\<rparr>, [])"
| "wizard_handle eager s Wz_kubeconfig_failed = (s\<lparr>wz_kubeconfig := KubeError\<rparr>, [])"
| "wizard_handle eager s Wz_copy_key =
     (s, case wz_credentials s of
           Some c \<Rightarrow> (case private_key_pem c of
             Some k \<Rightarrow> if truthy k then [CopyKey k] else [] | None \<Rightarrow> [])
         | None \<Rightarrow> [])"
| "wizard_handle eager s Wz_copy_kubeconfig =
     (case wz_kubeconfig s of
        KubeData y \<Rightarrow> if truthy y then (s\<lparr>wz_copied := True\<rparr>, [CopyKubeconfig y]) else (s, [])
      | _ \<Rightarrow> (s, []))"
| "wizard_handle eager s Wz_copied_over = (s\<lparr>wz_copied := False\<rparr>, [])"
| "wizard_handle eager s Wz_download_kubeconfig =
     (s, case wz_kubeconfig s of KubeData y \<Rightarrow> [DownloadKubeconfig y (wz_name s)] | _ \<Rightarrow> [])"
| "wizard_handle eager s Wz_download_credentials =
     (s, case wz_credentials s of Some c \<Rightarrow> [DownloadCredentials c] | None \<Rightarrow> [])"
| "wizard_handle eager s (Wz_confirm b) = (s\<lparr>wz_confirmed := b\<rparr>, [])"

section \<open>View\<close>

definition step1_view :: "string list \<Rightarrow> wizard \<Rightarrow> wizard_event control list" where
  "step1_view namespaces s =
     [Press True (Wz_type Service_account), Press True (Wz_type Certificate),
      Input True (wz_name s) Wz_name] @
     (if wz_user_type s = Service_account
      then [Choose True (wz_sa_namespace s)
              (NEW_NS # (if namespaces \<noteq> [] then namespaces else [''default''])) Wz_sa_namespace]
      else []) @
     (if wz_user_type s = Service_account \<and> wz_sa_namespace s = NEW_NS
      then [Input True (wz_new_namespace s) Wz_new_namespace] else []) @
     (if wizard_is_cert s then [Input True (wz_groups s) Wz_groups] else []) @
     [Press True Wz_close, Press True Wz_next]"

definition create_enabled :: "wizard \<Rightarrow> bool" where
  "create_enabled s \<longleftrightarrow> \<not> wz_creating s \<and> wz_assigning s = None \<and>
     \<not> ((wz_preset s \<noteq> ''none'' \<and> wz_scope s = NamespaceScope \<and> wz_selected s = []) \<or>
        (wz_user_type s = Service_account \<and> wz_sa_namespace s = NEW_NS \<and>
         js_trim (wz_new_namespace s) = []))"

definition step2_view :: "string list \<Rightarrow> wizard \<Rightarrow> wizard_event control list" where
  "step2_view namespaces s =
     map (\<lambda>p. Press True (Wz_preset (fst p))) PRESETS @
     (if wz_preset s \<noteq> ''none''
      then [Press True (Wz_scope NamespaceScope), Press True (Wz_scope ClusterScope)] @
        (if wz_scope s = NamespaceScope
         then map (\<lambda>ns. Press True (Wz_toggle ns)) (namespacesWithPending namespaces s) @
           [Input True (wz_inline_input s) Wz_inline, Press True Wz_inline_add]
         else [])
      else []) @
     [Press True Wz_back, Press (create_enabled s) Wz_create]"

definition step3_view :: "wizard \<Rightarrow> wizard_event control list" where
  "step3_view s =
     (if key_shown s then [Press True Wz_copy_key, Press True Wz_download_credentials] else []) @
     (case wz_kubeconfig s of
        KubeData y \<Rightarrow> if truthy y then [Press True Wz_copy_kubeconfig, Press True Wz_download_kubeconfig]
          else []
      | _ \<Rightarrow> []) @
     (if wizard_is_cert s \<and> \<not> has_vault_path s then [Tick True (wz_confirmed s) Wz_confirm] else []) @
     [Press (\<not> (wizard_is_cert s \<and> \<not> wz_confirmed s \<and> \<not> has_vault_path s)) Wz_close]"

definition wizard_view :: "string list \<Rightarrow> wizard \<Rightarrow> wizard_event control list" where
  "wizard_view namespaces s =
     (if \<not> wz_open s then [Press True Wz_open]
      else (if canClose s then [Press True Wz_close] else []) @
        (case wz_step s of
           Step1 \<Rightarrow> step1_view namespaces s
         | Step2 \<Rightarrow> step2_view namespaces s
         | Step3 \<Rightarrow> step3_view s))"

fun wizard_env :: "wizard \<Rightarrow> wizard_event \<Rightarrow> bool" where
  "wizard_env s (Wz_created d) = wz_creating s"
| "wizard_env s Wz_create_failed = wz_creating s"
| "wizard_env s (Wz_assigned ok) = (wz_assigning s \<noteq> None)"
| "wizard_env s (Wz_kubeconfig_ok y) = (wz_kubeconfig s = KubePending)"
| "wizard_env s Wz_kubeconfig_failed = (wz_kubeconfig s = KubePending)"
| "wizard_env s Wz_copied_over = True"
| "wizard_env s _ = False"

section \<open>What the view lets happen\<close>

lemma step1_fires:
  assumes "fires (step1_view ns s) e"
  shows "e \<in> {Wz_close, Wz_next} \<or> (\<exists>t. e = Wz_type t) \<or> (\<exists>v. e = Wz_name v \<or> e = Wz_groups v) \<or>
    (\<exists>v. e = Wz_new_namespace v) \<or>
    (\<exists>v. e = Wz_sa_namespace v \<and> (v = NEW_NS \<or> v \<in> set ns \<or> ns = [] \<and> v = ''default''))"
  using assms by (auto simp: step1_view_def split: if_splits)

lemma step2_fires:
  assumes "fires (step2_view ns s) e"
  shows "(\<exists>p. e = Wz_preset p) \<or> (\<exists>sc. e = Wz_scope sc) \<or> e = Wz_inline_add \<or>
    (\<exists>v. e = Wz_inline v) \<or> e = Wz_back \<or>
    (\<exists>n. e = Wz_toggle n \<and> n \<in> set (namespacesWithPending ns s)) \<or>
    (e = Wz_create \<and> create_enabled s)"
  using assms by (auto simp: step2_view_def fires_map split: if_splits)

lemma step3_fires:
  assumes "fires (step3_view s) e"
  shows "e \<in> {Wz_copy_key, Wz_download_credentials, Wz_copy_kubeconfig, Wz_download_kubeconfig} \<or>
    (\<exists>b. e = Wz_confirm b) \<or> (e = Wz_close \<and> (wizard_is_cert s \<longrightarrow> wz_confirmed s \<or> has_vault_path s))"
  using assms by (auto simp: step3_view_def split: if_splits kubeconfig_status.splits)

lemma wizard_fires:
  assumes "fires (wizard_view ns s) e"
  shows "e = Wz_open \<or> (e = Wz_close \<and> canClose s) \<or>
    (wz_step s = Step1 \<and> fires (step1_view ns s) e) \<or>
    (wz_step s = Step2 \<and> fires (step2_view ns s) e) \<or>
    (wz_step s = Step3 \<and> fires (step3_view s) e)"
  using assms by (auto simp: wizard_view_def split: if_splits wizard_step.splits)

lemma create_fires:
  "fires (wizard_view ns s) Wz_create \<or> wizard_env s Wz_create \<Longrightarrow> wz_step s = Step2 \<and> create_enabled s"
  by (auto dest!: wizard_fires dest: step1_fires step2_fires step3_fires)

lemma close_fires:
  "fires (wizard_view ns s) Wz_close \<or> wizard_env s Wz_close \<Longrightarrow> canClose s"
  by (auto simp: canClose_def dest!: wizard_fires dest: step1_fires step2_fires step3_fires)

lemma set_namespacesWithPending:
  "set (namespacesWithPending ns s) =
     set ns \<union> set (wz_extra s) \<union> (if truthy (pendingNs s) then {pendingNs s} else {})"
  by (auto simp: namespacesWithPending_def allNewNs_def)

lemma set_auto_select:
  "set (auto_select ref p sel) \<subseteq> set sel \<union> (if truthy p then {p} else {})"
  "ref = Some r \<Longrightarrow> truthy r \<Longrightarrow> set (auto_select ref p sel) \<subseteq> (set sel - {r}) \<union> (if truthy p then {p} else {})"
  by (auto simp: auto_select_def Let_def split: option.splits)

section \<open>The contract of the wizard\<close>

text \<open>What step 1 has checked.\<close>

definition identity_ok :: "wizard \<Rightarrow> bool" where
  "identity_ok s \<longleftrightarrow> valid_name (wz_name s) \<and>
     (wz_user_type s = Service_account \<and> wz_sa_namespace s = NEW_NS \<longrightarrow>
        valid_namespace (js_trim (wz_new_namespace s)))"

definition sa_choice_ok :: "string list \<Rightarrow> string \<Rightarrow> bool" where
  "sa_choice_ok ns v \<longleftrightarrow> v = NEW_NS \<or> v \<in> set ns \<or> ns = [] \<and> v = ''default''"

text \<open>Step 1 is checked before step 2; the result step follows a finished creation; the
  confirmation belongs to the user shown. With the updater run at once, whatever is selected is
  listed in step 2.\<close>

definition wizard_inv :: "bool \<Rightarrow> string list \<Rightarrow> wizard \<Rightarrow> bool" where
  "wizard_inv eager ns s \<longleftrightarrow>
     (wz_step s = Step2 \<longrightarrow> identity_ok s) \<and> sa_choice_ok ns (wz_sa_namespace s) \<and>
     distinct (wz_selected s) \<and> (wz_confirmed s \<longrightarrow> wz_step s = Step3) \<and>
     (wz_step s = Step3 \<longrightarrow> \<not> wz_creating s \<and> wz_assigning s = None) \<and>
     (wz_creating s \<longrightarrow> wz_assigning s = None) \<and>
     (eager \<longrightarrow> set (wz_selected s) \<subseteq> set ns \<union> set (wz_extra s) \<union> set_option (wz_last_auto s)) \<and>
     (wz_step s = Step2 \<longrightarrow> wz_last_auto s = or_undef (pendingNs s)) \<and>
     (\<forall>r. wz_last_auto s = Some r \<longrightarrow> truthy r)"

lemma wizard_inv_init [simp]: "wizard_inv eager ns wizard_init"
  by (simp add: wizard_inv_def wizard_init_def sa_choice_ok_def)

fun grant_ok :: "bool \<Rightarrow> string list \<Rightarrow> wizard \<Rightarrow> api_call \<Rightarrow> bool" where
  "grant_ok eager ns s (Rbac (RB_assignRole u a kind saNs)) \<longleftrightarrow>
     ar_role_kind a = ''ClusterRole'' \<and> ar_role_name a \<in> {''view'', ''edit'', ''admin''} \<and>
     map_of PRESETS (wz_preset s) = Some (Some (ar_role_name a)) \<and>
     (if wz_user_type s = Service_account then kind = ''ServiceAccount'' \<and> saNs \<noteq> None
      else kind = ''User'' \<and> saNs = None) \<and>
     (case ar_namespace a of
        None \<Rightarrow> wz_scope s = ClusterScope
      | Some n \<Rightarrow> wz_scope s = NamespaceScope \<and> n \<in> set (wz_selected s) \<and>
          (eager \<and> wz_step s = Step2 \<longrightarrow> n \<in> set (namespacesWithPending ns s)))"
| "grant_ok eager ns s _ = False"

definition create_ok :: "string list \<Rightarrow> wizard \<Rightarrow> create_user_payload \<Rightarrow> bool" where
  "create_ok ns s p \<longleftrightarrow> valid_name (cu_name p) \<and>
     (\<forall>g\<in>set (cu_groups p). g \<noteq> [] \<and> js_trim g = g) \<and>
     (if cu_user_type p = Service_account
      then valid_namespace (cu_namespace p) \<or> cu_namespace p \<in> set ns \<or> ns = [] \<and> cu_namespace p = ''default''
      else cu_namespace p = []) \<and>
     (wz_preset s = ''none'' \<or> wz_scope s = ClusterScope \<or> wz_selected s \<noteq> []) \<and>
     \<not> wz_creating s \<and> wz_assigning s = None \<and> \<not> wz_confirmed s"

fun wizard_ok :: "bool \<Rightarrow> string list \<Rightarrow> wizard \<Rightarrow> wizard_effect \<Rightarrow> bool" where
  "wizard_ok eager ns s (CreateUser p) = create_ok ns s p"
| "wizard_ok eager ns s (CallAssign c) = grant_ok eager ns s c"
| "wizard_ok eager ns s CloseWizard =
     (wz_step s = Step3 \<and> key_shown s \<longrightarrow> wz_confirmed s \<or> has_vault_path s)"
| "wizard_ok eager ns s _ = True"

lemma validateStep1_ok:
  assumes "validateStep1 s = (t, True)"
  shows "identity_ok s"
  using assms by (auto simp: validateStep1_def identity_ok_def Let_def split: if_splits)

lemma validateStep1_keeps:
  assumes "validateStep1 s = (t, ok)"
  shows "t = s\<lparr>wz_name_error := wz_name_error t, wz_new_namespace_error := wz_new_namespace_error t\<rparr>"
  using assms by (auto simp: validateStep1_def Let_def split: if_splits)

lemma identity_ok_errors [simp]:
  "identity_ok (s\<lparr>wz_name_error := x, wz_new_namespace_error := y\<rparr>) = identity_ok s"
  by (simp add: identity_ok_def)

lemma wizard_inv_next:
  assumes "wizard_inv eager ns s" "wz_step s = Step1"
  shows "wizard_inv eager ns (handleStep1Next eager s)"
proof -
  obtain t ok where v: "validateStep1 s = (t, ok)" by fastforce
  obtain x y where t: "t = s\<lparr>wz_name_error := x, wz_new_namespace_error := y\<rparr>"
    using validateStep1_keeps [OF v] by blast
  show ?thesis
  proof (cases ok)
    case False
    with assms show ?thesis by (simp add: handleStep1Next_def v t wizard_inv_def)
  next
    case True
    have "identity_ok s" using v True by (auto intro: validateStep1_ok)
    with assms show ?thesis
      by (auto simp: handleStep1Next_def v t True wizard_inv_def Let_def identity_ok_def pendingNs_def
          or_undef_def auto_select_def split: option.splits if_splits)
  qed
qed

lemma wizard_inv_close:
  "wizard_inv eager ns s \<Longrightarrow> wizard_inv eager ns (fst (handleClose s))"
  by (auto simp: handleClose_def wizard_inv_def wizard_init_def sa_choice_ok_def)

lemma wizard_inv_step1:
  assumes "wizard_inv eager ns s" "wz_step s = Step1" "fires (step1_view ns s) e"
  shows "wizard_inv eager ns (fst (wizard_handle eager s e))"
proof (cases "e = Wz_next \<or> e = Wz_close")
  case True
  with assms(1,2) show ?thesis by (auto simp: wizard_inv_next wizard_inv_close)
next
  case False
  with assms(1,2) step1_fires [OF assms(3)] show ?thesis
    by (elim disjE exE conjE) (simp_all add: wizard_inv_def sa_choice_ok_def)
qed

lemma identity_ok_cong:
  "wz_name t = wz_name s \<Longrightarrow> wz_user_type t = wz_user_type s \<Longrightarrow>
   wz_sa_namespace t = wz_sa_namespace s \<Longrightarrow> wz_new_namespace t = wz_new_namespace s \<Longrightarrow>
   identity_ok t = identity_ok s \<and> pendingNs t = pendingNs s"
  by (simp add: identity_ok_def pendingNs_def)

lemma set_option_or_undef: "set_option (or_undef p) = (if truthy p then {p} else {})"
  by (simp add: or_undef_def)

lemma selected_listed:
  assumes "wizard_inv True ns s" "wz_step s = Step2"
  shows "set (wz_selected s) \<subseteq> set (namespacesWithPending ns s)"
proof -
  have "set (wz_selected s) \<subseteq> set ns \<union> set (wz_extra s) \<union> set_option (or_undef (pendingNs s))"
    using assms unfolding wizard_inv_def by (elim conjE) simp
  then show ?thesis by (simp add: set_namespacesWithPending set_option_or_undef)
qed

text \<open>What a change within step 2 has to keep.\<close>

lemma wizard_inv_step2I:
  assumes "wizard_inv eager ns s" "wz_step s = Step2"
    and "wz_name t = wz_name s" "wz_user_type t = wz_user_type s"
      "wz_sa_namespace t = wz_sa_namespace s" "wz_new_namespace t = wz_new_namespace s"
      "wz_confirmed t = wz_confirmed s" "wz_last_auto t = wz_last_auto s"
      "wz_assigning t = wz_assigning s" "wz_step t \<noteq> Step3"
    and "wz_creating t \<longrightarrow> wz_assigning s = None" "distinct (wz_selected t)"
    and "set (wz_selected t) \<subseteq> set (wz_selected s) \<union> set ns \<union> set (wz_extra t) \<union> set_option (wz_last_auto s)"
      "set (wz_extra s) \<subseteq> set (wz_extra t)"
  shows "wizard_inv eager ns t"
proof -
  note same = identity_ok_cong [OF assms(3-6)]
  have inv: "wz_step s = Step2" "identity_ok s" "sa_choice_ok ns (wz_sa_namespace s)"
    "\<not> wz_confirmed s" "wz_last_auto s = or_undef (pendingNs s)"
    "\<forall>r. wz_last_auto s = Some r \<longrightarrow> truthy r"
    "eager \<longrightarrow> set (wz_selected s) \<subseteq> set ns \<union> set (wz_extra s) \<union> set_option (wz_last_auto s)"
    using assms(1,2) by (auto simp: wizard_inv_def)
  have "eager \<longrightarrow> set (wz_selected t) \<subseteq> set ns \<union> set (wz_extra t) \<union> set_option (wz_last_auto t)"
    using inv(7) assms(8,13,14) by auto
  with inv assms same show ?thesis unfolding wizard_inv_def by (intro conjI) simp_all
qed

lemma wizard_inv_step2:
  assumes "wizard_inv eager ns s" "wz_step s = Step2" "fires (step2_view ns s) e"
  shows "wizard_inv eager ns (fst (wizard_handle eager s e))"
proof (rule wizard_inv_step2I [OF assms(1,2)])
  let ?t = "fst (wizard_handle eager s e)"
  have d: "distinct (wz_selected s)" and p: "wz_last_auto s = or_undef (pendingNs s)"
    using assms(1,2) by (simp_all add: wizard_inv_def)
  have a: "wz_creating s \<longrightarrow> wz_assigning s = None" using assms(1) by (simp add: wizard_inv_def)
  note cases = step2_fires [OF assms(3)]
  note defs = handleCreate_def addInlineNs_def Let_def
  show "wz_name ?t = wz_name s" "wz_user_type ?t = wz_user_type s"
      "wz_sa_namespace ?t = wz_sa_namespace s" "wz_new_namespace ?t = wz_new_namespace s"
      "wz_confirmed ?t = wz_confirmed s" "wz_last_auto ?t = wz_last_auto s"
      "wz_assigning ?t = wz_assigning s"
    using cases by (auto simp: defs split: if_splits)
  show "wz_step ?t \<noteq> Step3" using cases assms(2) by (auto simp: defs split: if_splits)
  show "wz_creating ?t \<longrightarrow> wz_assigning s = None"
    using cases a by (auto simp: defs create_enabled_def split: if_splits)
  show "distinct (wz_selected ?t)" using cases d by (auto simp: defs split: if_splits)
  show "set (wz_extra s) \<subseteq> set (wz_extra ?t)" using cases by (auto simp: defs split: if_splits)
  show "set (wz_selected ?t) \<subseteq>
      set (wz_selected s) \<union> set ns \<union> set (wz_extra ?t) \<union> set_option (wz_last_auto s)"
    using cases by (auto simp: defs p or_undef_def set_set_toggle set_namespacesWithPending
        split: if_splits)
qed

lemma wizard_inv_step3:
  assumes "wizard_inv eager ns s" "wz_step s = Step3" "fires (step3_view s) e"
  shows "wizard_inv eager ns (fst (wizard_handle eager s e))"
proof (cases "e = Wz_close")
  case False
  have "wizard_inv eager ns (s\<lparr>wz_confirmed := b\<rparr>)" "wizard_inv eager ns (s\<lparr>wz_copied := b\<rparr>)" for b
    using assms(1,2) by (simp_all add: wizard_inv_def)
  with False assms(1) step3_fires [OF assms(3)] show ?thesis
    by (auto split: kubeconfig_status.splits)
qed (use assms(1) in \<open>simp add: wizard_inv_close\<close>)

lemma wizard_inv_finish:
  "wizard_inv eager ns s \<Longrightarrow> \<not> wz_creating s \<Longrightarrow> wizard_inv eager ns (fst (finish_creation d s))"
  by (simp add: wizard_inv_def finish_creation_def)

lemma wizard_inv_created:
  assumes "wizard_inv eager ns s" "wz_creating s"
  shows "wizard_inv eager ns (fst (on_created d s))"
proof -
  let ?s = "s\<lparr>wz_creating := False, wz_credentials := Some d\<rparr>"
  have "wizard_inv eager ns ?s" "wizard_inv eager ns (?s\<lparr>wz_assigning := Some d\<rparr>)"
    using assms identity_ok_cong [of ?s s] identity_ok_cong [of "?s\<lparr>wz_assigning := Some d\<rparr>" s]
    by (auto simp: wizard_inv_def)
  with wizard_inv_finish [of eager ns ?s d] show ?thesis
    by (simp add: on_created_def Let_def split: option.split)
qed

lemma wizard_inv_env:
  assumes "wizard_inv eager ns s" "wizard_env s e"
  shows "wizard_inv eager ns (fst (wizard_handle eager s e))"
proof (cases e)
  case (Wz_created d)
  with assms show ?thesis by (simp add: wizard_inv_created)
next
  case (Wz_assigned ok)
  with assms(2) obtain d where d: "wz_assigning s = Some d" by auto
  with assms(1) have "\<not> wz_creating s" by (auto simp: wizard_inv_def)
  from wizard_inv_finish [OF assms(1) this, of d] d Wz_assigned show ?thesis
    by (simp add: split_beta)
qed (use assms in \<open>auto simp: wizard_inv_def identity_ok_def pendingNs_def\<close>)

lemma wizard_inv_event:
  assumes "wizard_inv eager ns s" "fires (wizard_view ns s) e \<or> wizard_env s e"
  shows "wizard_inv eager ns (fst (wizard_handle eager s e))"
  using assms(2)
proof
  assume "fires (wizard_view ns s) e"
  then consider "e = Wz_open" | "e = Wz_close"
    | "wz_step s = Step1" "fires (step1_view ns s) e"
    | "wz_step s = Step2" "fires (step2_view ns s) e"
    | "wz_step s = Step3" "fires (step3_view s) e"
    by (auto dest: wizard_fires)
  then show ?thesis
  proof cases
    case 1
    with assms(1) identity_ok_cong [of "s\<lparr>wz_open := True\<rparr>" s] show ?thesis by (simp add: wizard_inv_def)
  qed (use assms(1) in \<open>simp_all add: wizard_inv_close wizard_inv_step1 wizard_inv_step2 wizard_inv_step3\<close>)
qed (rule wizard_inv_env [OF assms(1)])

lemma preset_roles: "map_of PRESETS p = Some (Some role) \<Longrightarrow> role \<in> {''view'', ''edit'', ''admin''}"
  by (auto simp: PRESETS_def split: if_splits)

lemma finish_effects: "f \<in> set (snd (finish_creation d s)) \<Longrightarrow> f = GenerateKubeconfig (kubeconfig_opts d)"
  by (simp add: finish_creation_def)

lemma assign_call_ok:
  assumes "wizard_inv eager ns s" "map_of PRESETS (wz_preset s) = Some (Some role)"
    and "c \<in> set (assign_calls s d role)"
  shows "grant_ok eager ns s c"
proof -
  note role = preset_roles [OF assms(2)]
  have listed: "eager \<and> wz_step s = Step2 \<longrightarrow> n \<in> set (namespacesWithPending ns s)"
    if "n \<in> set (wz_selected s)" for n
    using selected_listed [of ns s] assms(1) that by auto
  show ?thesis
  proof (cases "wz_scope s")
    case ClusterScope
    with assms(2,3) role show ?thesis by (auto simp: assign_calls_def Let_def)
  next
    case NamespaceScope
    with assms(3) obtain n where "n \<in> set (wz_selected s)"
      and "c = Rbac (RB_assignRole (u_name d)
        \<lparr>ar_role_name = role, ar_role_kind = ''ClusterRole'', ar_namespace = Some n\<rparr>
        (if wz_user_type s = Service_account then ''ServiceAccount'' else ''User'')
        (if wz_user_type s = Service_account then Some (u_namespace d) else None))"
      by (auto simp: assign_calls_def Let_def)
    with assms(2) role listed NamespaceScope show ?thesis by simp
  qed
qed

lemma assign_calls_cong:
  "wz_user_type t = wz_user_type s \<Longrightarrow> wz_scope t = wz_scope s \<Longrightarrow> wz_selected t = wz_selected s \<Longrightarrow>
   assign_calls t d role = assign_calls s d role"
  by (simp add: assign_calls_def Let_def)

lemma created_effects:
  "map_of PRESETS (wz_preset s) = Some (Some role) \<Longrightarrow>
   snd (on_created d s) = map CallAssign (assign_calls s d role)"
proof -
  assume role: "map_of PRESETS (wz_preset s) = Some (Some role)"
  have "assign_calls (s\<lparr>wz_creating := False, wz_credentials := Some d\<rparr>) d role = assign_calls s d role"
    by (rule assign_calls_cong) simp_all
  with role show ?thesis by (simp add: on_created_def Let_def)
qed

lemma created_ok:
  assumes "wizard_inv eager ns s" "f \<in> set (snd (on_created d s))"
  shows "wizard_ok eager ns s f"
proof (cases "\<exists>role. map_of PRESETS (wz_preset s) = Some (Some role)")
  case True
  then obtain role where role: "map_of PRESETS (wz_preset s) = Some (Some role)" ..
  with assms(2) obtain c where "f = CallAssign c" "c \<in> set (assign_calls s d role)"
    by (auto simp: created_effects)
  with assign_call_ok [OF assms(1) role] show ?thesis by simp
next
  case False
  with assms(2) have "f = GenerateKubeconfig (kubeconfig_opts d)"
    by (auto simp: on_created_def Let_def finish_creation_def split: option.splits)
  then show ?thesis by simp
qed

lemma create_user_ok:
  assumes "wizard_inv eager ns s" "wz_step s = Step2" "create_enabled s"
    and "f \<in> set (snd (handleCreate s))"
  shows "wizard_ok eager ns s f"
proof -
  define p where "p = \<lparr>cu_name = wz_name s, cu_user_type = wz_user_type s,
    cu_groups = filter truthy (map js_trim (js_split '','' (wz_groups s))),
    cu_namespace = (if wz_user_type s = Service_account
      then (if wz_sa_namespace s = NEW_NS then js_trim (wz_new_namespace s) else wz_sa_namespace s)
      else [])\<rparr>"
  have inv: "identity_ok s" "sa_choice_ok ns (wz_sa_namespace s)" "\<not> wz_confirmed s"
    using assms(1,2) by (auto simp: wizard_inv_def)
  have "\<forall>g\<in>set (cu_groups p). g \<noteq> [] \<and> js_trim g = g" by (auto simp: p_def truthy_def)
  moreover have "valid_name (cu_name p)" using inv(1) by (simp add: p_def identity_ok_def)
  moreover have "if cu_user_type p = Service_account
      then valid_namespace (cu_namespace p) \<or> cu_namespace p \<in> set ns \<or> ns = [] \<and> cu_namespace p = ''default''
      else cu_namespace p = []"
    using inv(1,2) by (auto simp: p_def identity_ok_def sa_choice_ok_def)
  moreover have "wz_preset s = ''none'' \<or> wz_scope s = ClusterScope \<or> wz_selected s \<noteq> []"
    using assms(3) by (cases "wz_scope s") (simp_all add: create_enabled_def)
  moreover have "\<not> wz_creating s \<and> wz_assigning s = None" using assms(3) by (simp add: create_enabled_def)
  ultimately have "create_ok ns s p" using inv(3) unfolding create_ok_def by blast
  moreover have "f = CreateUser p" using assms(4) by (simp add: handleCreate_def p_def)
  ultimately show ?thesis by simp
qed

interpretation wizard: ui_contract "wizard_view ns" wizard_env "wizard_handle eager"
  "wizard_inv eager ns" "wizard_ok eager ns"
  for eager ns
proof
  fix s e f
  assume inv: "wizard_inv eager ns s" and e: "fires (wizard_view ns s) e \<or> wizard_env s e"
  then show "wizard_inv eager ns (fst (wizard_handle eager s e))" by (rule wizard_inv_event)
  assume f: "f \<in> set (snd (wizard_handle eager s e))"
  show "wizard_ok eager ns s f"
  proof (cases e)
    case Wz_close
    with f close_fires [of ns s] e show ?thesis by (auto simp: handleClose_def canClose_def key_shown_def)
  next
    case Wz_create
    with f inv create_fires [of ns s] e show ?thesis by (auto intro: create_user_ok)
  next
    case (Wz_created d)
    with f inv show ?thesis by (simp add: created_ok)
  next
    case (Wz_assigned ok)
    with f show ?thesis
      by (auto simp: split_beta dest!: finish_effects split: option.splits if_splits)
  qed (use f in \<open>auto split: option.splits kubeconfig_status.splits if_splits\<close>)
qed

section \<open>Properties\<close>

text \<open>What the wizard creates: in any run, whatever is typed, only a user with a valid name and
  trimmed, non-empty groups; a service account in a valid new namespace or in one of the
  cluster's, a certificate user in none; with a role to grant somewhere (or none); one at a time,
  and never with the confirmation of an earlier key still ticked.\<close>

theorem wizard_creates:
  assumes "ui_run (wizard_view ns) wizard_env (wizard_handle eager) wizard_init log s"
    and "(s', CreateUser p) \<in> set log"
  shows "create_ok ns s' p"
  using wizard.run_ok [OF assms(1) wizard_inv_init assms(2)] by simp

definition demo_user :: user_with_credentials where
  "demo_user = \<lparr>u_name = ''ci'', u_user_type = Service_account, u_groups = [], u_namespace = ''bb'',
     u_created_at = [], u_cert_expiry = None, u_csr_name = None, private_key_pem = None,
     certificate_pem = None, vault_path = None\<rparr>"

definition demo_cert :: user_with_credentials where
  "demo_cert = demo_user\<lparr>u_user_type := Certificate, u_namespace := [], private_key_pem := Some ''key''\<rparr>"

definition renamed :: "wizard_event list" where
  "renamed = [Wz_open, Wz_name ''ci'', Wz_new_namespace ''aa'', Wz_next, Wz_back,
     Wz_new_namespace ''bb'', Wz_next, Wz_create, Wz_created demo_user]"

lemma plain_wizard [simp]: "plain_char (CHR ''a'')" "plain_char (CHR ''b'')" "plain_char (CHR ''A'')"
  "plain_char (CHR ''!'')"
  by (simp_all add: plain_char_def ws_seqs_def)

lemmas wizard_eval = renamed_def wizard_init_def wizard_view_def step1_view_def step2_view_def
  canClose_def wizard_is_cert_def handleStep1Next_def validateStep1_def valid_name_def
  valid_namespace_def lower_alnum_def pendingNs_def or_undef_def truthy_def auto_select_def
  set_add_def set_delete_def create_enabled_def handleCreate_def on_created_def PRESETS_def
  assign_calls_def NEW_NS_def js_trim_plain Let_def

lemma renamed_playable:
  "playable (wizard_view []) wizard_env (wizard_handle eager) wizard_init renamed"
  by (cases eager) (simp_all add: wizard_eval)

theorem wizard_creates_witness:
  "\<exists>s' p. (s', CreateUser p) \<in> set (play_log (wizard_handle True) wizard_init renamed) \<and>
     cu_namespace p = ''bb'' \<and> create_ok [] s' p"
proof -
  let ?p = "\<lparr>cu_name = ''ci'', cu_user_type = Service_account, cu_groups = [], cu_namespace = ''bb''\<rparr>"
  have "CreateUser ?p \<in> snd ` set (play_log (wizard_handle True) wizard_init renamed)"
    by (simp add: wizard_eval)
  from log_effect [OF this] obtain s' where
    s': "(s', CreateUser ?p) \<in> set (play_log (wizard_handle True) wizard_init renamed)" ..
  with wizard_creates [OF ui_run_play [OF renamed_playable] s'] show ?thesis
    by (intro exI conjI) simp_all
qed

text \<open>C11. What the wizard grants: in any run only one of the three preset roles, the chosen one, to the
  kind of user chosen, across the cluster exactly when that scope is chosen and otherwise in
  selected namespaces. When the updater of the selection runs at once (\<open>eager\<close>), a namespace
  granted while step 2 is open is one that step lists: what is granted is what is shown.\<close>

theorem wizard_grants:
  assumes "ui_run (wizard_view ns) wizard_env (wizard_handle eager) wizard_init log s"
    and "(s', CallAssign c) \<in> set log"
  shows "grant_ok eager ns s' c"
  using wizard.run_ok [OF assms(1) wizard_inv_init assms(2)] by simp

definition grant_in :: "string \<Rightarrow> string \<Rightarrow> string option \<Rightarrow> string \<Rightarrow> api_call" where
  "grant_in u kind saNs n = Rbac (RB_assignRole u
     \<lparr>ar_role_name = ''view'', ar_role_kind = ''ClusterRole'', ar_namespace = Some n\<rparr> kind saNs)"

theorem wizard_grants_witness:
  "\<exists>s'. (s', CallAssign (grant_in ''ci'' ''ServiceAccount'' (Some ''bb'') ''bb'')) \<in>
     set (play_log (wizard_handle True) wizard_init renamed) \<and> ''bb'' \<in> set (wz_selected s')"
proof -
  let ?c = "grant_in ''ci'' ''ServiceAccount'' (Some ''bb'') ''bb''"
  have "CallAssign ?c \<in> snd ` set (play_log (wizard_handle True) wizard_init renamed)"
    by (simp add: wizard_eval grant_in_def demo_user_def)
  from log_effect [OF this] obtain s' where
    s': "(s', CallAssign ?c) \<in> set (play_log (wizard_handle True) wizard_init renamed)" ..
  with wizard_grants [OF ui_run_play [OF renamed_playable] s'] show ?thesis
    by (auto simp: grant_in_def)
qed

text \<open>Grants nobody saw: when React runs the updater at the next render, as its documentation says,
  a namespace that was typed, passed and renamed stays selected: the role is granted in
  \<open>aa\<close>, which step 2 does not list (the cleanup reads the ref after it was overwritten). And in
  both readings a namespace typed for a service account before switching to a certificate user
  is granted without ever being checked against the name pattern.\<close>

definition switched :: "wizard_event list" where
  "switched = [Wz_open, Wz_name ''ci'', Wz_new_namespace ''A!'', Wz_type Certificate, Wz_next,
     Wz_create, Wz_created demo_cert]"

lemma switched_playable:
  "playable (wizard_view []) wizard_env (wizard_handle eager) wizard_init switched"
  by (cases eager) (simp_all add: switched_def wizard_eval)

theorem wizard_grants_unseen:
  "(\<exists>log s s'. ui_run (wizard_view []) wizard_env (wizard_handle False) wizard_init log s \<and>
      (s', CallAssign (grant_in ''ci'' ''ServiceAccount'' (Some ''bb'') ''aa'')) \<in> set log \<and>
      wz_step s' = Step2 \<and> ''aa'' \<notin> set (namespacesWithPending [] s')) \<and>
   (\<exists>log s. ui_run (wizard_view []) wizard_env (wizard_handle eager) wizard_init log s \<and>
      CallAssign (grant_in ''ci'' ''User'' None ''A!'') \<in> snd ` set log \<and> \<not> valid_namespace ''A!'')"
proof
  let ?c = "grant_in ''ci'' ''ServiceAccount'' (Some ''bb'') ''aa''"
  have "\<exists>s'. (s', CallAssign ?c) \<in> set (play_log (wizard_handle False) wizard_init renamed) \<and>
    wz_step s' = Step2 \<and> ''aa'' \<notin> set (namespacesWithPending [] s')"
    by (simp add: wizard_eval grant_in_def demo_user_def demo_cert_def namespacesWithPending_def allNewNs_def
        set_of_list_def)
  with ui_run_play [OF renamed_playable, of False]
  show "\<exists>log s s'. ui_run (wizard_view []) wizard_env (wizard_handle False) wizard_init log s \<and>
      (s', CallAssign ?c) \<in> set log \<and> wz_step s' = Step2 \<and> ''aa'' \<notin> set (namespacesWithPending [] s')"
    by blast
next
  have "CallAssign (grant_in ''ci'' ''User'' None ''A!'') \<in>
      snd ` set (play_log (wizard_handle eager) wizard_init switched)"
    by (cases eager) (simp_all add: switched_def wizard_eval grant_in_def demo_user_def demo_cert_def)
  moreover have "\<not> valid_namespace ''A!''" by (simp add: valid_namespace_def lower_alnum_def)
  ultimately
  show "\<exists>log s. ui_run (wizard_view []) wizard_env (wizard_handle eager) wizard_init log s \<and>
      CallAssign (grant_in ''ci'' ''User'' None ''A!'') \<in> snd ` set log \<and> \<not> valid_namespace ''A!''"
    using ui_run_play [OF switched_playable, of eager] by blast
qed

text \<open>C23. The one-time private key: once it is shown and not stored in Vault, it stays shown, in the same
  step and with the same credentials, whatever happens, until the user has ticked the
  confirmation; before that nothing closes the wizard.\<close>

theorem one_time_key:
  assumes "ui_run (wizard_view ns) wizard_env (wizard_handle eager) wizard_init log s"
    and "wz_step s = Step3" "key_shown s" "\<not> wz_confirmed s" "\<not> has_vault_path s"
    and "fires (wizard_view ns s) e \<or> wizard_env s e"
  shows "let t = fst (wizard_handle eager s e) in
    key_shown t \<and> wz_credentials t = wz_credentials s \<and> wz_step t = Step3 \<and>
    CloseWizard \<notin> set (snd (wizard_handle eager s e))"
proof -
  have inv: "\<not> wz_creating s" "wz_assigning s = None"
    using wizard.run_inv [OF assms(1) wizard_inv_init] assms(2) by (auto simp: wizard_inv_def)
  have cert: "wizard_is_cert s" using assms(3) by (simp add: key_shown_def)
  from assms(6) have "e = Wz_open \<or> fires (step3_view s) e \<or> wizard_env s e"
    using assms(2,4,5) cert by (auto simp: canClose_def dest: wizard_fires)
  then show ?thesis
  proof (elim disjE)
    assume "fires (step3_view s) e"
    from step3_fires [OF this] cert assms(2-5) show ?thesis
      by (auto simp: Let_def key_shown_def wizard_is_cert_def
          split: option.splits kubeconfig_status.splits if_splits)
  next
    assume "wizard_env s e"
    with inv assms(2,3) show ?thesis
      by (cases e) (auto simp: Let_def key_shown_def wizard_is_cert_def)
  qed (use assms(2,3) in \<open>simp add: key_shown_def wizard_is_cert_def\<close>)
qed

definition cert_user :: "wizard_event list" where
  "cert_user = [Wz_open, Wz_name ''ci'', Wz_type Certificate, Wz_next, Wz_preset ''none'',
     Wz_create, Wz_created demo_cert]"

lemma cert_user_playable:
  "playable (wizard_view []) wizard_env (wizard_handle True) wizard_init cert_user"
  by (simp add: cert_user_def wizard_eval)

theorem one_time_key_witness:
  "key_shown (fst (wizard_handle True (play (wizard_handle True) wizard_init cert_user) Wz_kubeconfig_failed))"
proof -
  let ?s = "play (wizard_handle True) wizard_init cert_user"
  have "wz_step ?s = Step3" "key_shown ?s" "\<not> wz_confirmed ?s" "\<not> has_vault_path ?s"
      "wizard_env ?s Wz_kubeconfig_failed"
    by (simp_all add: cert_user_def wizard_eval finish_creation_def key_shown_def has_vault_path_def
        demo_user_def demo_cert_def)
  from one_time_key [OF ui_run_play [OF cert_user_playable] this(1-4) disjI2 [OF this(5)]]
  show ?thesis by (simp add: Let_def)
qed

text \<open>The key that is lost: the wizard can be closed while the creation is pending. The answer then
  finds the reset form: the wizard reopens on the result step with the new user's only private
  key, does not show it, and can be closed without a confirmation; and the role chosen for the
  user (here across the cluster) is granted nowhere.\<close>

definition closed_early :: "wizard_event list" where
  "closed_early = [Wz_open, Wz_name ''ci'', Wz_type Certificate, Wz_next, Wz_scope ClusterScope,
     Wz_create, Wz_close, Wz_created demo_cert, Wz_assigned True, Wz_open]"

lemma closed_early_playable:
  "playable (wizard_view []) wizard_env (wizard_handle True) wizard_init closed_early"
  by (simp add: closed_early_def wizard_eval handleClose_def finish_creation_def)

theorem one_time_key_lost:
  "\<exists>log s s' p. ui_run (wizard_view []) wizard_env (wizard_handle True) wizard_init log s \<and>
     (s', CreateUser p) \<in> set log \<and> cu_user_type p = Certificate \<and>
     wz_preset s' = ''readonly'' \<and> wz_scope s' = ClusterScope \<and>
     list_all (\<lambda>(t, f). case f of CallAssign c \<Rightarrow> False | _ \<Rightarrow> True) log \<and>
     wz_open s \<and> wz_step s = Step3 \<and> wz_credentials s = Some demo_cert \<and> private_key_pem demo_cert = Some ''key'' \<and>
     \<not> key_shown s \<and> \<not> wz_confirmed s \<and> fires (wizard_view [] s) Wz_close"
proof -
  let ?log = "play_log (wizard_handle True) wizard_init closed_early"
  let ?s = "play (wizard_handle True) wizard_init closed_early"
  have "\<exists>s' p. (s', CreateUser p) \<in> set ?log \<and> cu_user_type p = Certificate \<and>
     wz_preset s' = ''readonly'' \<and> wz_scope s' = ClusterScope"
    by (simp add: closed_early_def wizard_eval handleClose_def finish_creation_def)
  moreover have "list_all (\<lambda>(t, f). case f of CallAssign c \<Rightarrow> False | _ \<Rightarrow> True) ?log"
    by (simp add: closed_early_def wizard_eval handleClose_def finish_creation_def)
  moreover have "wz_open ?s \<and> wz_step ?s = Step3 \<and> wz_credentials ?s = Some demo_cert \<and>
     \<not> key_shown ?s \<and> \<not> wz_confirmed ?s \<and> fires (wizard_view [] ?s) Wz_close"
    by (simp add: closed_early_def wizard_eval handleClose_def finish_creation_def key_shown_def)
  moreover have "private_key_pem demo_cert = Some ''key''" by (simp add: demo_cert_def)
  ultimately show ?thesis using ui_run_play [OF closed_early_playable] by blast
qed

end
