(* ===== verification/Gate.thy ===== *)
theory Gate
  imports Systems
begin

text \<open>
  The shared widgets (\<^verbatim>\<open>components/ui/Button.tsx\<close>, \<^verbatim>\<open>components/ui/Modal.tsx\<close>) and the dialog that
  every destructive operation of the frontend goes through: a click puts the object into a
  \<open>target\<close>, the dialog shows it, and only the button of the dialog starts the request.

  The dialog is specified once, as a machine of its own (\<open>gate_handle\<close>); the pages refine it,
  each with its own state and its own events (locale \<open>ui_refinement\<close>).
\<close>

section \<open>Widgets\<close>

text \<open>A button is disabled while it is \<open>loading\<close>. The cross, the Escape key and the backdrop of a
  modal all call \<open>onClose\<close> (the backdrop unless \<open>closeOnBackdrop\<close> is false), so they offer one
  event; the body is there while the modal is open.\<close>

definition button :: "bool \<Rightarrow> bool \<Rightarrow> 'e \<Rightarrow> 'e control" where
  "button loading disabled e = Press (\<not> (disabled \<or> loading)) e"

definition modal :: "bool \<Rightarrow> 'e \<Rightarrow> 'e control list \<Rightarrow> 'e control list" where
  "modal open onClose body = (if open then Press True onClose # body else [])"

lemma offers_button [simp]: "offers (button loading disabled e) e' \<longleftrightarrow> \<not> disabled \<and> \<not> loading \<and> e = e'"
  by (auto simp: button_def)

lemma fires_modal [simp]: "fires (modal open onClose body) e \<longleftrightarrow> open \<and> (e = onClose \<or> fires body e)"
  by (auto simp: modal_def)

definition confirm_dialog :: "bool \<Rightarrow> bool \<Rightarrow> 'e \<Rightarrow> 'e \<Rightarrow> 'e control list" where
  "confirm_dialog open pending cancel confirm =
     modal open cancel [Press True cancel, button pending False confirm]"

lemma fires_confirm_dialog [simp]:
  "fires (confirm_dialog open pending cancel confirm) e \<longleftrightarrow>
     open \<and> (e = cancel \<or> \<not> pending \<and> e = confirm)"
  by (auto simp: confirm_dialog_def)

text \<open>Reading a view: what an optional part, a part for a loaded answer and a list of rows offer.\<close>

lemma fires_nothing: "fires [] e \<longleftrightarrow> False"
  by simp

lemma fires_when: "fires (if b then cs else []) e \<longleftrightarrow> b \<and> fires cs e"
  by simp

lemma fires_loaded: "fires (case x of None \<Rightarrow> [] | Some y \<Rightarrow> f y) e \<longleftrightarrow> (\<exists>y. x = Some y \<and> fires (f y) e)"
  by (cases x) simp_all

lemma fires_rows: "fires (concat (map f xs)) e \<longleftrightarrow> (\<exists>x. x \<in> set xs \<and> fires (f x) e)"
  by (auto simp: fires_concat_map)

lemma fires_list: "fires (map f xs) e \<longleftrightarrow> (\<exists>x. x \<in> set xs \<and> offers (f x) e)"
  by (auto simp: fires_map)

text \<open>A component inside another: its events are wrapped.\<close>

definition embed :: "('d \<Rightarrow> 'e) \<Rightarrow> 'd control list \<Rightarrow> 'e control list" where
  "embed f cs = map (map_control f) cs"

lemma offers_map_control: "offers (map_control f c) e \<longleftrightarrow> (\<exists>e'. e = f e' \<and> offers c e')"
  by (cases c) auto

lemma fires_embed: "fires (embed f cs) e \<longleftrightarrow> (\<exists>e'. e = f e' \<and> fires cs e')"
  by (auto simp: fires_def embed_def offers_map_control)

lemmas reads_view = fires_append fires_Cons fires_nothing fires_when fires_loaded fires_rows fires_list fires_embed
  fires_modal fires_confirm_dialog offers.simps offers_button

section \<open>The specification of a confirmed operation\<close>

datatype 'a gate_event = Ask 'a | Cancel | Confirm | Finished | Other

fun gate_handle :: "'a option \<Rightarrow> 'a gate_event \<Rightarrow> 'a option \<times> 'a list" where
  "gate_handle t (Ask x) = (Some x, [])"
| "gate_handle t Cancel = (None, [])"
| "gate_handle t Confirm = (t, case t of Some x \<Rightarrow> [x] | None \<Rightarrow> [])"
| "gate_handle t Finished = (None, [])"
| "gate_handle t Other = (t, [])"

text \<open>\<open>may x\<close>: the page offers the operation for \<open>x\<close>.\<close>

fun gate_env :: "('a \<Rightarrow> bool) \<Rightarrow> 'a option \<Rightarrow> 'a gate_event \<Rightarrow> bool" where
  "gate_env may t (Ask x) = may x"
| "gate_env may t _ = True"

definition gate_inv :: "('a \<Rightarrow> bool) \<Rightarrow> 'a option \<Rightarrow> bool" where
  "gate_inv may t \<longleftrightarrow> (case t of Some x \<Rightarrow> may x | None \<Rightarrow> True)"

interpretation gate: ui_contract "\<lambda>t. []" "gate_env may" gate_handle "gate_inv may"
  "\<lambda>t x. t = Some x \<and> may x"
  for may
proof
  fix t e x
  assume inv: "gate_inv may t" and e: "fires [] e \<or> gate_env may t e"
  then show "gate_inv may (fst (gate_handle t e))" by (cases e) (auto simp: gate_inv_def)
  assume "x \<in> set (snd (gate_handle t e))"
  with inv show "t = Some x \<and> may x" by (cases e) (auto simp: gate_inv_def split: option.splits)
qed

section \<open>Refinement\<close>

text \<open>A component refines a specification when its state, its events and its effects can be read as
  those of the specification: every step the component can take is a step of the specification,
  with the same effects (\<open>ef\<close> gives what an effect means there, nothing for those the
  specification does not speak of).\<close>

definition map_log :: "('s \<Rightarrow> 't) \<Rightarrow> ('f \<Rightarrow> 'g list) \<Rightarrow> ('s \<times> 'f) list \<Rightarrow> ('t \<times> 'g) list" where
  "map_log alpha ef log = concat (map (\<lambda>(s, f). map (Pair (alpha s)) (ef f)) log)"

lemma map_log_append: "map_log alpha ef (log @ log') = map_log alpha ef log @ map_log alpha ef log'"
  by (simp add: map_log_def)

lemma map_log_step: "map_log alpha ef (map (Pair s) fs) = map (Pair (alpha s)) (concat (map ef fs))"
  by (induction fs) (simp_all add: map_log_def)

lemma map_log_mem: "(s, f) \<in> set log \<Longrightarrow> g \<in> set (ef f) \<Longrightarrow> (alpha s, g) \<in> set (map_log alpha ef log)"
  by (force simp: map_log_def)

locale ui_refinement = ui_contract view env handle inv ok
  for view :: "'s \<Rightarrow> 'e control list" and env :: "'s \<Rightarrow> 'e \<Rightarrow> bool"
    and handle :: "'s \<Rightarrow> 'e \<Rightarrow> 's \<times> 'f list" and inv :: "'s \<Rightarrow> bool" and ok :: "'s \<Rightarrow> 'f \<Rightarrow> bool" +
  fixes aview :: "'t \<Rightarrow> 'd control list" and aenv :: "'t \<Rightarrow> 'd \<Rightarrow> bool"
    and ahandle :: "'t \<Rightarrow> 'd \<Rightarrow> 't \<times> 'g list"
    and alpha :: "'s \<Rightarrow> 't" and ev :: "'s \<Rightarrow> 'e \<Rightarrow> 'd" and ef :: "'f \<Rightarrow> 'g list"
  assumes refines: "inv s \<Longrightarrow> fires (view s) e \<or> env s e \<Longrightarrow>
      (fires (aview (alpha s)) (ev s e) \<or> aenv (alpha s) (ev s e)) \<and>
      ahandle (alpha s) (ev s e) = (alpha (fst (handle s e)), concat (map ef (snd (handle s e))))"
begin

lemma run_refines:
  "ui_run view env handle s0 log s \<Longrightarrow> inv s0 \<Longrightarrow>
   ui_run aview aenv ahandle (alpha s0) (map_log alpha ef log) (alpha s)"
proof (induction rule: ui_run.induct)
  case ui_start
  then show ?case by (simp add: map_log_def ui_run.ui_start)
next
  case (ui_event log s e t fs)
  have "inv s" using ui_event.hyps(1) ui_event.prems by (rule run_inv)
  with ui_event.hyps refines [of s e]
  have "fires (aview (alpha s)) (ev s e) \<or> aenv (alpha s) (ev s e)"
    "ahandle (alpha s) (ev s e) = (alpha t, concat (map ef fs))" by auto
  from ui_run.ui_event [OF ui_event.IH [OF ui_event.prems] this] show ?case
    by (simp add: map_log_append map_log_step)
qed

end

end
