(* ===== verification/UrlParams.thy ===== *)
theory UrlParams
  imports Prelude
begin

text \<open>
  The part of the URL library behind the links to the kubeconfig page: \<open>encodeURIComponent\<close>,
  \<open>URLSearchParams\<close> (serialising and parsing) and \<open>Number\<close> on decimal numerals. Strings are lists of
  bytes, so percent-encoding works byte by byte.
\<close>

section \<open>Percent encoding\<close>

definition alnum :: "char \<Rightarrow> bool" where
  "alnum c \<longleftrightarrow> (let n = (of_char c :: nat) in
     (97 \<le> n \<and> n \<le> 122) \<or> (65 \<le> n \<and> n \<le> 90) \<or> (48 \<le> n \<and> n \<le> 57))"

definition hex_digit :: "nat \<Rightarrow> char" where
  "hex_digit n = char_of (if n < 10 then 48 + n else 55 + n)"

definition percent :: "char \<Rightarrow> string" where
  "percent c = [CHR ''%'', hex_digit (of_char c div 16), hex_digit (of_char c mod 16)]"

definition encode_component :: "string \<Rightarrow> string" where
  "encode_component s = concat (map (\<lambda>c.
     if alnum c \<or> c \<in> set ''-_.!~*'' \<or> c = CHR 0x27 \<or> c \<in> set ''()'' then [c] else percent c) s)"

definition form_encode :: "string \<Rightarrow> string" where
  "form_encode s = concat (map (\<lambda>c.
     if alnum c \<or> c \<in> set ''*-._'' then [c] else if c = CHR '' '' then ''+'' else percent c) s)"

definition hex_value :: "char \<Rightarrow> nat option" where
  "hex_value c = (let n = of_char c in
     if 48 \<le> n \<and> n \<le> 57 then Some (n - 48)
     else if 65 \<le> n \<and> n \<le> 70 then Some (n - 55)
     else if 97 \<le> n \<and> n \<le> 102 then Some (n - 87) else None)"

text \<open>A percent sign that no two hexadecimal digits follow stands for itself; a plus is a space.\<close>

fun form_decode :: "string \<Rightarrow> string" where
  "form_decode (c # a # b # cs) =
     (if c = CHR ''%'' then
        (case (hex_value a, hex_value b) of
           (Some m, Some n) \<Rightarrow> char_of (16 * m + n) # form_decode cs
         | _ \<Rightarrow> c # form_decode (a # b # cs))
      else (if c = CHR ''+'' then CHR '' '' else c) # form_decode (a # b # cs))"
| "form_decode (c # cs) = (if c = CHR ''+'' then CHR '' '' else c) # form_decode cs"
| "form_decode [] = []"

section \<open>URLSearchParams\<close>

definition params_string :: "(string \<times> string) list \<Rightarrow> string" where
  "params_string ps = js_join ''&'' (map (\<lambda>(k, v). form_encode k @ ''='' @ form_encode v) ps)"

definition parse_pair :: "string \<Rightarrow> string \<times> string" where
  "parse_pair s = (form_decode (takeWhile (\<lambda>c. c \<noteq> CHR ''='') s),
     form_decode (drop 1 (dropWhile (\<lambda>c. c \<noteq> CHR ''='') s)))"

definition parse_params :: "string \<Rightarrow> (string \<times> string) list" where
  "parse_params s = map parse_pair (filter (\<lambda>w. w \<noteq> []) (js_split ''&'' s))"

definition params_get :: "(string \<times> string) list \<Rightarrow> string \<Rightarrow> string option" where
  "params_get ps k = map_of ps k"

section \<open>Decimal numerals\<close>

definition digit_value :: "char \<Rightarrow> nat option" where
  "digit_value c = (let n = of_char c in if 48 \<le> n \<and> n \<le> 57 then Some (n - 48) else None)"

fun read_digits :: "nat \<Rightarrow> string \<Rightarrow> nat option" where
  "read_digits acc [] = Some acc"
| "read_digits acc (c # cs) = (case digit_value c of Some d \<Rightarrow> read_digits (10 * acc + d) cs | None \<Rightarrow> None)"

text \<open>\<open>Number\<close> on a numeral of digits with an optional minus sign; other inputs are \<open>None\<close>.\<close>

definition js_number :: "string \<Rightarrow> int option" where
  "js_number s = (case s of
     [] \<Rightarrow> None
   | c # cs \<Rightarrow>
       if c = CHR ''-'' then (if cs = [] then None else map_option (\<lambda>n. - int n) (read_digits 0 cs))
       else map_option int (read_digits 0 s))"

section \<open>Lemmas\<close>

lemma hex_digit_value: "n < 16 \<Longrightarrow> hex_value (hex_digit n) = Some n"
  by (simp add: hex_digit_def hex_value_def Let_def of_char_of)

lemma hex_digit_alnum: "n < 16 \<Longrightarrow> alnum (hex_digit n)"
  by (auto simp: hex_digit_def alnum_def Let_def of_char_of)

lemma form_decode_percent: "form_decode (percent c @ s) = c # form_decode s"
proof -
  have "(of_char c :: nat) div 16 < 16" by (simp add: less_mult_imp_div_less)
  then show ?thesis by (simp add: percent_def hex_digit_value)
qed

lemma form_decode_plain: "c \<noteq> CHR ''%'' \<Longrightarrow> c \<noteq> CHR ''+'' \<Longrightarrow> form_decode (c # s) = c # form_decode s"
  by (cases s rule: remdups_adj.cases) auto

lemma form_decode_plus: "form_decode (CHR ''+'' # s) = CHR '' '' # form_decode s"
  by (cases s rule: remdups_adj.cases) auto

lemma alnum_not: "alnum c \<Longrightarrow> c \<notin> set ''%+&=#?''"
  by (auto simp: alnum_def Let_def)

lemma decode_form_encode: "form_decode (form_encode s @ t) = s @ form_decode t"
proof (induction s)
  case (Cons c s)
  then show ?case
    by (auto simp: form_encode_def form_decode_percent form_decode_plus form_decode_plain
        dest: alnum_not)
qed (simp add: form_encode_def)

lemma decode_encode_component: "form_decode (encode_component s @ t) = s @ form_decode t"
proof (induction s)
  case (Cons c s)
  then show ?case
    by (auto simp: encode_component_def form_decode_percent form_decode_plain dest: alnum_not)
qed (simp add: encode_component_def)

lemma percent_chars: "set (percent c) \<inter> set ''&=#?'' = {}"
proof -
  have "(of_char c :: nat) div 16 < 16" by (simp add: less_mult_imp_div_less)
  then have "alnum (hex_digit (of_char c div 16))" "alnum (hex_digit (of_char c mod 16))"
    by (simp_all add: hex_digit_alnum)
  then show ?thesis by (auto simp: percent_def dest: alnum_not)
qed

lemma form_encode_chars: "set (form_encode s) \<inter> set ''&=#?'' = {}"
  using percent_chars by (induction s) (auto simp: form_encode_def dest: alnum_not)

lemma encode_component_chars: "set (encode_component s) \<inter> set ''&=#?'' = {}"
  using percent_chars by (induction s) (auto simp: encode_component_def dest: alnum_not)

lemma parse_pair_encoded:
  assumes "CHR ''='' \<notin> set a"
  shows "parse_pair (a @ ''='' @ b) = (form_decode a, form_decode b)"
proof -
  have "takeWhile (\<lambda>c. c \<noteq> CHR ''='') (a @ ''='' @ b) = a \<and>
      dropWhile (\<lambda>c. c \<noteq> CHR ''='') (a @ ''='' @ b) = ''='' @ b"
    using assms by (induction a) auto
  then show ?thesis by (simp add: parse_pair_def)
qed

text \<open>Reading the parameters that were written gives them back: \<open>URLSearchParams\<close> on its own output,
  and on pairs whose values went through \<open>encodeURIComponent\<close>.\<close>

lemma parse_join:
  assumes "list_all (\<lambda>(a, b). set (a @ b) \<inter> set ''&=#?'' = {}) qs"
  shows "parse_params (js_join ''&'' (map (\<lambda>(a, b). a @ ''='' @ b) qs)) =
    map (\<lambda>(a, b). (form_decode a, form_decode b)) qs"
proof (cases "qs = []")
  case False
  let ?ws = "map (\<lambda>(a, b). a @ ''='' @ b) qs"
  have "js_split ''&'' (js_join ''&'' ?ws) = ?ws"
    by (rule js_split_join_char) (use False assms in \<open>auto simp: list_all_iff\<close>)
  moreover have "filter (\<lambda>w. w \<noteq> []) ?ws = ?ws" by (induction qs) auto
  moreover have "map parse_pair ?ws = map (\<lambda>(a, b). (form_decode a, form_decode b)) qs"
    using assms by (auto simp: list_all_iff parse_pair_encoded [unfolded append_Cons append_Nil])
  ultimately show ?thesis by (simp add: parse_params_def)
qed (simp add: parse_params_def)

lemma parse_params_string: "parse_params (params_string ps) = ps"
proof -
  let ?qs = "map (\<lambda>(k, v). (form_encode k, form_encode v)) ps"
  have "params_string ps = js_join ''&'' (map (\<lambda>(a, b). a @ ''='' @ b) ?qs)"
    by (simp add: params_string_def comp_def case_prod_unfold)
  moreover have "list_all (\<lambda>(a, b). set (a @ b) \<inter> set ''&=#?'' = {}) ?qs"
    using form_encode_chars by (auto simp: list_all_iff)
  ultimately show ?thesis
    using parse_join [of ?qs] decode_form_encode [of _ "[]"] by (simp add: comp_def case_prod_unfold)
qed

lemma digit_value_digit: "n < 10 \<Longrightarrow> digit_value (digit n) = Some n"
  by (simp add: digit_value_def digit_def Let_def)

lemma read_digits_append: "read_digits a (xs @ ys) = Option.bind (read_digits a xs) (\<lambda>b. read_digits b ys)"
  by (induction xs arbitrary: a) (auto split: option.splits)

lemma read_show_nat: "\<exists>k. \<forall>a. read_digits a (show_nat n) = Some (a * 10 ^ k + n)"
proof (induction n rule: show_nat.induct)
  case (1 n)
  show ?case
  proof (cases "n < 10")
    case True
    then have "\<forall>a. read_digits a (show_nat n) = Some (a * 10 ^ 1 + n)"
      by (subst show_nat.simps) (simp add: digit_value_digit)
    then show ?thesis by blast
  next
    case False
    with 1 obtain k where k: "\<forall>a. read_digits a (show_nat (n div 10)) = Some (a * 10 ^ k + n div 10)" by auto
    have "read_digits a (show_nat n) = Some (a * 10 ^ Suc k + n)" for a
      using False k by (subst show_nat.simps) (simp add: read_digits_append digit_value_digit)
    then show ?thesis by blast
  qed
qed

lemma js_number_show_nat: "js_number (show_nat n) = Some (int n)"
proof -
  obtain k where "read_digits 0 (show_nat n) = Some (0 * 10 ^ k + n)" using read_show_nat [of n] by blast
  moreover have "hd (show_nat n) \<noteq> CHR ''-''"
  proof (induction n rule: show_nat.induct)
    case (1 n)
    have d: "digit m \<noteq> CHR ''-''" if "m < 10" for m
      using digit_value_digit [OF that] by (auto simp: digit_value_def)
    show ?case using 1 d by (subst show_nat.simps) (auto simp: hd_append)
  qed
  ultimately show ?thesis by (cases "show_nat n") (auto simp: js_number_def)
qed

end
