(* ===== verification/Requests.thy ===== *)
theory Requests
  imports Gate Session UrlParams
begin

text \<open>
  Reviewing access requests: \<^verbatim>\<open>pages/AccessRequestsPage.tsx\<close>, \<^verbatim>\<open>pages/DashboardPage.tsx\<close> and
  \<^verbatim>\<open>components/access/JitPolicyModal.tsx\<close>. The answers of the queries are part of the state and
  may change at any time; the role and the name of the signed-in user are parameters.
\<close>

section \<open>pages/AccessRequestsPage.tsx\<close>

datatype review = Approve | Revoke

text \<open>\<open>vp_requests\<close>: the list, \<open>None\<close> while it loads; \<open>vp_reviewing\<close>: the approval or revocation that
  is pending.\<close>

record review_page =
  vp_requests :: "access_request list option"
  vp_request_open :: bool
  vp_policies_open :: bool
  vp_export_open :: bool
  vp_export_from :: string
  vp_export_to :: string
  vp_confirm :: "(review \<times> access_request) option"
  vp_reviewing :: "(review \<times> string) option"
  vp_exporting :: bool

definition review_page_init :: review_page where
  "review_page_init = \<lparr>vp_requests = None, vp_request_open = False, vp_policies_open = False,
     vp_export_open = False, vp_export_from = [], vp_export_to = [], vp_confirm = None,
     vp_reviewing = None, vp_exporting = False\<rparr>"

datatype review_page_event =
  VP_loaded "access_request list option" | VP_refetch | VP_request bool | VP_policies bool
| VP_export_dialog bool | VP_from string | VP_to string | VP_export | VP_exported bool
| VP_ask review access_request | VP_cancel | VP_confirm | VP_deny access_request | VP_reviewed bool

datatype review_page_effect = MutateRequests access_requests_hook | RefetchRequests

definition review_hook :: "review \<Rightarrow> string \<Rightarrow> access_requests_hook" where
  "review_hook a i = (case a of Approve \<Rightarrow> UseApproveAccessRequest i | Revoke \<Rightarrow> UseRevokeAccessRequest i)"

definition handleConfirm :: "review_page \<Rightarrow> review_page \<times> review_page_effect list" where
  "handleConfirm s =
     (case vp_confirm s of
        None \<Rightarrow> (s, [])
      | Some (a, r) \<Rightarrow> (s\<lparr>vp_reviewing := Some (a, q_id r)\<rparr>, [MutateRequests (review_hook a (q_id r))]))"

definition export_query :: "review_page \<Rightarrow> access_request_export_query" where
  "export_query s = \<lparr>rx_from = or_undef (vp_export_from s), rx_to = or_undef (vp_export_to s)\<rparr>"

fun review_page_handle :: "review_page \<Rightarrow> review_page_event \<Rightarrow> review_page \<times> review_page_effect list" where
  "review_page_handle s (VP_loaded rs) = (s\<lparr>vp_requests := rs\<rparr>, [])"
| "review_page_handle s VP_refetch = (s, [RefetchRequests])"
| "review_page_handle s (VP_request b) = (s\<lparr>vp_request_open := b\<rparr>, [])"
| "review_page_handle s (VP_policies b) = (s\<lparr>vp_policies_open := b\<rparr>, [])"
| "review_page_handle s (VP_export_dialog b) = (s\<lparr>vp_export_open := b\<rparr>, [])"
| "review_page_handle s (VP_from v) = (s\<lparr>vp_export_from := v\<rparr>, [])"
| "review_page_handle s (VP_to v) = (s\<lparr>vp_export_to := v\<rparr>, [])"
| "review_page_handle s VP_export =
     (s\<lparr>vp_exporting := True\<rparr>, [MutateRequests (UseExportAccessRequests (export_query s))])"
| "review_page_handle s (VP_exported ok) =
     (s\<lparr>vp_exporting := False, vp_export_open := vp_export_open s \<and> \<not> ok\<rparr>, [])"
| "review_page_handle s (VP_ask a r) = (s\<lparr>vp_confirm := Some (a, r)\<rparr>, [])"
| "review_page_handle s VP_cancel = (s\<lparr>vp_confirm := None\<rparr>, [])"
| "review_page_handle s VP_confirm = handleConfirm s"
| "review_page_handle s (VP_deny r) = (s, [MutateRequests (UseDenyAccessRequest (q_id r))])"
| "review_page_handle s (VP_reviewed ok) =
     (s\<lparr>vp_reviewing := None, vp_confirm := (if ok then None else vp_confirm s)\<rparr>, [])"

definition is_privileged :: "role option \<Rightarrow> bool" where
  "is_privileged instanceRole \<longleftrightarrow> instanceRole = Some Admin \<or> instanceRole = Some Approver"

definition is_own_request :: "string option \<Rightarrow> access_request \<Rightarrow> bool" where
  "is_own_request username r \<longleftrightarrow> username = Some (q_requester r)"

definition request_row_view :: "string option \<Rightarrow> access_request \<Rightarrow> review_page_event control list" where
  "request_row_view username r =
     (if q_status r = Pending
      then [button False (is_own_request username r) (VP_ask Approve r), Press True (VP_deny r)] else []) @
     (if q_status r = Approved then [Press True (VP_ask Revoke r)] else [])"

definition review_page_view ::
  "role option \<Rightarrow> string option \<Rightarrow> review_page \<Rightarrow> review_page_event control list"
where
  "review_page_view role username s =
     [Press True VP_refetch] @
     (if role = Some Admin then [Press True (VP_policies True), Press True (VP_export_dialog True)] else []) @
     [Press True (VP_request True)] @
     (case vp_requests s of
        Some rs \<Rightarrow> if is_privileged role then concat (map (request_row_view username) rs) else []
      | None \<Rightarrow> []) @
     (if vp_request_open s then [Press True (VP_request False)] else []) @
     (if vp_policies_open s then [Press True (VP_policies False)] else []) @
     modal (vp_export_open s) (VP_export_dialog False)
       [Input True (vp_export_from s) VP_from, Input True (vp_export_to s) VP_to,
        Press True (VP_export_dialog False), button (vp_exporting s) False VP_export] @
     confirm_dialog (vp_confirm s \<noteq> None) (vp_reviewing s \<noteq> None) VP_cancel VP_confirm"

text \<open>The request form closes itself when it was submitted.\<close>

fun review_page_env :: "review_page \<Rightarrow> review_page_event \<Rightarrow> bool" where
  "review_page_env s (VP_loaded rs) = True"
| "review_page_env s (VP_request b) = (vp_request_open s \<and> \<not> b)"
| "review_page_env s (VP_exported ok) = vp_exporting s"
| "review_page_env s (VP_reviewed ok) = (vp_reviewing s \<noteq> None)"
| "review_page_env s _ = False"

section \<open>pages/DashboardPage.tsx\<close>

record dashboard =
  db_requests :: "access_request list option"
  db_approve_target :: "access_request option"
  db_approving :: "string option"

definition dashboard_init :: dashboard where
  "dashboard_init = \<lparr>db_requests = None, db_approve_target = None, db_approving = None\<rparr>"

datatype dashboard_event =
  DB_loaded "access_request list option" | DB_ask access_request | DB_cancel | DB_confirm
| DB_deny access_request | DB_approved bool | DB_link string

datatype dashboard_effect = MutateRequest access_requests_hook | FollowTo string

fun dashboard_handle :: "dashboard \<Rightarrow> dashboard_event \<Rightarrow> dashboard \<times> dashboard_effect list" where
  "dashboard_handle s (DB_loaded rs) = (s\<lparr>db_requests := rs\<rparr>, [])"
| "dashboard_handle s (DB_ask r) = (s\<lparr>db_approve_target := Some r\<rparr>, [])"
| "dashboard_handle s DB_cancel = (s\<lparr>db_approve_target := None\<rparr>, [])"
| "dashboard_handle s DB_confirm =
     (case db_approve_target s of
        None \<Rightarrow> (s, [])
      | Some r \<Rightarrow> (s\<lparr>db_approving := Some (q_id r)\<rparr>, [MutateRequest (UseApproveAccessRequest (q_id r))]))"
| "dashboard_handle s (DB_deny r) = (s, [MutateRequest (UseDenyAccessRequest (q_id r))])"
| "dashboard_handle s (DB_approved ok) =
     (s\<lparr>db_approving := None, db_approve_target := (if ok then None else db_approve_target s)\<rparr>, [])"
| "dashboard_handle s (DB_link p) = (s, [FollowTo p])"

definition dash_pending :: "dashboard \<Rightarrow> access_request list" where
  "dash_pending s = filter (\<lambda>r. q_status r = Pending) (case db_requests s of Some rs \<Rightarrow> rs | None \<Rightarrow> [])"

definition my_pending :: "string option \<Rightarrow> dashboard \<Rightarrow> access_request list" where
  "my_pending username s = filter (is_own_request username) (dash_pending s)"

definition dash_shown :: "role option \<Rightarrow> string option \<Rightarrow> dashboard \<Rightarrow> access_request list" where
  "dash_shown role username s = (if is_privileged role then dash_pending s else my_pending username s)"

text \<open>The number on the tile of the pending requests; \<open>None\<close> is the dash shown while loading.\<close>

definition pending_tile :: "role option \<Rightarrow> string option \<Rightarrow> dashboard \<Rightarrow> nat option" where
  "pending_tile role username s =
     (if db_requests s = None then None else Some (length (dash_shown role username s)))"

definition my_kubeconfig_link :: "string \<Rightarrow> string \<Rightarrow> string" where
  "my_kubeconfig_link name namespace =
     ''/kubeconfig?user='' @ encode_component name @ ''&namespace='' @ encode_component namespace"

text \<open>\<open>link\<close>: name and namespace of the managed user linked to the account.\<close>

definition stat_links :: "string list" where
  "stat_links = [''/users'', ''/access-requests'', ''/clusters'', ''/rbac'']"

definition dashboard_link_view :: "role option \<Rightarrow> bool \<Rightarrow> (string \<times> string) option \<Rightarrow> dashboard_event control list" where
  "dashboard_link_view role canWrite link =
     map (\<lambda>p. Press True (DB_link p)) stat_links @
     (if canWrite then [Press True (DB_link ''/users'')] else []) @ [Press True (DB_link ''/access-requests'')] @
     (case link of
        None \<Rightarrow> []
      | Some l \<Rightarrow>
          if canWrite then [Press True (DB_link (my_kubeconfig_link (fst l) (snd l)))] else []) @
     (if role = Some Admin then [Press True (DB_link ''/audit-log'')] else [])"

definition dashboard_view ::
  "role option \<Rightarrow> string option \<Rightarrow> bool \<Rightarrow> (string \<times> string) option \<Rightarrow> dashboard \<Rightarrow>
   dashboard_event control list"
where
  "dashboard_view role username canWrite link s =
     dashboard_link_view role canWrite link @
     (if is_privileged role
      then concat (map (\<lambda>r. [button False (is_own_request username r) (DB_ask r), Press True (DB_deny r)])
        (js_slice (dash_shown role username s) 0 6)) else []) @
     confirm_dialog (db_approve_target s \<noteq> None) (db_approving s \<noteq> None) DB_cancel DB_confirm"

fun dashboard_env :: "dashboard \<Rightarrow> dashboard_event \<Rightarrow> bool" where
  "dashboard_env s (DB_loaded rs) = True"
| "dashboard_env s (DB_approved ok) = (db_approving s \<noteq> None)"
| "dashboard_env s _ = False"

section \<open>components/access/JitPolicyModal.tsx\<close>

text \<open>The number input yields a numeral or nothing; fractions and exponents are not modelled.\<close>

record policy_modal =
  jm_role_kind :: string
  jm_role_name :: string
  jm_eligible :: string
  jm_max_ttl :: string
  jm_saving :: bool

definition policy_modal_init :: policy_modal where
  "policy_modal_init = \<lparr>jm_role_kind = ''ClusterRole'', jm_role_name = [], jm_eligible = ''true'',
     jm_max_ttl = [], jm_saving = False\<rparr>"

datatype policy_modal_event =
  JM_kind string | JM_name string | JM_eligible string | JM_max_ttl string | JM_save | JM_saved bool
| JM_delete string string | JM_close

datatype policy_modal_effect = MutatePolicy access_requests_hook | ClosePolicies

definition policy_payload :: "policy_modal \<Rightarrow> jit_role_policy_set_payload" where
  "policy_payload s = \<lparr>jp_eligible = (jm_eligible s = ''true''),
     jp_max_ttl_minutes = (if js_trim (jm_max_ttl s) \<noteq> [] then js_number (jm_max_ttl s) else None)\<rparr>"

fun policy_modal_handle :: "policy_modal \<Rightarrow> policy_modal_event \<Rightarrow> policy_modal \<times> policy_modal_effect list" where
  "policy_modal_handle s (JM_kind v) = (s\<lparr>jm_role_kind := v\<rparr>, [])"
| "policy_modal_handle s (JM_name v) = (s\<lparr>jm_role_name := v\<rparr>, [])"
| "policy_modal_handle s (JM_eligible v) = (s\<lparr>jm_eligible := v\<rparr>, [])"
| "policy_modal_handle s (JM_max_ttl v) = (s\<lparr>jm_max_ttl := (if js_number v = None then [] else v)\<rparr>, [])"
| "policy_modal_handle s JM_save =
     (if js_trim (jm_role_name s) = [] then (s, [])
      else (s\<lparr>jm_saving := True\<rparr>,
        [MutatePolicy (UseSetJitPolicy (jm_role_kind s) (js_trim (jm_role_name s)) (policy_payload s))]))"
| "policy_modal_handle s (JM_saved ok) =
     ((if ok then s\<lparr>jm_role_name := [], jm_max_ttl := [], jm_eligible := ''true''\<rparr> else s)\<lparr>jm_saving := False\<rparr>, [])"
| "policy_modal_handle s (JM_delete k n) = (s, [MutatePolicy (UseDeleteJitPolicy k n)])"
| "policy_modal_handle s JM_close = (s, [ClosePolicies])"

definition policy_modal_view :: "jit_role_policy list \<Rightarrow> policy_modal \<Rightarrow> policy_modal_event control list" where
  "policy_modal_view policies s = modal True JM_close
     (map (\<lambda>p. Press True (JM_delete (jr_role_kind p) (jr_role_name p))) policies @
      [Choose True (jm_role_kind s) [''ClusterRole'', ''Role''] JM_kind,
       Input True (jm_role_name s) JM_name,
       Choose True (jm_eligible s) [''true'', ''false''] JM_eligible,
       Input (jm_eligible s \<noteq> ''false'') (jm_max_ttl s) JM_max_ttl,
       button (jm_saving s) (js_trim (jm_role_name s) = []) JM_save,
       Press True JM_close])"

fun policy_modal_env :: "policy_modal \<Rightarrow> policy_modal_event \<Rightarrow> bool" where
  "policy_modal_env s (JM_saved ok) = jm_saving s"
| "policy_modal_env s _ = False"

section \<open>The contracts\<close>

fun reviewable :: "string option \<Rightarrow> review \<Rightarrow> access_request \<Rightarrow> bool" where
  "reviewable username Approve r \<longleftrightarrow> q_status r = Pending \<and> \<not> is_own_request username r"
| "reviewable username Revoke r \<longleftrightarrow> q_status r = Approved"

text \<open>What the specification of the dialog is told: the review and the id of its request.\<close>

definition may_review :: "role option \<Rightarrow> string option \<Rightarrow> review \<times> string \<Rightarrow> bool" where
  "may_review role username x \<longleftrightarrow> is_privileged role \<and>
     (\<exists>r. snd x = q_id r \<and> reviewable username (fst x) r)"

definition review_target :: "review_page \<Rightarrow> (review \<times> string) option" where
  "review_target s = map_option (\<lambda>(a, r). (a, q_id r)) (vp_confirm s)"

fun review_event :: "review_page_event \<Rightarrow> (review \<times> string) gate_event" where
  "review_event (VP_ask a r) = Ask (a, q_id r)"
| "review_event VP_cancel = Cancel"
| "review_event VP_confirm = Confirm"
| "review_event (VP_reviewed ok) = (if ok then Finished else Other)"
| "review_event _ = Other"

fun reviewed :: "review_page_effect \<Rightarrow> (review \<times> string) list" where
  "reviewed (MutateRequests (UseApproveAccessRequest i)) = [(Approve, i)]"
| "reviewed (MutateRequests (UseRevokeAccessRequest i)) = [(Revoke, i)]"
| "reviewed _ = []"

definition review_page_inv :: "role option \<Rightarrow> string option \<Rightarrow> review_page \<Rightarrow> bool" where
  "review_page_inv role username s \<longleftrightarrow>
     (\<forall>a r. vp_confirm s = Some (a, r) \<longrightarrow> is_privileged role \<and> reviewable username a r) \<and>
     (vp_export_open s \<or> vp_policies_open s \<longrightarrow> role = Some Admin)"

fun review_page_ok :: "role option \<Rightarrow> string option \<Rightarrow> review_page \<Rightarrow> review_page_effect \<Rightarrow> bool" where
  "review_page_ok role username s (MutateRequests h) =
     (case h of
        UseApproveAccessRequest i \<Rightarrow> is_privileged role \<and>
          (\<exists>r. vp_confirm s = Some (Approve, r) \<and> q_id r = i \<and> reviewable username Approve r)
      | UseRevokeAccessRequest i \<Rightarrow> is_privileged role \<and>
          (\<exists>r. vp_confirm s = Some (Revoke, r) \<and> q_id r = i \<and> reviewable username Revoke r)
      | UseDenyAccessRequest i \<Rightarrow> is_privileged role \<and>
          (\<exists>rs r. vp_requests s = Some rs \<and> r \<in> set rs \<and> q_id r = i \<and> q_status r = Pending)
      | UseExportAccessRequests q \<Rightarrow> role = Some Admin \<and> rx_from q \<noteq> Some [] \<and> rx_to q \<noteq> Some []
      | _ \<Rightarrow> False)"
| "review_page_ok role username s RefetchRequests = True"

lemma review_page_fires:
  assumes "fires (review_page_view role username s) e"
  shows "e = VP_refetch \<or> (\<exists>b. e = VP_request b) \<or>
    (role = Some Admin \<and> (e = VP_policies True \<or> e = VP_export_dialog True)) \<or>
    (\<exists>rs r. vp_requests s = Some rs \<and> r \<in> set rs \<and> is_privileged role \<and>
       ((\<exists>a. e = VP_ask a r \<and> reviewable username a r) \<or> (e = VP_deny r \<and> q_status r = Pending))) \<or>
    (vp_policies_open s \<and> e = VP_policies False) \<or>
    (vp_export_open s \<and> (e = VP_export_dialog False \<or> (\<exists>v. e = VP_from v \<or> e = VP_to v) \<or>
       (e = VP_export \<and> \<not> vp_exporting s))) \<or>
    (vp_confirm s \<noteq> None \<and> (e = VP_cancel \<or> (e = VP_confirm \<and> vp_reviewing s = None)))"
proof (cases "is_privileged role")
  case True
  from assms show ?thesis
    unfolding review_page_view_def request_row_view_def if_P [OF True] reads_view
    by (elim disjE conjE exE; simp del: not_None_eq)
      (use True in \<open>auto simp del: not_None_eq intro: exI [of _ Approve] exI [of _ Revoke]\<close>)
next
  case False
  from assms show ?thesis
    unfolding review_page_view_def if_not_P [OF False] reads_view by blast
qed

lemma review_page_inv_keep:
  "review_page_inv role username s \<Longrightarrow> vp_confirm t \<in> {vp_confirm s, None} \<Longrightarrow>
   (vp_export_open t \<longrightarrow> vp_export_open s) \<Longrightarrow> (vp_policies_open t \<longrightarrow> vp_policies_open s) \<Longrightarrow>
   review_page_inv role username t"
  by (auto simp: review_page_inv_def)

lemma review_page_inv_event:
  assumes "review_page_inv role username s"
    and "fires (review_page_view role username s) e \<or> review_page_env s e"
  shows "review_page_inv role username (fst (review_page_handle s e))"
proof (cases e)
  case (VP_ask a r)
  with assms show ?thesis by (auto simp: review_page_inv_def dest: review_page_fires)
next
  case (VP_policies b)
  with assms show ?thesis by (auto simp: review_page_inv_def dest: review_page_fires)
next
  case (VP_export_dialog b)
  with assms show ?thesis by (auto simp: review_page_inv_def dest: review_page_fires)
qed (use assms(1) in \<open>auto simp: handleConfirm_def split: option.split intro: review_page_inv_keep\<close>)

lemma review_page_ok_event:
  assumes "review_page_inv role username s"
    and "fires (review_page_view role username s) e \<or> review_page_env s e"
    and "f \<in> set (snd (review_page_handle s e))"
  shows "review_page_ok role username s f"
proof (cases e)
  case VP_confirm
  with assms(1,3) show ?thesis
    by (auto simp: handleConfirm_def review_hook_def review_page_inv_def split: option.splits review.splits)
next
  case VP_export
  with assms show ?thesis
    by (auto simp: review_page_inv_def export_query_def dest: review_page_fires)
next
  case (VP_deny r)
  with assms show ?thesis by (auto dest!: review_page_fires)
qed (use assms(3) in auto)

interpretation review_page: ui_contract "review_page_view role username" review_page_env
  review_page_handle "review_page_inv role username" "review_page_ok role username"
  for role username
  by unfold_locales (auto intro: review_page_inv_event review_page_ok_event)

interpretation review_gate: ui_refinement "review_page_view role username" review_page_env
  review_page_handle "review_page_inv role username" "review_page_ok role username"
  "\<lambda>t. []" "gate_env (may_review role username)" gate_handle
  review_target "\<lambda>s. review_event" reviewed
  for role username
proof
  fix s e
  assume e: "fires (review_page_view role username s) e \<or> review_page_env s e"
  have "gate_env (may_review role username) (review_target s) (review_event e)"
  proof (cases e)
    case (VP_ask a r)
    with e show ?thesis by (auto simp: may_review_def dest: review_page_fires)
  qed auto
  moreover have "gate_handle (review_target s) (review_event e) =
      (review_target (fst (review_page_handle s e)),
       concat (map reviewed (snd (review_page_handle s e))))"
    by (cases e) (auto simp: review_target_def handleConfirm_def review_hook_def
        split: option.split review.split)
  ultimately show "(fires [] (review_event e) \<or>
      gate_env (may_review role username) (review_target s) (review_event e)) \<and>
    gate_handle (review_target s) (review_event e) =
      (review_target (fst (review_page_handle s e)),
       concat (map reviewed (snd (review_page_handle s e))))" by blast
qed

definition dashboard_inv :: "role option \<Rightarrow> string option \<Rightarrow> dashboard \<Rightarrow> bool" where
  "dashboard_inv role username s \<longleftrightarrow>
     (\<forall>r. db_approve_target s = Some r \<longrightarrow> is_privileged role \<and> reviewable username Approve r)"

definition dashboard_links :: "bool \<Rightarrow> (string \<times> string) option \<Rightarrow> string set" where
  "dashboard_links canWrite link =
     set stat_links \<union> {''/audit-log''} \<union>
     (if canWrite then (\<lambda>(n, ns). my_kubeconfig_link n ns) ` set_option link else {})"

fun dashboard_ok ::
  "role option \<Rightarrow> string option \<Rightarrow> bool \<Rightarrow> (string \<times> string) option \<Rightarrow> dashboard \<Rightarrow> dashboard_effect \<Rightarrow> bool"
where
  "dashboard_ok role username canWrite link s (MutateRequest h) =
     (case h of
        UseApproveAccessRequest i \<Rightarrow> is_privileged role \<and>
          (\<exists>r. db_approve_target s = Some r \<and> q_id r = i \<and> reviewable username Approve r)
      | UseDenyAccessRequest i \<Rightarrow> is_privileged role \<and>
          (\<exists>r. r \<in> set (dash_pending s) \<and> q_id r = i \<and> q_status r = Pending)
      | _ \<Rightarrow> False)"
| "dashboard_ok role username canWrite link s (FollowTo p) = (p \<in> dashboard_links canWrite link)"

lemma dash_pending_status: "r \<in> set (dash_pending s) \<Longrightarrow> q_status r = Pending"
  by (simp add: dash_pending_def)

lemma dashboard_link_fires:
  "fires (dashboard_link_view role w link) e \<Longrightarrow> \<exists>p. e = DB_link p \<and> p \<in> dashboard_links w link"
proof -
  have links: "''/users'' \<in> set stat_links" "''/access-requests'' \<in> set stat_links"
    by (simp_all add: stat_links_def)
  assume "fires (dashboard_link_view role w link) e"
  then show ?thesis
    unfolding dashboard_link_view_def dashboard_links_def reads_view
    by (elim disjE conjE exE) (use links in \<open>auto simp: image_iff split_beta\<close>)
qed

lemma dashboard_fires:
  assumes "fires (dashboard_view role username w link s) e"
  shows "(\<exists>p. e = DB_link p \<and> p \<in> dashboard_links w link) \<or>
    (is_privileged role \<and> (\<exists>r. r \<in> set (dash_pending s) \<and>
       (e = DB_deny r \<or> (e = DB_ask r \<and> \<not> is_own_request username r)))) \<or>
    (db_approve_target s \<noteq> None \<and> (e = DB_cancel \<or> (e = DB_confirm \<and> db_approving s = None)))"
proof -
  have slice: "r \<in> set (js_slice (dash_shown role username s) 0 6) \<Longrightarrow> is_privileged role \<Longrightarrow>
      r \<in> set (dash_pending s)" for r
    using set_js_slice [of "dash_shown role username s" 0 6] by (auto simp: dash_shown_def)
  from assms show ?thesis
    unfolding dashboard_view_def reads_view by (blast dest: slice dashboard_link_fires)
qed

lemma dashboard_inv_event:
  assumes "dashboard_inv role username s"
    and "fires (dashboard_view role username w link s) e \<or> dashboard_env s e"
  shows "dashboard_inv role username (fst (dashboard_handle s e))"
proof (cases e)
  case (DB_ask r)
  with assms show ?thesis
    by (auto simp: dashboard_inv_def dest: dashboard_fires dash_pending_status)
qed (use assms(1) in \<open>auto simp: dashboard_inv_def split: option.split\<close>)

lemma dashboard_ok_event:
  assumes "dashboard_inv role username s"
    and "fires (dashboard_view role username w link s) e \<or> dashboard_env s e"
    and "f \<in> set (snd (dashboard_handle s e))"
  shows "dashboard_ok role username w link s f"
proof (cases e)
  case (DB_deny r)
  with assms(2) have "is_privileged role" "r \<in> set (dash_pending s)" by (auto dest: dashboard_fires)
  with assms(3) DB_deny show ?thesis by (auto dest: dash_pending_status)
next
  case (DB_link p)
  with assms show ?thesis by (auto dest: dashboard_fires)
next
  case DB_confirm
  with assms(1,3) show ?thesis by (auto simp: dashboard_inv_def split: option.splits)
qed (use assms(3) in auto)

interpretation dashboard: ui_contract "dashboard_view role username w link" dashboard_env
  dashboard_handle "dashboard_inv role username" "dashboard_ok role username w link"
  for role username w link
  by unfold_locales (auto intro: dashboard_inv_event dashboard_ok_event)

fun policy_modal_ok :: "jit_role_policy list \<Rightarrow> policy_modal_effect \<Rightarrow> bool" where
  "policy_modal_ok policies (MutatePolicy h) =
     (case h of
        UseSetJitPolicy k n p \<Rightarrow> k \<in> {''ClusterRole'', ''Role''} \<and> n \<noteq> [] \<and> js_trim n = n
      | UseDeleteJitPolicy k n \<Rightarrow> \<exists>p\<in>set policies. k = jr_role_kind p \<and> n = jr_role_name p
      | _ \<Rightarrow> False)"
| "policy_modal_ok policies ClosePolicies = True"

lemma policy_modal_fires:
  assumes "fires (policy_modal_view policies s) e"
  shows "(\<exists>p\<in>set policies. e = JM_delete (jr_role_kind p) (jr_role_name p)) \<or> e = JM_save \<or> e = JM_close \<or>
    (\<exists>k\<in>{''ClusterRole'', ''Role''}. e = JM_kind k) \<or>
    (\<exists>v. e = JM_name v \<or> e = JM_eligible v \<or> e = JM_max_ttl v)"
  using assms unfolding policy_modal_view_def reads_view by auto

interpretation policy_modal: ui_contract "policy_modal_view policies" policy_modal_env
  policy_modal_handle "\<lambda>s. jm_role_kind s \<in> {''ClusterRole'', ''Role''}" "\<lambda>s. policy_modal_ok policies"
  for policies
proof
  fix s e f
  assume inv: "jm_role_kind s \<in> {''ClusterRole'', ''Role''}"
    and e: "fires (policy_modal_view policies s) e \<or> policy_modal_env s e"
  show "jm_role_kind (fst (policy_modal_handle s e)) \<in> {''ClusterRole'', ''Role''}"
  proof (cases e)
    case (JM_kind v)
    with e show ?thesis by (auto dest: policy_modal_fires)
  qed (use inv in auto)
  assume f: "f \<in> set (snd (policy_modal_handle s e))"
  show "policy_modal_ok policies f"
  proof (cases e)
    case JM_save
    with inv f show ?thesis by (auto split: if_splits)
  next
    case (JM_delete k n)
    with e f show ?thesis by (auto dest!: policy_modal_fires)
  qed (use f in auto)
qed

section \<open>Properties\<close>

text \<open>Who reviews what: in any run of the page, an approval, a denial, a revocation or an export is
  only sent by an admin or an approver (the export by an admin); an approval is of a request
  that was shown as pending, is in the open dialog and is not the reviewer's own; a revocation of
  an approved one; a denial of a listed pending one.\<close>

theorem reviews_guarded:
  assumes "ui_run (review_page_view role username) review_page_env review_page_handle review_page_init log s"
    and "(s', f) \<in> set log"
  shows "review_page_ok role username s' f"
proof -
  have "review_page_inv role username review_page_init"
    by (simp add: review_page_inv_def review_page_init_def)
  from review_page.run_ok [OF assms(1) this assms(2)] show ?thesis .
qed

definition demo_request :: access_request where
  "demo_request = \<lparr>q_id = ''r1'', q_requester = ''bob'', q_target_username = ''ci'', q_user_kind = ''User'',
     q_sa_namespace = None, q_role_name = ''edit'', q_role_kind = ''ClusterRole'', q_namespace = None,
     q_ttl_minutes = 60, q_reason = ''deploy'', q_status = Pending, q_requested_at = [],
     q_reviewed_by = None, q_reviewed_at = None, q_expires_at = None, q_binding_name = None\<rparr>"

definition approving :: "review_page_event list" where
  "approving = [VP_loaded (Some [demo_request]), VP_ask Approve demo_request, VP_confirm, VP_reviewed True]"

lemma approving_playable:
  "playable (review_page_view (Some Approver) (Some ''ann'')) review_page_env review_page_handle
     review_page_init approving"
  by (simp add: approving_def review_page_view_def review_page_init_def request_row_view_def
      is_own_request_def is_privileged_def demo_request_def handleConfirm_def)

lemma approving_log:
  "MutateRequests (UseApproveAccessRequest ''r1'') \<in>
     snd ` set (play_log review_page_handle review_page_init approving)"
  by (simp add: approving_def review_page_init_def demo_request_def handleConfirm_def review_hook_def)

theorem reviews_guarded_witness:
  "\<exists>s' r. (s', MutateRequests (UseApproveAccessRequest ''r1'')) \<in>
     set (play_log review_page_handle review_page_init approving) \<and>
     vp_confirm s' = Some (Approve, r) \<and> q_requester r \<noteq> ''ann''"
proof -
  from log_effect [OF approving_log] obtain s' where
    s': "(s', MutateRequests (UseApproveAccessRequest ''r1'')) \<in>
      set (play_log review_page_handle review_page_init approving)" ..
  from reviews_guarded [OF ui_run_play [OF approving_playable] s'] s' show ?thesis
    by (auto simp: is_own_request_def)
qed

text \<open>C19. The page implements the specification of a confirmed operation: any of its runs, read as a
  run of the dialog machine whose objects are the reviews (with the ids of their requests), is a
  run of that machine, approval for approval and revocation for revocation.\<close>

theorem review_page_refines:
  assumes "ui_run (review_page_view role username) review_page_env review_page_handle review_page_init log s"
  shows "ui_run (\<lambda>t. []) (gate_env (may_review role username)) gate_handle None
    (map_log review_target reviewed log) (review_target s)"
proof -
  have "review_page_inv role username review_page_init"
    by (simp add: review_page_inv_def review_page_init_def)
  from review_gate.run_refines [OF assms this] show ?thesis
    by (simp add: review_target_def review_page_init_def)
qed

theorem review_page_refines_witness:
  "ui_run (\<lambda>t. []) (gate_env (may_review (Some Approver) (Some ''ann''))) gate_handle None
    [(Some (Approve, ''r1''), (Approve, ''r1''))] None"
  using review_page_refines [OF ui_run_play [OF approving_playable]]
  by (simp add: approving_def review_page_init_def demo_request_def handleConfirm_def review_hook_def
      map_log_def review_target_def)

text \<open>The dashboard reviews by the same rules: an approval only by an admin or an approver, of the
  request in its dialog, which was pending and is not their own; a denial only of a listed
  pending request; and its links lead to pages of the application.\<close>

theorem dashboard_reviews:
  assumes "ui_run (dashboard_view role username w link) dashboard_env dashboard_handle dashboard_init log s"
    and "(s', f) \<in> set log"
  shows "dashboard_ok role username w link s' f"
proof -
  have "dashboard_inv role username dashboard_init" by (simp add: dashboard_inv_def dashboard_init_def)
  from dashboard.run_ok [OF assms(1) this assms(2)] show ?thesis .
qed

lemma dashboard_approving:
  "playable (dashboard_view (Some Admin) (Some ''ann'') True None) dashboard_env dashboard_handle
     dashboard_init [DB_loaded (Some [demo_request]), DB_ask demo_request, DB_confirm]"
  by (simp add: dashboard_view_def dashboard_link_view_def stat_links_def dashboard_init_def is_own_request_def is_privileged_def
      demo_request_def dash_shown_def dash_pending_def js_slice_def)

theorem dashboard_reviews_witness:
  "\<exists>s'. (s', MutateRequest (UseApproveAccessRequest ''r1'')) \<in> set (play_log dashboard_handle dashboard_init
     [DB_loaded (Some [demo_request]), DB_ask demo_request, DB_confirm]) \<and> db_approve_target s' \<noteq> None"
proof -
  let ?es = "[DB_loaded (Some [demo_request]), DB_ask demo_request, DB_confirm]"
  have "MutateRequest (UseApproveAccessRequest ''r1'') \<in> snd ` set (play_log dashboard_handle dashboard_init ?es)"
    by (simp add: dashboard_init_def demo_request_def)
  from log_effect [OF this] obtain s' where
    s': "(s', MutateRequest (UseApproveAccessRequest ''r1'')) \<in> set (play_log dashboard_handle dashboard_init ?es)" ..
  with dashboard_reviews [OF ui_run_play [OF dashboard_approving] s'] show ?thesis by auto
qed

text \<open>One number everywhere: the tile of the dashboard shows what the badge of the sidebar shows, for
  admins and approvers always and for everyone else when the server sends them only their own
  requests; the rows below the tile are the first six of the requests it counts.\<close>

theorem pending_counts_agree:
  assumes "db_requests s = Some rs"
    and "is_privileged role \<or> list_all (is_own_request username) rs"
  shows "pending_tile role username s = Some (pending_count rs) \<and>
    length (js_slice (dash_shown role username s) 0 6) = min 6 (pending_count rs) \<and>
    prefix (js_slice (dash_shown role username s) 0 6) (filter (\<lambda>r. q_status r = Pending) rs)"
proof -
  have shown: "dash_shown role username s = filter (\<lambda>r. q_status r = Pending) rs"
    using assms by (auto simp: dash_shown_def my_pending_def dash_pending_def list_all_iff
        intro: filter_cong)
  with assms(1) show ?thesis
    by (auto simp: pending_tile_def pending_count_def js_slice_def take_is_prefix)
qed

theorem pending_counts_agree_witness:
  "pending_tile None (Some ''bob'') (dashboard_init\<lparr>db_requests := Some [demo_request]\<rparr>) = Some 1"
  using pending_counts_agree [of "dashboard_init\<lparr>db_requests := Some [demo_request]\<rparr>" "[demo_request]"
      None "Some ''bob''"]
  by (simp add: is_own_request_def demo_request_def pending_count_def)

end
