(* ===== verification/Grants.thy ===== *)
theory Grants
  imports Gate UrlParams Hooks
begin

text \<open>
  Choosing a user and a role: \<^verbatim>\<open>components/access/RequestAccessModal.tsx\<close> (asking for a temporary
  role) and \<^verbatim>\<open>components/users/UserPermissionsPanel.tsx\<close> (granting and revoking roles). Both keep
  the chosen role as one string, \<open>kind::name\<close>, and the chosen user as \<open>namespace/name\<close>; this theory
  also holds those encodings, which the kubeconfig panel and the identity dialog use too.
\<close>

section \<open>Option values\<close>

definition user_key :: "('a) user_scheme \<Rightarrow> string" where
  "user_key u = u_namespace u @ ''/'' @ u_name u"

text \<open>Neither names nor namespaces of users contain a slash (a rule of Kubernetes the option values
  rely on).\<close>

definition no_slash :: "user \<Rightarrow> bool" where
  "no_slash u \<longleftrightarrow> CHR ''/'' \<notin> set (u_namespace u) \<and> CHR ''/'' \<notin> set (u_name u)"

definition find_user :: "user list \<Rightarrow> string \<Rightarrow> user option" where
  "find_user users key = find (\<lambda>u. user_key u = key) users"

definition role_value :: "string \<Rightarrow> string \<Rightarrow> string" where
  "role_value kind name = kind @ ''::'' @ name"

text \<open>The array pattern takes the first two parts; every offered value has two.\<close>

definition split_role :: "string \<Rightarrow> string \<times> string" where
  "split_role v = (case js_split ''::'' v of k # n # rest \<Rightarrow> (k, n) | k # rest \<Rightarrow> (k, []) | [] \<Rightarrow> ([], []))"

definition cluster_role_options :: "role_read list \<Rightarrow> string list" where
  "cluster_role_options clusterRoles = map (\<lambda>r. role_value ''ClusterRole'' (rr_name r)) clusterRoles"

definition role_options :: "bool \<Rightarrow> string \<Rightarrow> role_read list \<Rightarrow> role_read list \<Rightarrow> string list" where
  "role_options namespaced namespace nsRoles clusterRoles =
     (if namespaced \<and> truthy namespace
      then map (\<lambda>r. role_value ''Role'' (rr_name r)) nsRoles @ cluster_role_options clusterRoles
      else cluster_role_options clusterRoles)"

section \<open>components/access/RequestAccessModal.tsx\<close>

datatype grant_scope = ScopeCluster | ScopeNamespace

record request_form =
  rf_target :: string
  rf_scope :: grant_scope
  rf_namespace :: string
  rf_role :: string
  rf_ttl :: int
  rf_reason :: string
  rf_pending :: bool

definition request_form_init :: request_form where
  "request_form_init = \<lparr>rf_target = [], rf_scope = ScopeCluster, rf_namespace = [], rf_role = [],
     rf_ttl = 60, rf_reason = [], rf_pending = False\<rparr>"

definition TTL_PRESETS :: "nat list" where
  "TTL_PRESETS = [30, 60, 120, 240, 480, 1440]"

text \<open>The answers of the queries; the namespaced roles are those of the namespace chosen.\<close>

record grant_data =
  gd_users :: "user list"
  gd_namespaces :: "string list"
  gd_cluster_roles :: "role_read list"
  gd_roles :: "string \<Rightarrow> role_read list"

datatype request_form_event =
  RF_target string | RF_scope grant_scope | RF_namespace string | RF_role string | RF_ttl string
| RF_reason string | RF_submit | RF_created bool | RF_close

datatype request_form_effect = CreateRequest access_requests_hook | CloseForm

definition kind_of_user :: "('a) user_scheme \<Rightarrow> string" where
  "kind_of_user u = (if u_user_type u = Service_account then ''ServiceAccount'' else ''User'')"

definition canSubmit :: "grant_data \<Rightarrow> request_form \<Rightarrow> bool" where
  "canSubmit d s \<longleftrightarrow> find_user (gd_users d) (rf_target s) \<noteq> None \<and> truthy (rf_role s) \<and>
     js_trim (rf_reason s) \<noteq> [] \<and> (rf_scope s = ScopeCluster \<or> truthy (rf_namespace s))"

definition request_payload :: "request_form \<Rightarrow> user \<Rightarrow> access_request_create_payload" where
  "request_payload s target =
     (let (roleKind, roleName) = split_role (rf_role s) in
      \<lparr>rc_target_username = u_name target, rc_user_kind = kind_of_user target,
       rc_sa_namespace = (if u_user_type target = Service_account then Some (u_namespace target) else None),
       rc_role_name = roleName, rc_role_kind = roleKind,
       rc_namespace = (if rf_scope s = ScopeNamespace then Some (rf_namespace s) else None),
       rc_ttl_minutes = rf_ttl s, rc_reason = js_trim (rf_reason s)\<rparr>)"

definition handleSubmit :: "grant_data \<Rightarrow> request_form \<Rightarrow> request_form \<times> request_form_effect list" where
  "handleSubmit d s =
     (case find_user (gd_users d) (rf_target s) of
        Some target \<Rightarrow>
          if canSubmit d s
          then (s\<lparr>rf_pending := True\<rparr>, [CreateRequest (UseCreateAccessRequest (request_payload s target))])
          else (s, [])
      | None \<Rightarrow> (s, []))"

fun request_form_handle ::
  "grant_data \<Rightarrow> request_form \<Rightarrow> request_form_event \<Rightarrow> request_form \<times> request_form_effect list"
where
  "request_form_handle d s (RF_target v) = (s\<lparr>rf_target := v\<rparr>, [])"
| "request_form_handle d s (RF_scope sc) = (s\<lparr>rf_scope := sc\<rparr>, [])"
| "request_form_handle d s (RF_namespace v) = (s\<lparr>rf_namespace := v, rf_role := []\<rparr>, [])"
| "request_form_handle d s (RF_role v) = (s\<lparr>rf_role := v\<rparr>, [])"
| "request_form_handle d s (RF_ttl v) =
     (s\<lparr>rf_ttl := (case js_number v of Some n \<Rightarrow> n | None \<Rightarrow> rf_ttl s)\<rparr>, [])"
| "request_form_handle d s (RF_reason v) = (s\<lparr>rf_reason := v\<rparr>, [])"
| "request_form_handle d s RF_submit = handleSubmit d s"
| "request_form_handle d s (RF_created ok) = (s\<lparr>rf_pending := False\<rparr>, if ok then [CloseForm] else [])"
| "request_form_handle d s RF_close = (s, [CloseForm])"

definition request_form_view :: "grant_data \<Rightarrow> request_form \<Rightarrow> request_form_event control list" where
  "request_form_view d s = modal True RF_close
     ([Choose True (rf_target s) ([] # map user_key (gd_users d)) RF_target,
       Press True (RF_scope ScopeCluster), Press True (RF_scope ScopeNamespace)] @
      (if rf_scope s = ScopeNamespace
       then [Choose True (rf_namespace s) ([] # gd_namespaces d) RF_namespace] else []) @
      [Choose True (rf_role s) ([] # role_options (rf_scope s = ScopeNamespace) (rf_namespace s)
         (gd_roles d (rf_namespace s)) (gd_cluster_roles d)) RF_role,
       Choose True (show_int (rf_ttl s)) (map show_nat TTL_PRESETS) RF_ttl,
       Input True (rf_reason s) RF_reason,
       Press True RF_close, button (rf_pending s) (\<not> canSubmit d s) RF_submit])"

fun request_form_env :: "request_form \<Rightarrow> request_form_event \<Rightarrow> bool" where
  "request_form_env s (RF_created ok) = rf_pending s"
| "request_form_env s _ = False"

section \<open>components/users/UserPermissionsPanel.tsx\<close>

record subject =
  sb_kind :: string
  sb_name :: string
  sb_namespace :: "string option"

record binding_read =
  b_name :: string
  b_namespace :: "string option"
  b_role_ref :: string
  b_role_kind :: string
  b_subjects :: "subject list"

record user_permission_summary =
  ps_username :: string
  cluster_bindings :: "binding_read list"
  namespace_bindings :: "binding_read list"

record panel_props =
  pp_username :: string
  pp_user_type :: string
  pp_user_namespace :: "string option"
  pp_can_write :: bool
  pp_loading :: bool
  pp_perms :: "user_permission_summary option"

record perms_panel =
  up_show_assign :: bool
  up_role :: string
  up_ns :: string
  up_scope :: grant_scope
  up_assigning :: bool

definition perms_panel_init :: perms_panel where
  "perms_panel_init = \<lparr>up_show_assign = False, up_role = [], up_ns = [], up_scope = ScopeCluster,
     up_assigning = False\<rparr>"

datatype perms_panel_event =
  UP_show | UP_scope grant_scope | UP_ns string | UP_role string | UP_assign | UP_assigned bool
| UP_revoke binding_read

definition assign_mutation :: "panel_props \<Rightarrow> perms_panel \<Rightarrow> rbac_mutation" where
  "assign_mutation p s =
     (let (kind, name) = split_role (up_role s) in
      UseAssignRole (pp_username p)
        \<lparr>ar_role_name = name, ar_role_kind = kind,
         ar_namespace = (if up_scope s = ScopeNamespace then Some (up_ns s) else None)\<rparr>
        (Some (if pp_user_type p = ''service_account'' then ''ServiceAccount'' else ''User''))
        (if pp_user_type p = ''service_account''
         then Some (case pp_user_namespace p of Some n \<Rightarrow> n | None \<Rightarrow> ''default'') else None))"

definition handleAssign :: "panel_props \<Rightarrow> perms_panel \<Rightarrow> perms_panel \<times> rbac_mutation list" where
  "handleAssign p s =
     (if up_role s = [] then (s, []) else (s\<lparr>up_assigning := True\<rparr>, [assign_mutation p s]))"

fun perms_panel_handle :: "panel_props \<Rightarrow> perms_panel \<Rightarrow> perms_panel_event \<Rightarrow> perms_panel \<times> rbac_mutation list"
where
  "perms_panel_handle p s UP_show = (s\<lparr>up_show_assign := \<not> up_show_assign s\<rparr>, [])"
| "perms_panel_handle p s (UP_scope sc) = (s\<lparr>up_scope := sc, up_role := [], up_ns := []\<rparr>, [])"
| "perms_panel_handle p s (UP_ns v) = (s\<lparr>up_ns := v, up_role := []\<rparr>, [])"
| "perms_panel_handle p s (UP_role v) = (s\<lparr>up_role := v\<rparr>, [])"
| "perms_panel_handle p s UP_assign = handleAssign p s"
| "perms_panel_handle p s (UP_assigned ok) =
     ((if ok then s\<lparr>up_show_assign := False, up_role := []\<rparr> else s)\<lparr>up_assigning := False\<rparr>, [])"
| "perms_panel_handle p s (UP_revoke b) = (s, [UseRevokeRole (pp_username p) (b_role_ref b) (b_namespace b)])"

definition all_bindings :: "panel_props \<Rightarrow> binding_read list" where
  "all_bindings p = (case pp_perms p of
     Some m \<Rightarrow> cluster_bindings m @ namespace_bindings m | None \<Rightarrow> [])"

definition scope_value :: "grant_scope \<Rightarrow> string" where
  "scope_value sc = (if sc = ScopeCluster then ''cluster'' else ''namespace'')"

definition scope_of :: "string \<Rightarrow> grant_scope" where
  "scope_of v = (if v = ''cluster'' then ScopeCluster else ScopeNamespace)"

definition perms_panel_view ::
  "panel_props \<Rightarrow> grant_data \<Rightarrow> perms_panel \<Rightarrow> perms_panel_event control list"
where
  "perms_panel_view p d s =
     (if \<not> pp_loading p then
        (if pp_can_write p then [Press True UP_show] else []) @
        (if up_show_assign s
         then [Choose True (scope_value (up_scope s)) [''cluster'', ''namespace''] (\<lambda>v. UP_scope (scope_of v))] @
           (if up_scope s = ScopeNamespace
            then [Choose True (up_ns s) ([] # gd_namespaces d) UP_ns] else []) @
           [Choose True (up_role s) ([] # role_options (up_scope s = ScopeNamespace) (up_ns s)
              (gd_roles d (up_ns s)) (gd_cluster_roles d)) UP_role,
            button (up_assigning s) (up_role s = []) UP_assign]
         else []) @
        (if pp_can_write p then map (\<lambda>b. Press True (UP_revoke b)) (all_bindings p) else [])
      else [])"

fun perms_panel_env :: "perms_panel \<Rightarrow> perms_panel_event \<Rightarrow> bool" where
  "perms_panel_env s (UP_assigned ok) = up_assigning s"
| "perms_panel_env s _ = False"

section \<open>The encodings\<close>

lemma user_key_inject:
  assumes "CHR ''/'' \<notin> set (u_namespace u)" "CHR ''/'' \<notin> set (u_namespace v)"
  shows "user_key u = user_key v \<longleftrightarrow> u_namespace u = u_namespace v \<and> u_name u = u_name v"
proof
  assume eq: "user_key u = user_key v"
  have "js_split ''/'' (user_key u) = u_namespace u # js_split ''/'' (u_name u)"
    "js_split ''/'' (user_key v) = u_namespace v # js_split ''/'' (u_name v)"
    using assms by (simp_all add: user_key_def js_split_char_append)
  with eq have "u_namespace u = u_namespace v" by simp
  with eq show "u_namespace u = u_namespace v \<and> u_name u = u_name v" by (simp add: user_key_def)
qed (simp add: user_key_def)

lemma find_user_Some: "find_user users key = Some u \<Longrightarrow> u \<in> set users \<and> user_key u = key"
  by (auto simp: find_user_def find_Some_iff)

lemma js_split_single: "sep \<noteq> [] \<Longrightarrow> js_split sep xs = [w] \<Longrightarrow> \<not> sublist sep xs \<and> w = xs"
proof (induction xs arbitrary: w)
  case (Cons c cs)
  have np: "\<not> prefix sep (c # cs)"
  proof
    assume "prefix sep (c # cs)"
    then obtain ys where "c # cs = sep @ ys" by (auto simp: prefix_def)
    with Cons.prems show False by (simp add: js_split_sep)
  qed
  with Cons.prems obtain v where "js_split sep cs = [v]" "w = c # v"
    by (subst (asm) js_split.simps) (auto split: list.splits)
  with Cons.IH [OF Cons.prems(1)] np show ?case by (auto simp: sublist_Cons_right)
qed simp

lemma hd_js_split: "sep \<noteq> [] \<Longrightarrow> hd (js_split sep xs) = xs \<longleftrightarrow> \<not> sublist sep xs"
proof
  assume sep: "sep \<noteq> []" and hd: "hd (js_split sep xs) = xs"
  have "tl (js_split sep xs) = []"
  proof (rule ccontr)
    assume ne: "tl (js_split sep xs) \<noteq> []"
    have "xs = js_join sep (hd (js_split sep xs) # tl (js_split sep xs))" by simp
    also have "\<dots> = xs @ sep @ js_join sep (tl (js_split sep xs))" using ne hd by (simp add: js_join_Cons)
    finally show False using sep by simp
  qed
  then have "js_split sep xs = [xs]" using hd by (metis js_split_not_Nil list.collapse)
  with js_split_single [OF sep] show "\<not> sublist sep xs" by blast
qed (simp add: js_split_no_sep)

lemma split_role_value:
  assumes "kind \<in> {''Role'', ''ClusterRole''}"
  shows "split_role (role_value kind name) = (kind, hd (js_split ''::'' name))"
proof -
  have "js_split ''::'' (kind @ ''::'' @ name) = kind # js_split ''::'' name"
  proof (rule js_split_first, simp, intro allI impI)
    fix n assume n: "n < length kind"
    have "CHR '':'' \<notin> set kind" using assms by auto
    with n have "kind ! n \<noteq> CHR '':''" by (metis nth_mem)
    moreover have "hd (drop n (kind @ ''::'' @ name)) = kind ! n"
      using n by (simp add: hd_drop_conv_nth nth_append)
    ultimately show "\<not> prefix ''::'' (drop n (kind @ ''::'' @ name))"
      by (cases "drop n (kind @ ''::'' @ name)") auto
  qed
  then have "js_split ''::'' (role_value kind name) = kind # js_split ''::'' name" by (simp add: role_value_def)
  then show ?thesis by (cases "js_split ''::'' name") (simp_all add: split_role_def)
qed

lemma split_plain:
  "kind \<in> {''Role'', ''ClusterRole''} \<Longrightarrow> \<not> sublist ''::'' name \<Longrightarrow>
   split_role (role_value kind name) = (kind, name)"
  by (simp add: split_role_value js_split_no_sep)

section \<open>The contracts\<close>

text \<open>The role a form sends: what splitting the option of a listed role gives.\<close>

definition listed_role :: "grant_data \<Rightarrow> string \<Rightarrow> string \<Rightarrow> bool" where
  "listed_role d namespace v \<longleftrightarrow> v \<in> set (cluster_role_options (gd_cluster_roles d)) \<or>
     (truthy namespace \<and> (\<exists>r\<in>set (gd_roles d namespace). v = role_value ''Role'' (rr_name r)))"

lemma role_options_listed:
  "v \<in> set (role_options b ns (gd_roles d ns) (gd_cluster_roles d)) \<Longrightarrow> listed_role d ns v"
  by (auto simp: role_options_def listed_role_def split: if_splits)

text \<open>A role asked for as \<open>name\<close>: itself, unless two colons in its own name make the splitting cut it.\<close>

definition asked_as :: "role_read \<Rightarrow> string \<Rightarrow> bool" where
  "asked_as r name \<longleftrightarrow> name = hd (js_split ''::'' (rr_name r)) \<and> (\<not> string_includes (rr_name r) ''::'' \<longrightarrow> name = rr_name r)"

lemma listed_role_split:
  assumes "listed_role d ns v" "split_role v = (kind, name)"
  shows "(kind = ''ClusterRole'' \<and> (\<exists>r\<in>set (gd_cluster_roles d). v = role_value kind (rr_name r) \<and> asked_as r name)) \<or>
    (kind = ''Role'' \<and> truthy ns \<and>
      (\<exists>r\<in>set (gd_roles d ns). v = role_value kind (rr_name r) \<and> asked_as r name))"
proof -
  have asked: "asked_as r (hd (js_split ''::'' (rr_name r)))" for r
    by (auto simp: asked_as_def string_includes_def js_split_no_sep)
  from assms(1) consider (cluster) r where "r \<in> set (gd_cluster_roles d)" "v = role_value ''ClusterRole'' (rr_name r)"
    | (role) r where "truthy ns" "r \<in> set (gd_roles d ns)" "v = role_value ''Role'' (rr_name r)"
    by (auto simp: listed_role_def cluster_role_options_def)
  then show ?thesis
    using assms(2) by cases (auto simp: split_role_value asked)
qed

definition request_form_inv :: "grant_data \<Rightarrow> request_form \<Rightarrow> bool" where
  "request_form_inv d s \<longleftrightarrow> (rf_role s = [] \<or> listed_role d (rf_namespace s) (rf_role s)) \<and>
     rf_namespace s \<in> set ([] # gd_namespaces d) \<and> rf_ttl s \<in> int ` set TTL_PRESETS"

definition request_ok :: "grant_data \<Rightarrow> request_form \<Rightarrow> access_request_create_payload \<Rightarrow> bool" where
  "request_ok d s p \<longleftrightarrow>
     (\<exists>u\<in>set (gd_users d). user_key u = rf_target s \<and> rc_target_username p = u_name u \<and>
        rc_user_kind p = kind_of_user u \<and>
        rc_sa_namespace p = (if u_user_type u = Service_account then Some (u_namespace u) else None)) \<and>
     rc_ttl_minutes p = rf_ttl s \<and> rf_ttl s \<in> int ` set TTL_PRESETS \<and>
     rc_reason p = js_trim (rf_reason s) \<and> rc_reason p \<noteq> [] \<and>
     (case rc_namespace p of
        None \<Rightarrow> rf_scope s = ScopeCluster
      | Some n \<Rightarrow> rf_scope s = ScopeNamespace \<and> n = rf_namespace s \<and> n \<noteq> [] \<and> n \<in> set (gd_namespaces d)) \<and>
     (\<exists>r\<in>set (if rc_role_kind p = ''ClusterRole'' then gd_cluster_roles d else gd_roles d (rf_namespace s)).
        rc_role_kind p \<in> {''ClusterRole'', ''Role''} \<and> rf_role s = role_value (rc_role_kind p) (rr_name r) \<and>
        asked_as r (rc_role_name p))"

fun request_form_ok :: "grant_data \<Rightarrow> request_form \<Rightarrow> request_form_effect \<Rightarrow> bool" where
  "request_form_ok d s (CreateRequest h) = (\<exists>p. h = UseCreateAccessRequest p \<and> request_ok d s p)"
| "request_form_ok d s CloseForm = True"

lemma request_form_fires:
  assumes "fires (request_form_view d s) e"
  shows "e = RF_close \<or> (e = RF_submit \<and> canSubmit d s \<and> \<not> rf_pending s) \<or> (\<exists>sc. e = RF_scope sc) \<or>
    (\<exists>v. e = RF_target v \<or> e = RF_reason v) \<or>
    (\<exists>v\<in>set ([] # gd_namespaces d). e = RF_namespace v) \<or>
    (\<exists>n\<in>set TTL_PRESETS. e = RF_ttl (show_nat n)) \<or>
    (\<exists>v. e = RF_role v \<and> (v = [] \<or> listed_role d (rf_namespace s) v))"
proof -
  have role: "v = [] \<or> listed_role d (rf_namespace s) v"
    if "v \<in> set ([] # role_options (rf_scope s = ScopeNamespace) (rf_namespace s)
      (gd_roles d (rf_namespace s)) (gd_cluster_roles d))" for v
    using that by (auto dest: role_options_listed)
  have ttl: "v \<in> set (map show_nat TTL_PRESETS) \<Longrightarrow> \<exists>n\<in>set TTL_PRESETS. v = show_nat n" for v by auto
  from assms show ?thesis
    unfolding request_form_view_def reads_view by (blast dest: role ttl)
qed

lemma submit_ok:
  assumes "request_form_inv d s" "f \<in> set (snd (handleSubmit d s))"
  shows "request_form_ok d s f"
proof -
  from assms(2) obtain u where u: "find_user (gd_users d) (rf_target s) = Some u" and sub: "canSubmit d s"
    and f: "f = CreateRequest (UseCreateAccessRequest (request_payload s u))"
    by (auto simp: handleSubmit_def split: option.splits if_splits)
  obtain k n where kn: "split_role (rf_role s) = (k, n)" by fastforce
  have role: "listed_role d (rf_namespace s) (rf_role s)"
    using assms(1) sub by (auto simp: request_form_inv_def canSubmit_def)
  have ns: "rf_scope s = ScopeNamespace \<Longrightarrow> rf_namespace s \<noteq> [] \<and> rf_namespace s \<in> set (gd_namespaces d)"
    using assms(1) sub by (auto simp: request_form_inv_def canSubmit_def)
  from find_user_Some [OF u] have "u \<in> set (gd_users d)" "user_key u = rf_target s" by auto
  moreover have "rf_ttl s \<in> int ` set TTL_PRESETS" "js_trim (rf_reason s) \<noteq> []"
    using assms(1) sub by (auto simp: request_form_inv_def canSubmit_def)
  moreover note listed_role_split [OF role kn]
  moreover have "rf_scope s \<noteq> ScopeNamespace \<Longrightarrow> rf_scope s = ScopeCluster" by (cases "rf_scope s") auto
  ultimately have "request_ok d s (request_payload s u)"
    using ns unfolding request_ok_def request_payload_def kn by (auto simp: truthy_def)
  with f show ?thesis by simp
qed

interpretation request_form: ui_contract "request_form_view d" request_form_env "request_form_handle d"
  "request_form_inv d" "request_form_ok d"
  for d
proof
  fix s e f
  assume inv: "request_form_inv d s" and e: "fires (request_form_view d s) e \<or> request_form_env s e"
  show "request_form_inv d (fst (request_form_handle d s e))"
  proof (cases e)
    case (RF_namespace v)
    with inv e show ?thesis by (auto simp: request_form_inv_def dest: request_form_fires)
  next
    case (RF_role v)
    with inv e show ?thesis by (auto simp: request_form_inv_def dest: request_form_fires)
  next
    case (RF_ttl v)
    with e obtain n where "n \<in> set TTL_PRESETS" "v = show_nat n" by (auto dest: request_form_fires)
    with inv RF_ttl show ?thesis by (simp add: request_form_inv_def js_number_show_nat)
  next
    case RF_submit
    with inv show ?thesis by (auto simp: handleSubmit_def request_form_inv_def split: option.split)
  qed (use inv in \<open>auto simp: request_form_inv_def\<close>)
  assume f: "f \<in> set (snd (request_form_handle d s e))"
  show "request_form_ok d s f"
  proof (cases e)
    case RF_submit
    with inv f show ?thesis by (auto intro: submit_ok)
  qed (use f in \<open>auto split: if_splits\<close>)
qed

definition perms_panel_inv :: "panel_props \<Rightarrow> grant_data \<Rightarrow> perms_panel \<Rightarrow> bool" where
  "perms_panel_inv p d s \<longleftrightarrow> (up_show_assign s \<longrightarrow> pp_can_write p) \<and>
     up_ns s \<in> set ([] # gd_namespaces d) \<and> (up_scope s = ScopeCluster \<longrightarrow> up_ns s = []) \<and>
     (up_role s = [] \<or> listed_role d (up_ns s) (up_role s))"

fun perms_panel_ok :: "panel_props \<Rightarrow> grant_data \<Rightarrow> perms_panel \<Rightarrow> rbac_mutation \<Rightarrow> bool" where
  "perms_panel_ok p d s (UseAssignRole u a userKind saNamespace) \<longleftrightarrow>
     pp_can_write p \<and> u = pp_username p \<and>
     (if pp_user_type p = ''service_account''
      then userKind = Some ''ServiceAccount'' \<and> saNamespace \<noteq> None
      else userKind = Some ''User'' \<and> saNamespace = None) \<and>
     ((ar_role_kind a = ''ClusterRole'' \<and>
         (\<exists>r\<in>set (gd_cluster_roles d). ar_role_name a = hd (js_split ''::'' (rr_name r)))) \<or>
      (ar_role_kind a = ''Role'' \<and> (\<exists>n. ar_namespace a = Some n \<and> n \<in> set (gd_namespaces d) \<and>
         (\<exists>r\<in>set (gd_roles d n). ar_role_name a = hd (js_split ''::'' (rr_name r)))))) \<and>
     (case ar_namespace a of
        None \<Rightarrow> up_scope s = ScopeCluster
      | Some n \<Rightarrow> up_scope s = ScopeNamespace \<and> (n = [] \<or> n \<in> set (gd_namespaces d)))"
| "perms_panel_ok p d s (UseRevokeRole u r ns) \<longleftrightarrow>
     pp_can_write p \<and> u = pp_username p \<and>
     (\<exists>b\<in>set (all_bindings p). r = b_role_ref b \<and> ns = b_namespace b)"
| "perms_panel_ok p d s _ = False"

lemma perms_panel_fires:
  assumes "fires (perms_panel_view p d s) e"
  shows "(pp_can_write p \<and> (e = UP_show \<or> (\<exists>b\<in>set (all_bindings p). e = UP_revoke b))) \<or>
    (up_show_assign s \<and> ((\<exists>sc. e = UP_scope sc) \<or>
       (up_scope s = ScopeNamespace \<and> (\<exists>v\<in>set ([] # gd_namespaces d). e = UP_ns v)) \<or>
       (\<exists>v. e = UP_role v \<and> (v = [] \<or> listed_role d (up_ns s) v)) \<or> (e = UP_assign \<and> up_role s \<noteq> [])))"
proof -
  have role: "v = [] \<or> listed_role d (up_ns s) v"
    if "v \<in> set ([] # role_options (up_scope s = ScopeNamespace) (up_ns s)
      (gd_roles d (up_ns s)) (gd_cluster_roles d))" for v
    using that by (auto dest: role_options_listed)
  from assms show ?thesis unfolding perms_panel_view_def reads_view by (blast dest: role)
qed

lemma assign_ok:
  assumes "perms_panel_inv p d s" "up_show_assign s" "up_role s \<noteq> []"
  shows "perms_panel_ok p d s (assign_mutation p s)"
proof -
  obtain k n where kn: "split_role (up_role s) = (k, n)" by fastforce
  have role: "listed_role d (up_ns s) (up_role s)" and w: "pp_can_write p"
    and ns: "up_ns s \<in> set ([] # gd_namespaces d)" "up_scope s = ScopeCluster \<longrightarrow> up_ns s = []"
    using assms by (auto simp: perms_panel_inv_def)
  have scope: "up_scope s \<noteq> ScopeNamespace \<longleftrightarrow> up_scope s = ScopeCluster" by (cases "up_scope s") auto
  from listed_role_split [OF role kn] show ?thesis
    using w ns scope unfolding assign_mutation_def kn by (auto simp: truthy_def asked_as_def)
qed

interpretation perms_panel: ui_contract "perms_panel_view p d" perms_panel_env "perms_panel_handle p"
  "perms_panel_inv p d" "perms_panel_ok p d"
  for p d
proof
  fix s e f
  assume inv: "perms_panel_inv p d s" and e: "fires (perms_panel_view p d s) e \<or> perms_panel_env s e"
  show "perms_panel_inv p d (fst (perms_panel_handle p s e))"
  proof (cases e)
    case UP_show
    with e have "pp_can_write p" by (auto dest: perms_panel_fires)
    with inv UP_show show ?thesis by (simp add: perms_panel_inv_def)
  next
    case (UP_ns v)
    with inv e show ?thesis by (auto simp: perms_panel_inv_def dest: perms_panel_fires)
  next
    case (UP_role v)
    with inv e show ?thesis by (auto simp: perms_panel_inv_def dest: perms_panel_fires)
  qed (use inv in \<open>auto simp: perms_panel_inv_def handleAssign_def\<close>)
  assume f: "f \<in> set (snd (perms_panel_handle p s e))"
  show "perms_panel_ok p d s f"
  proof (cases e)
    case UP_assign
    with e have "up_show_assign s" "up_role s \<noteq> []" by (auto dest: perms_panel_fires)
    with inv f UP_assign show ?thesis by (auto simp: handleAssign_def intro: assign_ok)
  next
    case (UP_revoke b)
    with e f show ?thesis by (auto dest: perms_panel_fires)
  qed (use f in auto)
qed

section \<open>Properties\<close>

text \<open>A role keeps its name through its option, that is, splitting the option gives the kind and the
  name it was made of, exactly for the names without a double colon; of the other names only
  the part before it is left.\<close>

theorem role_value_roundtrip:
  assumes "kind = ''Role'' \<or> kind = ''ClusterRole''"
  shows "(split_role (role_value kind name) = (kind, name) \<longleftrightarrow> \<not> string_includes name ''::'') \<and>
    fst (split_role (role_value kind name)) = kind"
  using assms split_role_value [of kind name] hd_js_split [of "''::''" name]
  by (auto simp: string_includes_def)

theorem role_value_roundtrip_witness:
  "split_role (role_value ''ClusterRole'' ''system:node'') = (''ClusterRole'', ''system:node'')"
proof -
  have "\<not> string_includes ''system:node'' ''::''" by (simp add: string_includes_def sublist_code)
  with role_value_roundtrip [of "''ClusterRole''" "''system:node''"] show ?thesis by simp
qed

text \<open>C25. What a request for access asks for, when the lists stay the same while the form is on screen: in any run,
  the user chosen in the list (with the namespace of a service account and no other), the duration chosen among
  those offered, the trimmed text typed as reason, which is not empty, the listed namespace chosen exactly when the
  scope is a namespace, and the role chosen, from the list of cluster roles or from that of the namespace last
  chosen. The role is named as in the list unless its own name contains two colons: then what stands before them
  is sent. Going back to the cluster-wide scope keeps the choice, so a role of a namespace can be asked for
  cluster-wide.\<close>

theorem requests_access:
  assumes "ui_run (request_form_view d) request_form_env (request_form_handle d) request_form_init log s"
    and "(s', CreateRequest h) \<in> set log"
  shows "\<exists>p. h = UseCreateAccessRequest p \<and> request_ok d s' p"
proof -
  have "request_form_inv d request_form_init"
    by (simp add: request_form_inv_def request_form_init_def TTL_PRESETS_def)
  from request_form.run_ok [OF assms(1) this assms(2)] show ?thesis by simp
qed

definition grant_user :: user where
  "grant_user = \<lparr>u_name = ''ci'', u_user_type = Service_account, u_groups = [], u_namespace = ''dev'',
     u_created_at = [], u_cert_expiry = None, u_csr_name = None\<rparr>"

definition plain_role :: "string \<Rightarrow> string option \<Rightarrow> role_read" where
  "plain_role n ns = \<lparr>rr_name = n, rr_namespace = ns, rr_rules = [], rr_is_system = False\<rparr>"

definition demo_grants :: grant_data where
  "demo_grants = \<lparr>gd_users = [grant_user], gd_namespaces = [''dev''],
     gd_cluster_roles = [plain_role ''edit'' None], gd_roles = (\<lambda>ns. [plain_role ''deployer'' (Some ns)])\<rparr>"

definition scope_switched :: "request_form_event list" where
  "scope_switched = [RF_target ''dev/ci'', RF_scope ScopeNamespace, RF_namespace ''dev'',
     RF_role ''Role::deployer'', RF_reason ''a'', RF_scope ScopeCluster, RF_submit]"

lemma split_deployer: "split_role ''Role::deployer'' = (''Role'', ''deployer'')"
  using split_plain [of "''Role''" "''deployer''"] by (simp add: role_value_def sublist_code)

lemma plain_a: "plain_char (CHR ''a'')"
  by (simp add: plain_char_def ws_seqs_def)

lemmas grants_eval = request_form_view_def request_form_init_def modal_def demo_grants_def grant_user_def
  user_key_def find_user_def role_options_def cluster_role_options_def role_value_def plain_role_def
  canSubmit_def handleSubmit_def truthy_def js_trim_plain plain_a button_def

lemma scope_switched_playable:
  "playable (request_form_view demo_grants) request_form_env (request_form_handle demo_grants)
     request_form_init scope_switched"
  by (simp add: scope_switched_def grants_eval)

theorem requests_access_witness:
  "\<exists>s' p. (s', CreateRequest (UseCreateAccessRequest p)) \<in>
     set (play_log (request_form_handle demo_grants) request_form_init scope_switched) \<and>
     request_ok demo_grants s' p"
proof -
  have "CreateRequest (UseCreateAccessRequest \<lparr>rc_target_username = ''ci'', rc_user_kind = ''ServiceAccount'',
      rc_sa_namespace = Some ''dev'', rc_role_name = ''deployer'', rc_role_kind = ''Role'',
      rc_namespace = None, rc_ttl_minutes = 60, rc_reason = ''a''\<rparr>) \<in>
    snd ` set (play_log (request_form_handle demo_grants) request_form_init scope_switched)"
    by (simp add: scope_switched_def grants_eval request_payload_def split_deployer kind_of_user_def)
  from log_effect [OF this] obtain s' p where
    s': "(s', CreateRequest (UseCreateAccessRequest p)) \<in>
      set (play_log (request_form_handle demo_grants) request_form_init scope_switched)" by blast
  with requests_access [OF ui_run_play [OF scope_switched_playable] s'] show ?thesis by blast
qed

text \<open>What the permissions panel changes: in any run, only with the right to write; it grants its own
  user (a service account with its namespace) a listed role, a namespaced role only in the
  namespace it was chosen from, and across the cluster exactly when that scope is shown; and it
  revokes only bindings it lists.\<close>

theorem panel_grants:
  assumes "ui_run (perms_panel_view p d) perms_panel_env (perms_panel_handle p) perms_panel_init log s"
    and "(s', m) \<in> set log"
  shows "perms_panel_ok p d s' m"
proof -
  have "perms_panel_inv p d perms_panel_init" by (simp add: perms_panel_inv_def perms_panel_init_def)
  from perms_panel.run_ok [OF assms(1) this assms(2)] show ?thesis .
qed

definition demo_panel :: panel_props where
  "demo_panel = \<lparr>pp_username = ''ci'', pp_user_type = ''service_account'', pp_user_namespace = Some ''dev'',
     pp_can_write = True, pp_loading = False, pp_perms = None\<rparr>"

definition no_namespace :: "perms_panel_event list" where
  "no_namespace = [UP_show, UP_scope ScopeNamespace, UP_role ''ClusterRole::edit'', UP_assign]"

lemma no_namespace_playable:
  "playable (perms_panel_view demo_panel demo_grants) perms_panel_env (perms_panel_handle demo_panel)
     perms_panel_init no_namespace"
  by (simp add: no_namespace_def perms_panel_view_def perms_panel_init_def demo_panel_def
      scope_of_def bex_simps grants_eval exI [of _ "''namespace''"])

lemma split_edit: "split_role ''ClusterRole::edit'' = (''ClusterRole'', ''edit'')"
  using split_plain [of "''ClusterRole''" "''edit''"] by (simp add: role_value_def sublist_code)

definition edit_nowhere :: rbac_mutation where
  "edit_nowhere = UseAssignRole ''ci'' \<lparr>ar_role_name = ''edit'', ar_role_kind = ''ClusterRole'',
     ar_namespace = Some []\<rparr> (Some ''ServiceAccount'') (Some ''dev'')"

lemma no_namespace_log:
  "edit_nowhere \<in> snd ` set (play_log (perms_panel_handle demo_panel) perms_panel_init no_namespace)"
  by (simp add: no_namespace_def edit_nowhere_def perms_panel_init_def demo_panel_def handleAssign_def
      assign_mutation_def split_edit)

theorem panel_grants_witness:
  "\<exists>s'. (s', edit_nowhere) \<in> set (play_log (perms_panel_handle demo_panel) perms_panel_init no_namespace) \<and>
     up_scope s' = ScopeNamespace"
proof -
  from log_effect [OF no_namespace_log] obtain s' where
    s': "(s', edit_nowhere) \<in> set (play_log (perms_panel_handle demo_panel) perms_panel_init no_namespace)" ..
  with panel_grants [OF ui_run_play [OF no_namespace_playable] s'] show ?thesis
    by (auto simp: edit_nowhere_def)
qed

text \<open>Grants that miss their scope. The panel sends a grant for the scope of a namespace before a
  namespace is chosen, with an empty namespace; the request form, which asks for one, keeps the
  role when the scope changes, so that it sends a namespaced role with no namespace at all.\<close>

theorem grants_outside_scope:
  "(\<exists>log s s' a k sa. ui_run (perms_panel_view demo_panel demo_grants) perms_panel_env
       (perms_panel_handle demo_panel) perms_panel_init log s \<and>
     (s', UseAssignRole ''ci'' a k sa) \<in> set log \<and> ar_namespace a = Some []) \<and>
   (\<exists>log s s' p. ui_run (request_form_view demo_grants) request_form_env
       (request_form_handle demo_grants) request_form_init log s \<and>
     (s', CreateRequest (UseCreateAccessRequest p)) \<in> set log \<and>
     rc_role_kind p = ''Role'' \<and> rc_namespace p = None)"
proof
  have "\<exists>s' a k sa. (s', UseAssignRole ''ci'' a k sa) \<in>
      set (play_log (perms_panel_handle demo_panel) perms_panel_init no_namespace) \<and> ar_namespace a = Some []"
    using no_namespace_log by (force simp: edit_nowhere_def)
  with ui_run_play [OF no_namespace_playable]
  show "\<exists>log s s' a k sa. ui_run (perms_panel_view demo_panel demo_grants) perms_panel_env
       (perms_panel_handle demo_panel) perms_panel_init log s \<and>
     (s', UseAssignRole ''ci'' a k sa) \<in> set log \<and> ar_namespace a = Some []" by blast
next
  have "\<exists>s' p. (s', CreateRequest (UseCreateAccessRequest p)) \<in>
      set (play_log (request_form_handle demo_grants) request_form_init scope_switched) \<and>
      rc_role_kind p = ''Role'' \<and> rc_namespace p = None"
    by (simp add: scope_switched_def grants_eval request_payload_def split_deployer kind_of_user_def)
  with ui_run_play [OF scope_switched_playable]
  show "\<exists>log s s' p. ui_run (request_form_view demo_grants) request_form_env
       (request_form_handle demo_grants) request_form_init log s \<and>
     (s', CreateRequest (UseCreateAccessRequest p)) \<in> set log \<and>
     rc_role_kind p = ''Role'' \<and> rc_namespace p = None" by blast
qed

end
