(* ===== verification/Users.thy ===== *)
theory Users
  imports Gate UrlParams Listing RoleEditor
begin

text \<open>
  \<^verbatim>\<open>pages/UsersPage.tsx\<close> with what it is made of: the list of users (Listing.thy), the dialog of
  \<^verbatim>\<open>components/users/DeleteUserModal.tsx\<close> and the form of \<^verbatim>\<open>components/users/ImportUserModal.tsx\<close>.
  The wizard of the same page is in Wizard.thy; the page only opens and closes it. The list and the
  form keep their own state, events and effects; the page runs the effects that are its callbacks.
\<close>

section \<open>components/users/ImportUserModal.tsx\<close>

record import_form =
  im_user_type :: user_type
  im_name :: string
  im_namespace :: string
  im_groups :: string
  im_selected :: "(string \<times> string) option"
  im_pending :: bool

definition import_form_init :: import_form where
  "import_form_init = \<lparr>im_user_type = Service_account, im_name = [], im_namespace = ''default'',
     im_groups = [], im_selected = None, im_pending = False\<rparr>"

datatype import_event =
  IM_type user_type | IM_select string string | IM_name string | IM_namespace string
| IM_groups string | IM_submit | IM_imported bool | IM_close

datatype import_effect = ImportUser import_user_payload | CloseImport

definition import_payload :: "import_form \<Rightarrow> import_user_payload" where
  "import_payload s = \<lparr>iu_name = im_name s, iu_user_type = im_user_type s, iu_namespace = im_namespace s,
     iu_groups = filter truthy (map js_trim (js_split '','' (im_groups s)))\<rparr>"

fun import_handle :: "import_form \<Rightarrow> import_event \<Rightarrow> import_form \<times> import_effect list" where
  "import_handle s (IM_type t) = (s\<lparr>im_user_type := t, im_selected := None, im_name := []\<rparr>, [])"
| "import_handle s (IM_select n ns) = (s\<lparr>im_selected := Some (n, ns), im_name := n, im_namespace := ns\<rparr>, [])"
| "import_handle s (IM_name v) = (s\<lparr>im_name := v\<rparr>, [])"
| "import_handle s (IM_namespace v) = (s\<lparr>im_namespace := v\<rparr>, [])"
| "import_handle s (IM_groups v) = (s\<lparr>im_groups := v\<rparr>, [])"
| "import_handle s IM_submit = (s\<lparr>im_pending := True\<rparr>, [ImportUser (import_payload s)])"
| "import_handle s (IM_imported ok) = (s\<lparr>im_pending := False\<rparr>, if ok then [CloseImport] else [])"
| "import_handle s IM_close =
     (s\<lparr>im_name := [], im_namespace := ''default'', im_groups := [], im_selected := None\<rparr>, [CloseImport])"

text \<open>\<open>unmanaged\<close>: names and namespaces of the service accounts the cluster has and the registry not.\<close>

definition import_view :: "(string \<times> string) list \<Rightarrow> bool \<Rightarrow> import_form \<Rightarrow> import_event control list" where
  "import_view unmanaged open s = modal open IM_close
     ([Press True (IM_type Service_account), Press True (IM_type Certificate)] @
      (if im_user_type s = Service_account
       then map (\<lambda>sa. Press True (IM_select (fst sa) (snd sa))) unmanaged else []) @
      [Input True (im_name s) IM_name] @
      (if im_user_type s = Service_account then [Input True (im_namespace s) IM_namespace] else []) @
      (if im_user_type s = Certificate then [Input True (im_groups s) IM_groups] else []) @
      [Press True IM_close, button (im_pending s) (im_name s = []) IM_submit])"

fun import_env :: "import_form \<Rightarrow> import_event \<Rightarrow> bool" where
  "import_env s (IM_imported ok) = im_pending s"
| "import_env s _ = False"

section \<open>pages/UsersPage.tsx, components/users/DeleteUserModal.tsx\<close>

record users_page =
  us_list :: "user_col table_state"
  us_create_open :: bool
  us_import_open :: bool
  us_import :: import_form
  us_to_delete :: "user option"
  us_deleting :: bool

definition users_page_init :: users_page where
  "users_page_init = \<lparr>us_list = user_list_init, us_create_open = False, us_import_open = False,
     us_import = import_form_init, us_to_delete = None, us_deleting = False\<rparr>"

datatype users_page_event =
  US_list user_list_event | US_import import_event | US_open_import | US_create bool | US_retry
| US_cancel | US_confirm | US_deleted bool

datatype users_page_effect = UsersCall users_hook | Goto string | RefetchUsers

definition kubeconfig_link :: "user \<Rightarrow> string" where
  "kubeconfig_link u = ''/kubeconfig?'' @ params_string
     ([(''user'', u_name u)] @ (if truthy (u_namespace u) then [(''namespace'', u_namespace u)] else []))"

definition delete_payload :: "user \<Rightarrow> delete_user_payload" where
  "delete_payload u = \<lparr>du_username = u_name u, du_user_type = u_user_type u, du_namespace = Some (u_namespace u)\<rparr>"

fun on_list_effect :: "users_page \<Rightarrow> user_list_effect \<Rightarrow> users_page \<times> users_page_effect list" where
  "on_list_effect s (OnKubeconfig u) = (s, [Goto (kubeconfig_link u)])"
| "on_list_effect s (OnDeleteUser u) = (s\<lparr>us_to_delete := Some u\<rparr>, [])"
| "on_list_effect s OnCreateUserClick = (s\<lparr>us_create_open := True\<rparr>, [])"

fun on_import_effect :: "users_page \<Rightarrow> import_effect \<Rightarrow> users_page \<times> users_page_effect list" where
  "on_import_effect s (ImportUser p) = (s, [UsersCall (UseImportUser p)])"
| "on_import_effect s CloseImport = (s\<lparr>us_import_open := False\<rparr>, [])"

text \<open>Every event of the list and of the form has at most one effect.\<close>

fun run_callbacks :: "('s \<Rightarrow> 'f \<Rightarrow> 's \<times> 'g list) \<Rightarrow> 's \<Rightarrow> 'f list \<Rightarrow> 's \<times> 'g list" where
  "run_callbacks on s [] = (s, [])"
| "run_callbacks on s (f # fs) =
     (let (t, gs) = on s f; (u, hs) = run_callbacks on t fs in (u, gs @ hs))"

definition handleDelete :: "users_page \<Rightarrow> users_page \<times> users_page_effect list" where
  "handleDelete s =
     (case us_to_delete s of
        None \<Rightarrow> (s, [])
      | Some u \<Rightarrow> (s\<lparr>us_deleting := True\<rparr>, [UsersCall (UseDeleteUser (delete_payload u))]))"

fun users_page_handle :: "users_page \<Rightarrow> users_page_event \<Rightarrow> users_page \<times> users_page_effect list" where
  "users_page_handle s (US_list e) =
     (let (l, fs) = user_list_handle (us_list s) e in run_callbacks on_list_effect (s\<lparr>us_list := l\<rparr>) fs)"
| "users_page_handle s (US_import e) =
     (let (m, fs) = import_handle (us_import s) e in run_callbacks on_import_effect (s\<lparr>us_import := m\<rparr>) fs)"
| "users_page_handle s US_open_import = (s\<lparr>us_import_open := True\<rparr>, [])"
| "users_page_handle s (US_create b) = (s\<lparr>us_create_open := b\<rparr>, [])"
| "users_page_handle s US_retry = (s, [RefetchUsers])"
| "users_page_handle s US_cancel = (s\<lparr>us_to_delete := None\<rparr>, [])"
| "users_page_handle s US_confirm = handleDelete s"
| "users_page_handle s (US_deleted ok) =
     (s\<lparr>us_deleting := False, us_to_delete := (if ok then None else us_to_delete s)\<rparr>, [])"

record users_data =
  ud_users :: "user list fetched"
  ud_unmanaged :: "(string \<times> string) list"

text \<open>The dialog of \<^verbatim>\<open>DeleteUserModal.tsx\<close>, and the question it asks.\<close>

definition delete_user_modal :: "user option \<Rightarrow> bool \<Rightarrow> users_page_event control list" where
  "delete_user_modal user pending =
     modal (user \<noteq> None) US_cancel [Press True US_cancel, button pending False US_confirm]"

definition delete_question :: "user \<Rightarrow> string" where
  "delete_question u = ''Delete '' @ u_name u @ ''? This will remove the '' @
     (if u_user_type u = Certificate then ''CSR'' else ''ServiceAccount'') @
     '' and all managed role bindings. This cannot be undone.''"

lemma fires_delete_user_modal [simp]:
  "fires (delete_user_modal user pending) e \<longleftrightarrow> user \<noteq> None \<and> (e = US_cancel \<or> \<not> pending \<and> e = US_confirm)"
  by (auto simp: delete_user_modal_def)

definition users_page_view ::
  "(string \<Rightarrow> string \<Rightarrow> int) \<Rightarrow> (string \<Rightarrow> int) \<Rightarrow> bool \<Rightarrow> users_data \<Rightarrow> users_page \<Rightarrow> users_page_event control list"
where
  "users_page_view collate time_of canWrite d s =
     (if canWrite then [Press True US_open_import, Press True (US_create True)] else []) @
     (case ud_users d of
        Loading \<Rightarrow> []
      | Failed \<Rightarrow> [Press True US_retry]
      | Ready users \<Rightarrow> embed US_list (user_list_view collate time_of
          \<lparr>ul_users = users, ul_on_create = True, ul_can_write = canWrite\<rparr> (us_list s))) @
     embed US_import (import_view (ud_unmanaged d) (us_import_open s) (us_import s)) @
     delete_user_modal (us_to_delete s) (us_deleting s)"

text \<open>The wizard closes itself.\<close>

fun users_page_env :: "users_page \<Rightarrow> users_page_event \<Rightarrow> bool" where
  "users_page_env s (US_import e) = import_env (us_import s) e"
| "users_page_env s (US_create b) = (us_create_open s \<and> \<not> b)"
| "users_page_env s (US_deleted ok) = us_deleting s"
| "users_page_env s _ = False"

section \<open>The contract of the page\<close>

definition listed_user :: "users_data \<Rightarrow> user \<Rightarrow> bool" where
  "listed_user d u \<longleftrightarrow> (\<exists>users. ud_users d = Ready users \<and> u \<in> set users)"

definition users_page_inv :: "bool \<Rightarrow> users_data \<Rightarrow> users_page \<Rightarrow> bool" where
  "users_page_inv w d s \<longleftrightarrow> (\<forall>u. us_to_delete s = Some u \<longrightarrow> w \<and> listed_user d u) \<and>
     (us_import_open s \<or> us_create_open s \<longrightarrow> w)"

fun users_page_ok :: "bool \<Rightarrow> users_data \<Rightarrow> users_page \<Rightarrow> users_page_effect \<Rightarrow> bool" where
  "users_page_ok w d s (UsersCall h) =
     (case h of
        UseDeleteUser p \<Rightarrow> w \<and> (\<exists>u. us_to_delete s = Some u \<and> p = delete_payload u \<and> listed_user d u)
      | UseImportUser p \<Rightarrow> w \<and> p = import_payload (us_import s) \<and> iu_name p \<noteq> [] \<and>
          (\<forall>g\<in>set (iu_groups p). g \<noteq> [] \<and> js_trim g = g)
      | _ \<Rightarrow> False)"
| "users_page_ok w d s (Goto p) = (\<exists>u. listed_user d u \<and> p = kubeconfig_link u)"
| "users_page_ok w d s RefetchUsers = True"

lemma user_list_fires:
  assumes "fires (user_list_view collate time_of p t) e"
  shows "(\<exists>u. e = UL_delete u \<and> u \<in> set (ul_users p) \<and> ul_can_write p) \<or>
    (\<exists>u. e = UL_kubeconfig u \<and> u \<in> set (ul_users p)) \<or> (e = UL_create \<and> ul_can_write p) \<or>
    (\<exists>c. e = UL_sort c) \<or> (\<exists>n. e = UL_toggle n) \<or> (\<exists>n. e = UL_page n)"
proof -
  have rows: "u \<in> set (user_list_rows collate time_of t (ul_users p)) \<Longrightarrow> u \<in> set (ul_users p)" for u
    using set_js_slice by (fastforce simp: user_list_rows_def page_slice_def user_list_sorted_def)
  have page: "\<exists>k. e = UL_page k" if "fires (pagination_view a b c UL_page) e" for a b c
    using that pagination_no_event by (cases e) fastforce+
  from assms show ?thesis
    unfolding user_list_view_def user_row_view_def
    by (auto simp: fires_concat_map fires_map dest: rows page split: if_splits)
qed

lemma import_fires:
  "fires (import_view unmanaged open s) e \<Longrightarrow> open \<and> (e = IM_submit \<longrightarrow> im_name s \<noteq> [])"
  unfolding import_view_def reads_view by blast

lemma users_page_fires:
  assumes "fires (users_page_view collate time_of w d s) e"
  shows "(w \<and> (e = US_open_import \<or> e = US_create True)) \<or> e = US_retry \<or>
    (\<exists>users e'. ud_users d = Ready users \<and> e = US_list e' \<and> fires (user_list_view collate time_of
       \<lparr>ul_users = users, ul_on_create = True, ul_can_write = w\<rparr> (us_list s)) e') \<or>
    (\<exists>e'. e = US_import e' \<and> us_import_open s \<and> (e' = IM_submit \<longrightarrow> im_name (us_import s) \<noteq> [])) \<or>
    (us_to_delete s \<noteq> None \<and> (e = US_cancel \<or> e = US_confirm))"
proof -
  show ?thesis
  proof (cases "ud_users d")
    case (Ready users)
    from assms show ?thesis
      unfolding users_page_view_def Ready fetched.case fires_delete_user_modal reads_view by (blast dest: import_fires)
  next
    case Loading
    from assms show ?thesis
      unfolding users_page_view_def Loading fetched.case fires_delete_user_modal reads_view by (blast dest: import_fires)
  next
    case Failed
    from assms show ?thesis
      unfolding users_page_view_def Failed fetched.case fires_delete_user_modal reads_view by (blast dest: import_fires)
  qed
qed

lemma import_frame: "snd (import_handle m e) \<in> {[], [CloseImport], [ImportUser (import_payload m)]}"
  by (cases e) auto

lemma import_submits: "ImportUser p \<in> set (snd (import_handle m e)) \<Longrightarrow> e = IM_submit \<and> p = import_payload m"
  by (cases e) (auto split: if_splits)

lemma users_page_list:
  "users_page_handle s (US_list e) =
     (let t = s\<lparr>us_list := fst (user_list_handle (us_list s) e)\<rparr> in
      case e of
        UL_kubeconfig u \<Rightarrow> (t, [Goto (kubeconfig_link u)])
      | UL_delete u \<Rightarrow> (t\<lparr>us_to_delete := Some u\<rparr>, [])
      | UL_create \<Rightarrow> (t\<lparr>us_create_open := True\<rparr>, [])
      | _ \<Rightarrow> (t, []))"
  by (cases e) simp_all

lemma users_page_import:
  "users_page_handle s (US_import e) =
     (let t = s\<lparr>us_import := fst (import_handle (us_import s) e)\<rparr> in
      if CloseImport \<in> set (snd (import_handle (us_import s) e)) then (t\<lparr>us_import_open := False\<rparr>, [])
      else (t, map (UsersCall \<circ> UseImportUser) (if e = IM_submit then [import_payload (us_import s)] else [])))"
  by (cases e) simp_all

lemma users_page_inv_event:
  assumes "users_page_inv w d s"
    and "fires (users_page_view collate time_of w d s) e \<or> users_page_env s e"
  shows "users_page_inv w d (fst (users_page_handle s e))"
proof (cases e)
  case (US_list l)
  with assms(2) obtain users where "ud_users d = Ready users" "fires (user_list_view collate time_of
       \<lparr>ul_users = users, ul_on_create = True, ul_can_write = w\<rparr> (us_list s)) l"
    by (auto dest: users_page_fires)
  with assms(1) US_list show ?thesis
    unfolding US_list users_page_list
    by (auto simp: Let_def users_page_inv_def listed_user_def dest: user_list_fires split: user_list_event.split)
next
  case (US_import m)
  with assms(1) show ?thesis
    unfolding US_import users_page_import by (auto simp: Let_def users_page_inv_def)
next
  case US_open_import
  with assms show ?thesis by (auto simp: users_page_inv_def dest: users_page_fires)
next
  case (US_create b)
  with assms show ?thesis by (auto simp: users_page_inv_def dest: users_page_fires)
qed (use assms(1) in \<open>auto simp: users_page_inv_def handleDelete_def split: option.split\<close>)

lemma users_page_ok_event:
  assumes "users_page_inv w d s"
    and "fires (users_page_view collate time_of w d s) e \<or> users_page_env s e"
    and "f \<in> set (snd (users_page_handle s e))"
  shows "users_page_ok w d s f"
proof (cases e)
  case (US_list l)
  with assms(2) obtain users where "ud_users d = Ready users" "fires (user_list_view collate time_of
       \<lparr>ul_users = users, ul_on_create = True, ul_can_write = w\<rparr> (us_list s)) l"
    by (auto dest: users_page_fires)
  with assms(3) US_list show ?thesis
    unfolding US_list users_page_list
    by (force simp: Let_def listed_user_def dest: user_list_fires split: user_list_event.splits)
next
  case (US_import m)
  with assms(3) have m: "m = IM_submit" and f: "f = UsersCall (UseImportUser (import_payload (us_import s)))"
    unfolding US_import users_page_import by (auto simp: Let_def split: if_splits)
  from assms(2) m US_import have "us_import_open s" "im_name (us_import s) \<noteq> []"
    by (auto dest: users_page_fires)
  with assms(1) f show ?thesis by (auto simp: users_page_inv_def import_payload_def truthy_def)
next
  case US_confirm
  with assms(1,3) show ?thesis by (auto simp: users_page_inv_def handleDelete_def split: option.splits)
qed (use assms(3) in auto)

interpretation users_page: ui_contract "users_page_view collate time_of w d" users_page_env
  users_page_handle "users_page_inv w d" "users_page_ok w d"
  for collate time_of w d
  by unfold_locales (auto intro: users_page_inv_event users_page_ok_event)

text \<open>Deleting is a confirmed operation.\<close>

definition delete_target :: "users_page \<Rightarrow> delete_user_payload option" where
  "delete_target s = map_option delete_payload (us_to_delete s)"

fun delete_event :: "users_page_event \<Rightarrow> delete_user_payload gate_event" where
  "delete_event (US_list (UL_delete u)) = Ask (delete_payload u)"
| "delete_event US_cancel = Cancel"
| "delete_event US_confirm = Confirm"
| "delete_event (US_deleted ok) = (if ok then Finished else Other)"
| "delete_event _ = Other"

fun deleted :: "users_page_effect \<Rightarrow> delete_user_payload list" where
  "deleted (UsersCall (UseDeleteUser p)) = [p]"
| "deleted _ = []"

definition may_delete :: "bool \<Rightarrow> users_data \<Rightarrow> delete_user_payload \<Rightarrow> bool" where
  "may_delete w d p \<longleftrightarrow> w \<and> (\<exists>u. listed_user d u \<and> p = delete_payload u)"

lemma users_page_gates:
  "gate_handle (delete_target s) (delete_event e) =
   (delete_target (fst (users_page_handle s e)), concat (map deleted (snd (users_page_handle s e))))"
proof (cases e)
  case (US_list l)
  then show ?thesis unfolding US_list users_page_list by (cases l) (simp_all add: delete_target_def)
next
  case (US_import m)
  then show ?thesis unfolding US_import users_page_import by (simp add: Let_def delete_target_def)
qed (auto simp: delete_target_def handleDelete_def split: option.split)

interpretation delete_gate: ui_refinement "users_page_view collate time_of w d" users_page_env
  users_page_handle "users_page_inv w d" "users_page_ok w d"
  "\<lambda>t. []" "gate_env (may_delete w d)" gate_handle
  delete_target "\<lambda>s. delete_event" deleted
  for collate time_of w d
proof
  fix s e
  assume e: "fires (users_page_view collate time_of w d s) e \<or> users_page_env s e"
  have "gate_env (may_delete w d) (delete_target s) (delete_event e)"
  proof (cases e)
    case (US_list l)
    with e show ?thesis
      by (cases l) (auto simp: may_delete_def listed_user_def dest!: users_page_fires user_list_fires)
  qed auto
  moreover note users_page_gates [of s e]
  ultimately show "(fires [] (delete_event e) \<or>
      gate_env (may_delete w d) (delete_target s) (delete_event e)) \<and>
    gate_handle (delete_target s) (delete_event e) =
      (delete_target (fst (users_page_handle s e)), concat (map deleted (snd (users_page_handle s e))))"
    by blast
qed

section \<open>Properties\<close>

text \<open>What the users page sends: in any run, a deletion only with the right to write, of a listed user
  that was put into the dialog, with that user's type and namespace; an import only with the right
  to write, with a name and with trimmed groups none of which is empty; and it only leads to the
  kubeconfig page, with the link of a listed user.\<close>

theorem users_page_acts:
  assumes "ui_run (users_page_view collate time_of w d) users_page_env users_page_handle users_page_init log s"
    and "(s', f) \<in> set log"
  shows "users_page_ok w d s' f"
proof -
  have "users_page_inv w d users_page_init" by (simp add: users_page_inv_def users_page_init_def)
  from users_page.run_ok [OF assms(1) this assms(2)] show ?thesis .
qed

definition import_run :: "users_page_event list" where
  "import_run = [US_open_import, US_import (IM_type Certificate), US_import (IM_name ''x''), US_import IM_submit]"

definition loading_users :: users_data where
  "loading_users = \<lparr>ud_users = Loading, ud_unmanaged = []\<rparr>"

lemma import_run_playable:
  "playable (users_page_view (\<lambda>a b. 0) (\<lambda>d. 0) True loading_users) users_page_env users_page_handle
     users_page_init import_run"
  by (simp add: import_run_def loading_users_def users_page_view_def users_page_init_def fires_embed
      import_view_def import_form_init_def)

theorem users_page_acts_witness:
  "\<exists>s' p. (s', UsersCall (UseImportUser p)) \<in> set (play_log users_page_handle users_page_init import_run) \<and>
     iu_name p = ''x'' \<and> users_page_ok True loading_users s' (UsersCall (UseImportUser p))"
proof -
  have "\<exists>p. UsersCall (UseImportUser p) \<in> snd ` set (play_log users_page_handle users_page_init import_run) \<and>
      iu_name p = ''x''"
    by (simp add: import_run_def users_page_init_def import_form_init_def import_payload_def)
  then obtain p where p: "UsersCall (UseImportUser p) \<in>
      snd ` set (play_log users_page_handle users_page_init import_run)" "iu_name p = ''x''" by blast
  from log_effect [OF p(1)] obtain s' where
    s': "(s', UsersCall (UseImportUser p)) \<in> set (play_log users_page_handle users_page_init import_run)" ..
  from users_page_acts [OF ui_run_play [OF import_run_playable] s'] s' p(2) show ?thesis by blast
qed

text \<open>Any run, read as a run of the dialog machine whose objects are the deletions of listed users, is a
  run of that machine, deletion for deletion.\<close>

theorem users_page_refines:
  assumes "ui_run (users_page_view collate time_of w d) users_page_env users_page_handle users_page_init log s"
  shows "ui_run (\<lambda>t. []) (gate_env (may_delete w d)) gate_handle None
    (map_log delete_target deleted log) (delete_target s)"
proof -
  have "users_page_inv w d users_page_init" by (simp add: users_page_inv_def users_page_init_def)
  from delete_gate.run_refines [OF assms this] show ?thesis by (simp add: delete_target_def users_page_init_def)
qed

end
