(* ===== verification/Admin.thy ===== *)
theory Admin
  imports Users Grants
begin

text \<open>
  Instance administration: \<^verbatim>\<open>pages/AdminPage.tsx\<close> with its two forms, and
  \<^verbatim>\<open>components/admin/\<close>: the roles of an account (\<^verbatim>\<open>RoleAssignmentsModal.tsx\<close>), its Kubernetes identity
  (\<^verbatim>\<open>LinkManagedUserModal.tsx\<close>) and the connection to Vault (\<^verbatim>\<open>VaultConfigSection.tsx\<close>). Every dialog
  keeps its own state and events; what it sends and its calls of \<open>onClose\<close> are its effects, which
  the page runs. The two dialogs that are mounted when they open have no state before.
\<close>

section \<open>Accounts\<close>

datatype account_source = Local_account | Ldap_account

record cv_user =
  cv_username :: string
  cv_roles :: "(string \<times> role) list"
  cv_source :: account_source
  cv_last_login :: "string option"
  cv_link :: "(string \<times> string) option"

text \<open>\<open>cv_link\<close>: name and namespace of the linked managed user.\<close>

record vault_status =
  vs_enabled :: bool
  vs_addr :: "string option"
  vs_mount :: "string option"
  vs_base_path :: "string option"
  vs_namespace :: "string option"
  vs_tls_skip_verify :: "bool option"
  vs_healthy :: "bool option"
  vs_error :: "string option"

datatype admin_effect =
  AdminSend admin_call | LinkSend link_hook | RoleSend permissions_hook | VaultSend vault_call
| RefreshKey query_key

datatype dialog_effect = Send admin_effect | CloseDialog

section \<open>AdminPage.tsx: CreateUserModal\<close>

record new_account =
  na_username :: string
  na_password :: string
  na_error :: string
  na_pending :: bool

definition new_account_init :: new_account where
  "new_account_init = \<lparr>na_username = [], na_password = [], na_error = [], na_pending = False\<rparr>"

datatype new_account_event =
  NA_username string | NA_password string | NA_submit | NA_created bool | NA_close

definition valid_account_name :: "string \<Rightarrow> bool" where
  "valid_account_name s = matches_class ''_-.'' s"

definition submit_account :: "new_account \<Rightarrow> new_account \<times> dialog_effect list" where
  "submit_account s =
     (if na_username s = [] then (s\<lparr>na_error := ''Required''\<rparr>, [])
      else if \<not> valid_account_name (na_username s)
      then (s\<lparr>na_error := ''Lowercase letters, numbers, dashes, dots, underscores only''\<rparr>, [])
      else if na_password s = [] then (s, [])
      else (s\<lparr>na_pending := True\<rparr>, [Send (AdminSend (AD_createUser (na_username s) (na_password s)))]))"

fun new_account_handle :: "new_account \<Rightarrow> new_account_event \<Rightarrow> new_account \<times> dialog_effect list" where
  "new_account_handle s (NA_username v) = (s\<lparr>na_username := v, na_error := []\<rparr>, [])"
| "new_account_handle s (NA_password v) = (s\<lparr>na_password := v\<rparr>, [])"
| "new_account_handle s NA_submit = submit_account s"
| "new_account_handle s (NA_created ok) =
     (if ok then (new_account_init, [Send (RefreshKey [JStr ''cv-users'']), CloseDialog])
      else (s\<lparr>na_pending := False\<rparr>, []))"
| "new_account_handle s NA_close = (s, [CloseDialog])"

definition new_account_view :: "bool \<Rightarrow> new_account \<Rightarrow> new_account_event control list" where
  "new_account_view open s = modal open NA_close
     [Input True (na_username s) NA_username, Input True (na_password s) NA_password, Press True NA_close,
      button (na_pending s) (na_username s = [] \<or> na_password s = []) NA_submit]"

section \<open>AdminPage.tsx: ResetPasswordModal\<close>

record reset_form =
  rp_password :: string
  rp_pending :: bool

definition reset_form_init :: reset_form where
  "reset_form_init = \<lparr>rp_password = [], rp_pending = False\<rparr>"

datatype reset_event = RP_password string | RP_submit | RP_done bool | RP_close

fun reset_handle :: "cv_user option \<Rightarrow> reset_form \<Rightarrow> reset_event \<Rightarrow> reset_form \<times> dialog_effect list" where
  "reset_handle target s (RP_password v) = (s\<lparr>rp_password := v\<rparr>, [])"
| "reset_handle target s RP_submit =
     (case target of
        Some u \<Rightarrow> (s\<lparr>rp_pending := True\<rparr>, [Send (AdminSend (AD_resetPassword (cv_username u) (rp_password s)))])
      | None \<Rightarrow> (s, []))"
| "reset_handle target s (RP_done ok) =
     (if ok then (reset_form_init, [Send (RefreshKey [JStr ''cv-users'']), CloseDialog])
      else (s\<lparr>rp_pending := False\<rparr>, []))"
| "reset_handle target s RP_close = (s, [CloseDialog])"

definition reset_view :: "cv_user option \<Rightarrow> reset_form \<Rightarrow> reset_event control list" where
  "reset_view target s = modal (target \<noteq> None) RP_close
     [Input True (rp_password s) RP_password, Press True RP_close,
      button (rp_pending s) (rp_password s = []) RP_submit]"

section \<open>RoleAssignmentsModal.tsx\<close>

record roles_modal =
  rm_scopes :: "string list"
  rm_roles :: "(string \<times> role) list option"
  rm_scope :: string
  rm_role :: role
  rm_saving :: bool

definition roles_modal_init :: roles_modal where
  "roles_modal_init = \<lparr>rm_scopes = [], rm_roles = None, rm_scope = [], rm_role = Viewer, rm_saving = False\<rparr>"

datatype roles_event =
  RM_scopes "string list" | RM_roles "(string \<times> role) list option" | RM_scope string | RM_role role
| RM_save | RM_saved bool | RM_delete string | RM_close

definition assigned_scopes :: "roles_modal \<Rightarrow> string list" where
  "assigned_scopes s = map fst (case rm_roles s of Some rs \<Rightarrow> rs | None \<Rightarrow> [])"

definition availableScopes :: "roles_modal \<Rightarrow> string list" where
  "availableScopes s = filter (\<lambda>c. c \<notin> set (assigned_scopes s)) (rm_scopes s)"

definition effectiveScope :: "roles_modal \<Rightarrow> string" where
  "effectiveScope s =
     (if truthy (rm_scope s) then rm_scope s
      else case availableScopes s of c # cs \<Rightarrow> c | [] \<Rightarrow> [])"

fun roles_handle :: "string \<Rightarrow> roles_modal \<Rightarrow> roles_event \<Rightarrow> roles_modal \<times> dialog_effect list" where
  "roles_handle username s (RM_scopes cs) = (s\<lparr>rm_scopes := cs\<rparr>, [])"
| "roles_handle username s (RM_roles rs) = (s\<lparr>rm_roles := rs\<rparr>, [])"
| "roles_handle username s (RM_scope c) = (s\<lparr>rm_scope := c\<rparr>, [])"
| "roles_handle username s (RM_role r) = (s\<lparr>rm_role := r\<rparr>, [])"
| "roles_handle username s RM_save =
     (if effectiveScope s = [] then (s, [])
      else (s\<lparr>rm_saving := True\<rparr>, [Send (RoleSend (UseSetUserRole (Some username) (effectiveScope s) (rm_role s)))]))"
| "roles_handle username s (RM_saved ok) =
     (s\<lparr>rm_saving := False, rm_scope := (if ok then [] else rm_scope s)\<rparr>, [])"
| "roles_handle username s (RM_delete c) = (s, [Send (RoleSend (UseDeleteUserRole (Some username) c))])"
| "roles_handle username s RM_close = (s, [CloseDialog])"

definition ROLE_OPTIONS :: "role list" where
  "ROLE_OPTIONS = [Viewer, Operator, Approver, Admin]"

definition roles_view :: "roles_modal \<Rightarrow> roles_event control list" where
  "roles_view s = modal True RM_close
     (map (\<lambda>c. Press True (RM_delete c)) (assigned_scopes s) @
      [Choose (rm_scopes s \<noteq> []) (effectiveScope s) (rm_scopes s) RM_scope] @
      map (\<lambda>r. Press True (RM_role r)) ROLE_OPTIONS @
      [button (rm_saving s) (effectiveScope s = []) RM_save, Press True RM_close])"

section \<open>LinkManagedUserModal.tsx\<close>

record link_modal =
  lm_users :: "user list option"
  lm_key :: string
  lm_setting :: bool
  lm_clearing :: bool

text \<open>\<open>useState\<close> of the selected key: the key of the current link, as \<^verbatim>\<open>${namespace}/${name}\<close>.\<close>

definition link_modal_init :: "(string \<times> string) option \<Rightarrow> link_modal" where
  "link_modal_init currentLink = \<lparr>lm_users = None,
     lm_key = (case currentLink of Some (name, ns) \<Rightarrow> ns @ ''/'' @ name | None \<Rightarrow> []),
     lm_setting = False, lm_clearing = False\<rparr>"

datatype link_event =
  LM_users "user list option" | LM_key string | LM_save | LM_saved bool | LM_clear | LM_cleared bool | LM_close

definition key_parts :: "string \<Rightarrow> string \<times> string" where
  "key_parts k = (case js_split ''/'' k of a # b # rest \<Rightarrow> (a, b) | a # rest \<Rightarrow> (a, []) | [] \<Rightarrow> ([], []))"

fun link_handle :: "string \<Rightarrow> link_modal \<Rightarrow> link_event \<Rightarrow> link_modal \<times> dialog_effect list" where
  "link_handle username s (LM_users us) = (s\<lparr>lm_users := us\<rparr>, [])"
| "link_handle username s (LM_key k) = (s\<lparr>lm_key := k\<rparr>, [])"
| "link_handle username s LM_save =
     (if lm_key s = [] then (s, [])
      else (s\<lparr>lm_setting := True\<rparr>,
        [Send (LinkSend (UseSetLink (Some username) (snd (key_parts (lm_key s))) (fst (key_parts (lm_key s)))))]))"
| "link_handle username s (LM_saved ok) = (s\<lparr>lm_setting := False\<rparr>, if ok then [CloseDialog] else [])"
| "link_handle username s LM_clear = (s\<lparr>lm_clearing := True\<rparr>, [Send (LinkSend (UseClearLink (Some username)))])"
| "link_handle username s (LM_cleared ok) = (s\<lparr>lm_clearing := False\<rparr>, if ok then [CloseDialog] else [])"
| "link_handle username s LM_close = (s, [CloseDialog])"

definition link_view :: "(string \<times> string) option \<Rightarrow> link_modal \<Rightarrow> link_event control list" where
  "link_view currentLink s = modal True LM_close
     ((case lm_users s of
         None \<Rightarrow> []
       | Some us \<Rightarrow> if us = [] then [] else [Choose True (lm_key s) ([] # map user_key us) LM_key]) @
      [Press True LM_close] @
      (if currentLink \<noteq> None then [button (lm_clearing s) False LM_clear] else []) @
      [button (lm_setting s) (lm_key s = []) LM_save])"

section \<open>VaultConfigSection.tsx\<close>

record vault_section =
  vc_status :: "vault_status fetched"
  vc_editing :: bool
  vc_form :: vault_config
  vc_configuring :: bool
  vc_disabling :: bool

definition DEFAULT_CONFIG :: vault_config where
  "DEFAULT_CONFIG = \<lparr>v_addr = [], v_token = [], v_mount = ''secret'', v_base_path = ''clustervision/users'',
     v_namespace = [], v_tls_skip_verify = False\<rparr>"

definition vault_section_init :: vault_section where
  "vault_section_init = \<lparr>vc_status = Loading, vc_editing = False, vc_form = DEFAULT_CONFIG,
     vc_configuring = False, vc_disabling = False\<rparr>"

datatype vault_field = F_addr | F_token | F_mount | F_base_path | F_namespace

datatype vault_event =
  VC_status "vault_status fetched" | VC_edit | VC_cancel | VC_field vault_field string | VC_tls bool
| VC_save | VC_configured "vault_status option" | VC_disable | VC_disabled bool

definition or_default :: "'a option \<Rightarrow> 'a \<Rightarrow> 'a" where
  "or_default x d = (case x of Some y \<Rightarrow> y | None \<Rightarrow> d)"

definition vault_form :: "vault_status fetched \<Rightarrow> vault_config" where
  "vault_form status = (case status of
     Ready st \<Rightarrow> \<lparr>v_addr = or_default (vs_addr st) [], v_token = [],
       v_mount = or_default (vs_mount st) ''secret'',
       v_base_path = or_default (vs_base_path st) ''clustervision/users'',
       v_namespace = or_default (vs_namespace st) [],
       v_tls_skip_verify = or_default (vs_tls_skip_verify st) False\<rparr>
   | _ \<Rightarrow> DEFAULT_CONFIG)"

fun set_field :: "vault_field \<Rightarrow> string \<Rightarrow> vault_config \<Rightarrow> vault_config" where
  "set_field F_addr v c = c\<lparr>v_addr := v\<rparr>"
| "set_field F_token v c = c\<lparr>v_token := v\<rparr>"
| "set_field F_mount v c = c\<lparr>v_mount := v\<rparr>"
| "set_field F_base_path v c = c\<lparr>v_base_path := v\<rparr>"
| "set_field F_namespace v c = c\<lparr>v_namespace := v\<rparr>"

fun vault_handle :: "vault_section \<Rightarrow> vault_event \<Rightarrow> vault_section \<times> admin_effect list" where
  "vault_handle s (VC_status st) = (s\<lparr>vc_status := st\<rparr>, [])"
| "vault_handle s VC_edit = (s\<lparr>vc_form := vault_form (vc_status s), vc_editing := True\<rparr>, [])"
| "vault_handle s VC_cancel = (s\<lparr>vc_editing := False\<rparr>, [])"
| "vault_handle s (VC_field f v) = (s\<lparr>vc_form := set_field f v (vc_form s)\<rparr>, [])"
| "vault_handle s (VC_tls b) = (s\<lparr>vc_form := (vc_form s)\<lparr>v_tls_skip_verify := b\<rparr>\<rparr>, [])"
| "vault_handle s VC_save = (s\<lparr>vc_configuring := True\<rparr>, [VaultSend (VA_configure (vc_form s))])"
| "vault_handle s (VC_configured r) =
     (case r of
        Some st \<Rightarrow> (s\<lparr>vc_configuring := False, vc_status := Ready st, vc_editing := False\<rparr>, [])
      | None \<Rightarrow> (s\<lparr>vc_configuring := False\<rparr>, []))"
| "vault_handle s VC_disable = (s\<lparr>vc_disabling := True\<rparr>, [VaultSend VA_disable])"
| "vault_handle s (VC_disabled ok) =
     (s\<lparr>vc_disabling := False\<rparr>, if ok then [RefreshKey [JStr ''vault-status'']] else [])"

definition vault_enabled :: "vault_section \<Rightarrow> bool" where
  "vault_enabled s \<longleftrightarrow> (case vc_status s of Ready st \<Rightarrow> vs_enabled st | _ \<Rightarrow> False)"

definition vault_view :: "vault_section \<Rightarrow> vault_event control list" where
  "vault_view s =
     (if vc_status s = Loading then []
      else
        (if vault_enabled s \<and> \<not> vc_editing s then [button (vc_disabling s) False VC_disable] else []) @
        (if \<not> vc_editing s then [Press True VC_edit] else []) @
        (if vc_editing s then
          [Input True (v_addr (vc_form s)) (VC_field F_addr), Input True (v_token (vc_form s)) (VC_field F_token),
           Input True (v_mount (vc_form s)) (VC_field F_mount),
           Input True (v_base_path (vc_form s)) (VC_field F_base_path),
           Input True (v_namespace (vc_form s)) (VC_field F_namespace),
           Tick True (v_tls_skip_verify (vc_form s)) VC_tls, Press True VC_cancel,
           button (vc_configuring s) (v_addr (vc_form s) = []) VC_save] else []))"

section \<open>AdminPage.tsx: the page\<close>

record admin_page =
  ap_users :: "cv_user list option"
  ap_create_open :: bool
  ap_create :: new_account
  ap_reset_target :: "cv_user option"
  ap_reset :: reset_form
  ap_delete_target :: "cv_user option"
  ap_deleting :: bool
  ap_roles :: "(cv_user \<times> roles_modal) option"
  ap_link :: "(cv_user \<times> link_modal) option"
  ap_vault :: vault_section

definition admin_page_init :: admin_page where
  "admin_page_init = \<lparr>ap_users = None, ap_create_open = False, ap_create = new_account_init,
     ap_reset_target = None, ap_reset = reset_form_init, ap_delete_target = None, ap_deleting = False,
     ap_roles = None, ap_link = None, ap_vault = vault_section_init\<rparr>"

datatype admin_event =
  AP_users "cv_user list option" | AP_create | AP_new new_account_event | AP_ask_reset cv_user
| AP_reset reset_event | AP_ask_roles cv_user | AP_roles roles_event | AP_ask_link cv_user
| AP_link link_event | AP_ask_delete cv_user | AP_cancel | AP_confirm | AP_deleted bool
| AP_vault vault_event

fun on_dialog :: "('s \<Rightarrow> 's) \<Rightarrow> 's \<Rightarrow> dialog_effect \<Rightarrow> 's \<times> admin_effect list" where
  "on_dialog onClose s (Send f) = (s, [f])"
| "on_dialog onClose s CloseDialog = (onClose s, [])"

fun admin_handle :: "admin_page \<Rightarrow> admin_event \<Rightarrow> admin_page \<times> admin_effect list" where
  "admin_handle s (AP_users us) = (s\<lparr>ap_users := us\<rparr>, [])"
| "admin_handle s AP_create = (s\<lparr>ap_create_open := True\<rparr>, [])"
| "admin_handle s (AP_new e) =
     (let (m, fs) = new_account_handle (ap_create s) e
      in run_callbacks (on_dialog (\<lambda>t. t\<lparr>ap_create_open := False\<rparr>)) (s\<lparr>ap_create := m\<rparr>) fs)"
| "admin_handle s (AP_ask_reset u) = (s\<lparr>ap_reset_target := Some u\<rparr>, [])"
| "admin_handle s (AP_reset e) =
     (let (m, fs) = reset_handle (ap_reset_target s) (ap_reset s) e
      in run_callbacks (on_dialog (\<lambda>t. t\<lparr>ap_reset_target := None\<rparr>)) (s\<lparr>ap_reset := m\<rparr>) fs)"
| "admin_handle s (AP_ask_roles u) = (s\<lparr>ap_roles := Some (u, roles_modal_init)\<rparr>, [])"
| "admin_handle s (AP_roles e) =
     (case ap_roles s of
        None \<Rightarrow> (s, [])
      | Some (u, r) \<Rightarrow>
          (let (m, fs) = roles_handle (cv_username u) r e
           in run_callbacks (on_dialog (\<lambda>t. t\<lparr>ap_roles := None\<rparr>)) (s\<lparr>ap_roles := Some (u, m)\<rparr>) fs))"
| "admin_handle s (AP_ask_link u) = (s\<lparr>ap_link := Some (u, link_modal_init (cv_link u))\<rparr>, [])"
| "admin_handle s (AP_link e) =
     (case ap_link s of
        None \<Rightarrow> (s, [])
      | Some (u, l) \<Rightarrow>
          (let (m, fs) = link_handle (cv_username u) l e
           in run_callbacks (on_dialog (\<lambda>t. t\<lparr>ap_link := None\<rparr>)) (s\<lparr>ap_link := Some (u, m)\<rparr>) fs))"
| "admin_handle s (AP_ask_delete u) = (s\<lparr>ap_delete_target := Some u\<rparr>, [])"
| "admin_handle s AP_cancel = (s\<lparr>ap_delete_target := None\<rparr>, [])"
| "admin_handle s AP_confirm =
     (case ap_delete_target s of
        Some u \<Rightarrow> (s\<lparr>ap_deleting := True\<rparr>, [AdminSend (AD_deleteUser (cv_username u))])
      | None \<Rightarrow> (s, []))"
| "admin_handle s (AP_deleted ok) =
     (if ok then (s\<lparr>ap_deleting := False, ap_delete_target := None\<rparr>, [RefreshKey [JStr ''cv-users'']])
      else (s\<lparr>ap_deleting := False\<rparr>, []))"
| "admin_handle s (AP_vault e) =
     (s\<lparr>ap_vault := fst (vault_handle (ap_vault s) e)\<rparr>, snd (vault_handle (ap_vault s) e))"

definition account_row :: "string option \<Rightarrow> cv_user \<Rightarrow> admin_event control list" where
  "account_row self u =
     [button False (cv_source u = Ldap_account) (AP_ask_roles u), Press True (AP_ask_link u),
      button False (cv_source u = Ldap_account) (AP_ask_reset u),
      button False (Some (cv_username u) = self) (AP_ask_delete u)]"

definition admin_view :: "string option \<Rightarrow> admin_page \<Rightarrow> admin_event control list" where
  "admin_view self s =
     [Press True AP_create] @
     (case ap_users s of None \<Rightarrow> [] | Some us \<Rightarrow> concat (map (account_row self) us)) @
     embed AP_new (new_account_view (ap_create_open s) (ap_create s)) @
     embed AP_reset (reset_view (ap_reset_target s) (ap_reset s)) @
     (case ap_roles s of None \<Rightarrow> [] | Some r \<Rightarrow> embed AP_roles (roles_view (snd r))) @
     (case ap_link s of None \<Rightarrow> [] | Some l \<Rightarrow> embed AP_link (link_view (cv_link (fst l)) (snd l))) @
     confirm_dialog (ap_delete_target s \<noteq> None) (ap_deleting s) AP_cancel AP_confirm @
     embed AP_vault (vault_view (ap_vault s))"

text \<open>Linked users are managed users, so their names and namespaces have no slash either.\<close>

definition link_no_slash :: "cv_user \<Rightarrow> bool" where
  "link_no_slash u \<longleftrightarrow> (case cv_link u of Some (n, ns) \<Rightarrow> CHR ''/'' \<notin> set ns \<and> CHR ''/'' \<notin> set n | None \<Rightarrow> True)"

fun admin_env :: "admin_page \<Rightarrow> admin_event \<Rightarrow> bool" where
  "admin_env s (AP_users us) = (case us of Some l \<Rightarrow> list_all link_no_slash l | None \<Rightarrow> True)"
| "admin_env s (AP_new (NA_created ok)) = na_pending (ap_create s)"
| "admin_env s (AP_reset (RP_done ok)) = rp_pending (ap_reset s)"
| "admin_env s (AP_roles (RM_scopes cs)) = True"
| "admin_env s (AP_roles (RM_roles rs)) = True"
| "admin_env s (AP_roles (RM_saved ok)) = (case ap_roles s of Some (u, r) \<Rightarrow> rm_saving r | None \<Rightarrow> False)"
| "admin_env s (AP_link (LM_users us)) = (case us of Some l \<Rightarrow> list_all no_slash l | None \<Rightarrow> True)"
| "admin_env s (AP_link (LM_saved ok)) = (case ap_link s of Some (u, l) \<Rightarrow> lm_setting l | None \<Rightarrow> False)"
| "admin_env s (AP_link (LM_cleared ok)) = (case ap_link s of Some (u, l) \<Rightarrow> lm_clearing l | None \<Rightarrow> False)"
| "admin_env s (AP_deleted ok) = ap_deleting s"
| "admin_env s (AP_vault (VC_status st)) = True"
| "admin_env s (AP_vault (VC_configured r)) = vc_configuring (ap_vault s)"
| "admin_env s (AP_vault (VC_disabled ok)) = vc_disabling (ap_vault s)"
| "admin_env s _ = False"

section \<open>The contract of the page\<close>

text \<open>The key of a user, as far as splitting it at the slash goes.\<close>

definition user_key_or_none :: "string \<Rightarrow> bool" where
  "user_key_or_none k \<longleftrightarrow>
     k = [] \<or> (\<exists>ns n. k = ns @ ''/'' @ n \<and> CHR ''/'' \<notin> set ns \<and> CHR ''/'' \<notin> set n)"

definition admin_inv :: "string option \<Rightarrow> admin_page \<Rightarrow> bool" where
  "admin_inv self s \<longleftrightarrow>
     (\<forall>us. ap_users s = Some us \<longrightarrow> list_all link_no_slash us) \<and>
     (\<forall>u. ap_reset_target s = Some u \<longrightarrow> cv_source u \<noteq> Ldap_account) \<and>
     (\<forall>u. ap_delete_target s = Some u \<longrightarrow> Some (cv_username u) \<noteq> self) \<and>
     (\<forall>u r. ap_roles s = Some (u, r) \<longrightarrow> cv_source u \<noteq> Ldap_account) \<and>
     (\<forall>u l. ap_link s = Some (u, l) \<longrightarrow> user_key_or_none (lm_key l) \<and>
        (\<forall>us. lm_users l = Some us \<longrightarrow> list_all no_slash us))"

fun admin_ok :: "string option \<Rightarrow> admin_page \<Rightarrow> admin_effect \<Rightarrow> bool" where
  "admin_ok self s (AdminSend c) =
     (case c of
        AD_createUser n p \<Rightarrow> valid_account_name n \<and> p \<noteq> []
      | AD_resetPassword n p \<Rightarrow> p \<noteq> [] \<and> p = rp_password (ap_reset s) \<and>
          (\<exists>u. ap_reset_target s = Some u \<and> n = cv_username u \<and> cv_source u \<noteq> Ldap_account)
      | AD_deleteUser n \<Rightarrow> Some n \<noteq> self \<and> (\<exists>u. ap_delete_target s = Some u \<and> n = cv_username u)
      | _ \<Rightarrow> False)"
| "admin_ok self s (RoleSend h) =
     (\<exists>u m. ap_roles s = Some (u, m) \<and> cv_source u \<noteq> Ldap_account \<and>
        (case h of
           UseSetUserRole n c r \<Rightarrow> n = Some (cv_username u) \<and> c = effectiveScope m \<and> c \<noteq> [] \<and> r = rm_role m
         | UseDeleteUserRole n c \<Rightarrow> n = Some (cv_username u) \<and> c \<in> set (assigned_scopes m)
         | _ \<Rightarrow> False))"
| "admin_ok self s (LinkSend h) =
     (\<exists>u l. ap_link s = Some (u, l) \<and>
        (case h of
           UseSetLink n name ns \<Rightarrow> n = Some (cv_username u) \<and> lm_key l = ns @ ''/'' @ name
         | UseClearLink n \<Rightarrow> n = Some (cv_username u) \<and> cv_link u \<noteq> None
         | _ \<Rightarrow> False))"
| "admin_ok self s (VaultSend c) =
     (case c of
        VA_configure v \<Rightarrow> vc_editing (ap_vault s) \<and> v = vc_form (ap_vault s) \<and> v_addr v \<noteq> []
      | VA_disable \<Rightarrow> vault_enabled (ap_vault s)
      | _ \<Rightarrow> False)"
| "admin_ok self s (RefreshKey k) \<longleftrightarrow> k = [JStr ''cv-users''] \<or> k = [JStr ''vault-status'']"

lemma key_parts_join:
  "CHR ''/'' \<notin> set ns \<Longrightarrow> CHR ''/'' \<notin> set n \<Longrightarrow> key_parts (ns @ ''/'' @ n) = (ns, n)"
  by (simp add: key_parts_def js_split_char_append js_split_char_free)

lemma user_key_key: "no_slash u \<Longrightarrow> user_key_or_none (user_key u)"
  by (auto simp: user_key_or_none_def user_key_def no_slash_def)

lemma link_key: "link_no_slash u \<Longrightarrow> user_key_or_none (lm_key (link_modal_init (cv_link u)))"
  by (auto simp: user_key_or_none_def link_no_slash_def link_modal_init_def split: option.splits)

lemma account_row_fires:
  "fires (account_row self u) e \<Longrightarrow>
     e = AP_ask_link u \<or> (cv_source u \<noteq> Ldap_account \<and> (e = AP_ask_roles u \<or> e = AP_ask_reset u)) \<or>
     (Some (cv_username u) \<noteq> self \<and> e = AP_ask_delete u)"
  unfolding account_row_def reads_view by blast

lemma reset_fires:
  "fires (reset_view t s) e \<Longrightarrow> t \<noteq> None \<and> (e = RP_submit \<longrightarrow> rp_password s \<noteq> [])"
  unfolding reset_view_def reads_view by blast

lemma roles_fires:
  "fires (roles_view s) e \<Longrightarrow> (e = RM_save \<longrightarrow> effectiveScope s \<noteq> []) \<and>
     (\<forall>c. e = RM_delete c \<longrightarrow> c \<in> set (assigned_scopes s)) \<and> (\<forall>rs. e \<noteq> RM_roles rs) \<and> (\<forall>cs. e \<noteq> RM_scopes cs)"
  unfolding roles_view_def reads_view by blast

lemma link_fires:
  assumes "fires (link_view cur s) e"
  shows "(\<forall>us. e \<noteq> LM_users us) \<and> (e = LM_clear \<longrightarrow> cur \<noteq> None) \<and> (e = LM_save \<longrightarrow> lm_key s \<noteq> []) \<and>
    (\<forall>k. e = LM_key k \<longrightarrow> k = [] \<or> (\<exists>us u. lm_users s = Some us \<and> u \<in> set us \<and> k = user_key u))"
proof -
  have choice: "\<exists>k. x = LM_key k \<and> (k = [] \<or> (\<exists>u. u \<in> set us \<and> k = user_key u))"
    if "fires (if us = [] then [] else [Choose True (lm_key s) ([] # map user_key us) LM_key]) x"
    for us :: "user list" and x
    using that by (cases us) auto
  from assms show ?thesis unfolding link_view_def reads_view by (blast dest: choice)
qed

lemma vault_fires:
  "fires (vault_view s) e \<Longrightarrow>
     (e = VC_save \<longrightarrow> vc_editing s \<and> v_addr (vc_form s) \<noteq> []) \<and> (e = VC_disable \<longrightarrow> vault_enabled s)"
  by (auto simp: vault_view_def split: if_splits)

lemma admin_fires:
  assumes "fires (admin_view self s) e"
  shows "e = AP_create \<or> (\<exists>e'. e = AP_new e' \<and> fires (new_account_view (ap_create_open s) (ap_create s)) e') \<or>
    (\<exists>us u. ap_users s = Some us \<and> u \<in> set us \<and> fires (account_row self u) e) \<or>
    (\<exists>e'. e = AP_reset e' \<and> fires (reset_view (ap_reset_target s) (ap_reset s)) e') \<or>
    (\<exists>e' r. e = AP_roles e' \<and> ap_roles s = Some r \<and> fires (roles_view (snd r)) e') \<or>
    (\<exists>e' l. e = AP_link e' \<and> ap_link s = Some l \<and> fires (link_view (cv_link (fst l)) (snd l)) e') \<or>
    (ap_delete_target s \<noteq> None \<and> (e = AP_cancel \<or> e = AP_confirm)) \<or>
    (\<exists>e'. e = AP_vault e' \<and> fires (vault_view (ap_vault s)) e')"
  using assms unfolding admin_view_def reads_view by blast

lemma admin_asks:
  "\<not> fires (admin_view self s) (AP_users us)"
  "fires (admin_view self s) (AP_ask_reset u) \<Longrightarrow> cv_source u \<noteq> Ldap_account"
  "fires (admin_view self s) (AP_ask_roles u) \<Longrightarrow> cv_source u \<noteq> Ldap_account"
  "fires (admin_view self s) (AP_ask_delete u) \<Longrightarrow> Some (cv_username u) \<noteq> self"
  "fires (admin_view self s) (AP_ask_link u) \<Longrightarrow> \<exists>us. ap_users s = Some us \<and> u \<in> set us"
proof -
  note row = admin_event.distinct admin_event.inject
  show "\<not> fires (admin_view self s) (AP_users us)"
    using admin_fires [of self s "AP_users us"] account_row_fires [of self _ "AP_users us"] by (simp only: row) blast
  show "fires (admin_view self s) (AP_ask_reset u) \<Longrightarrow> cv_source u \<noteq> Ldap_account"
    using admin_fires [of self s "AP_ask_reset u"] account_row_fires [of self _ "AP_ask_reset u"]
    by (simp only: row) blast
  show "fires (admin_view self s) (AP_ask_roles u) \<Longrightarrow> cv_source u \<noteq> Ldap_account"
    using admin_fires [of self s "AP_ask_roles u"] account_row_fires [of self _ "AP_ask_roles u"]
    by (simp only: row) blast
  show "fires (admin_view self s) (AP_ask_delete u) \<Longrightarrow> Some (cv_username u) \<noteq> self"
    using admin_fires [of self s "AP_ask_delete u"] account_row_fires [of self _ "AP_ask_delete u"]
    by (simp only: row) blast
  show "fires (admin_view self s) (AP_ask_link u) \<Longrightarrow> \<exists>us. ap_users s = Some us \<and> u \<in> set us"
    using admin_fires [of self s "AP_ask_link u"] account_row_fires [of self _ "AP_ask_link u"]
    by (simp only: row) blast
qed

lemma admin_inner:
  "fires (admin_view self s) (AP_reset a) \<Longrightarrow> fires (reset_view (ap_reset_target s) (ap_reset s)) a"
  "fires (admin_view self s) (AP_roles b) \<Longrightarrow> \<exists>r. ap_roles s = Some r \<and> fires (roles_view (snd r)) b"
  "fires (admin_view self s) (AP_link c) \<Longrightarrow>
     \<exists>l. ap_link s = Some l \<and> fires (link_view (cv_link (fst l)) (snd l)) c"
  "fires (admin_view self s) (AP_vault d) \<Longrightarrow> fires (vault_view (ap_vault s)) d"
proof -
  note row = admin_event.distinct admin_event.inject
  show "fires (admin_view self s) (AP_reset a) \<Longrightarrow> fires (reset_view (ap_reset_target s) (ap_reset s)) a"
    using admin_fires [of self s "AP_reset a"] account_row_fires [of self _ "AP_reset a"] by (simp only: row) blast
  show "fires (admin_view self s) (AP_roles b) \<Longrightarrow> \<exists>r. ap_roles s = Some r \<and> fires (roles_view (snd r)) b"
    using admin_fires [of self s "AP_roles b"] account_row_fires [of self _ "AP_roles b"] by (simp only: row) blast
  show "fires (admin_view self s) (AP_link c) \<Longrightarrow>
      \<exists>l. ap_link s = Some l \<and> fires (link_view (cv_link (fst l)) (snd l)) c"
    using admin_fires [of self s "AP_link c"] account_row_fires [of self _ "AP_link c"] by (simp only: row) blast
  show "fires (admin_view self s) (AP_vault d) \<Longrightarrow> fires (vault_view (ap_vault s)) d"
    using admin_fires [of self s "AP_vault d"] account_row_fires [of self _ "AP_vault d"] by (simp only: row) blast
qed

text \<open>What a dialog leaves of the page: its own state, and its target if it closed.\<close>

lemma run_dialog:
  "snd (run_callbacks (on_dialog close) s fs) = concat (map (\<lambda>g. case g of Send f \<Rightarrow> [f] | CloseDialog \<Rightarrow> []) fs)"
  "(\<And>t. P t \<Longrightarrow> P (close t)) \<Longrightarrow> P s \<Longrightarrow> P (fst (run_callbacks (on_dialog close) s fs))"
proof -
  show "snd (run_callbacks (on_dialog close) s fs) = concat (map (\<lambda>g. case g of Send f \<Rightarrow> [f] | CloseDialog \<Rightarrow> []) fs)"
  proof (induction fs arbitrary: s)
    case (Cons g gs)
    then show ?case by (cases g) (simp_all add: Let_def split_beta)
  qed simp
  show "(\<And>t. P t \<Longrightarrow> P (close t)) \<Longrightarrow> P s \<Longrightarrow> P (fst (run_callbacks (on_dialog close) s fs))"
  proof (induction fs arbitrary: s)
    case (Cons g gs)
    then show ?case by (cases g) (simp_all add: Let_def split_beta)
  qed simp
qed

lemma link_inv_event:
  assumes "user_key_or_none (lm_key l)" "\<forall>us. lm_users l = Some us \<longrightarrow> list_all no_slash us"
    and "fires (link_view cur l) e \<or> (\<forall>k. e \<noteq> LM_key k) \<and>
      (\<forall>us. e = LM_users (Some us) \<longrightarrow> list_all no_slash us)"
  shows "user_key_or_none (lm_key (fst (link_handle n l e))) \<and>
    (\<forall>us. lm_users (fst (link_handle n l e)) = Some us \<longrightarrow> list_all no_slash us)"
proof (cases e)
  case (LM_users us)
  with assms show ?thesis by (auto dest: link_fires)
next
  case (LM_key k)
  with assms(3) have "fires (link_view cur l) e" by blast
  from link_fires [OF this] LM_key
  have "k = [] \<or> (\<exists>us u. lm_users l = Some us \<and> u \<in> set us \<and> k = user_key u)" by blast
  with assms(2) have "user_key_or_none k"
    using user_key_key by (auto simp: list_all_iff) (simp add: user_key_or_none_def)
  with assms LM_key show ?thesis by simp
qed (use assms in auto)

lemma admin_inv_dialog:
  assumes "admin_inv self s"
  shows "admin_inv self (fst (admin_handle s (AP_new a)))"
    and "admin_inv self (fst (admin_handle s (AP_reset b)))"
    and "admin_inv self (fst (admin_handle s (AP_roles c)))"
proof -
  show "admin_inv self (fst (admin_handle s (AP_new a)))"
    unfolding admin_handle.simps Let_def split_beta
    by (rule run_dialog(2)) (use assms in \<open>simp_all add: admin_inv_def\<close>)
  show "admin_inv self (fst (admin_handle s (AP_reset b)))"
    unfolding admin_handle.simps Let_def split_beta
    by (rule run_dialog(2)) (use assms in \<open>simp_all add: admin_inv_def\<close>)
  show "admin_inv self (fst (admin_handle s (AP_roles c)))"
  proof (cases "ap_roles s")
    case (Some x)
    obtain u r where x: "x = (u, r)" by fastforce
    show ?thesis
      unfolding admin_handle.simps Let_def split_beta Some x option.case fst_conv snd_conv
      by (rule run_dialog(2)) (use assms Some x in \<open>simp_all add: admin_inv_def\<close>)
  qed (use assms in simp)
qed

lemma admin_inv_link:
  assumes inv: "admin_inv self s" and e: "fires (admin_view self s) (AP_link c) \<or> admin_env s (AP_link c)"
  shows "admin_inv self (fst (admin_handle s (AP_link c)))"
proof (cases "ap_link s")
  case (Some x)
  obtain u l where x: "x = (u, l)" by fastforce
  have env: "(\<forall>k. c \<noteq> LM_key k) \<and> (\<forall>us. c = LM_users (Some us) \<longrightarrow> list_all no_slash us)"
    if "admin_env s (AP_link c)" using that by (cases c) auto
  have "fires (link_view (cv_link u) l) c" if "fires (admin_view self s) (AP_link c)"
    using admin_inner(3) [OF that] Some x by simp
  with e env have c: "fires (link_view (cv_link u) l) c \<or> (\<forall>k. c \<noteq> LM_key k) \<and>
      (\<forall>us. c = LM_users (Some us) \<longrightarrow> list_all no_slash us)" by blast
  from inv Some x have l: "user_key_or_none (lm_key l)" "\<forall>us. lm_users l = Some us \<longrightarrow> list_all no_slash us"
    by (simp_all add: admin_inv_def)
  show ?thesis
    unfolding admin_handle.simps Let_def split_beta Some x option.case fst_conv snd_conv
    by (rule run_dialog(2))
      (use inv link_inv_event [OF l c, of "cv_username u"] in \<open>simp_all add: admin_inv_def\<close>)
qed (use inv in simp)

lemma admin_inv_event:
  assumes inv: "admin_inv self s" and e: "fires (admin_view self s) e \<or> admin_env s e"
  shows "admin_inv self (fst (admin_handle s e))"
proof (cases e)
  case (AP_users us)
  with e admin_asks(1) have "admin_env s (AP_users us)" by blast
  with inv show ?thesis unfolding AP_users by (simp add: admin_inv_def split: option.splits)
next
  case (AP_ask_reset u)
  with e admin_asks(2) have "cv_source u \<noteq> Ldap_account" by fastforce
  with inv show ?thesis unfolding AP_ask_reset by (simp add: admin_inv_def)
next
  case (AP_ask_roles u)
  with e admin_asks(3) have "cv_source u \<noteq> Ldap_account" by fastforce
  with inv show ?thesis unfolding AP_ask_roles by (simp add: admin_inv_def)
next
  case (AP_ask_delete u)
  with e admin_asks(4) have "Some (cv_username u) \<noteq> self" by fastforce
  with inv show ?thesis unfolding AP_ask_delete by (simp add: admin_inv_def)
next
  case (AP_ask_link u)
  with e admin_asks(5) have "\<exists>us. ap_users s = Some us \<and> u \<in> set us" by fastforce
  with inv have "link_no_slash u" by (auto simp: admin_inv_def list_all_iff)
  with inv link_key [of u] show ?thesis unfolding AP_ask_link by (simp add: admin_inv_def link_modal_init_def)
next
  case (AP_link c)
  with inv e show ?thesis by (simp only: admin_inv_link)
next
  case AP_confirm
  with inv show ?thesis by (cases "ap_delete_target s") (simp_all add: admin_inv_def)
qed (use inv admin_inv_dialog [OF inv] in \<open>simp_all add: admin_inv_def\<close>)

lemma dialog_sends:
  "f \<in> set (concat (map (\<lambda>g. case g of Send f \<Rightarrow> [f] | CloseDialog \<Rightarrow> []) fs)) \<longleftrightarrow> Send f \<in> set fs"
proof (induction fs)
  case (Cons g gs)
  then show ?case by (cases g) auto
qed simp

lemma new_account_sends:
  "Send f \<in> set (snd (new_account_handle m a)) \<Longrightarrow> admin_ok self s f"
  by (cases a) (auto simp: submit_account_def valid_account_name_def split: if_splits)

lemma reset_sends:
  assumes "Send f \<in> set (snd (reset_handle (ap_reset_target s) (ap_reset s) a))"
    and "a = RP_submit \<Longrightarrow> rp_password (ap_reset s) \<noteq> []" and "admin_inv self s"
  shows "admin_ok self s f"
  using assms by (cases a) (auto simp: admin_inv_def split: if_splits option.splits)

lemma roles_sends:
  assumes "Send f \<in> set (snd (roles_handle (cv_username u) r a))"
    and "ap_roles s = Some (u, r)" and "fires (roles_view r) a \<or> (\<forall>c. a \<noteq> RM_delete c)" and "admin_inv self s"
  shows "admin_ok self s f"
proof (cases a)
  case RM_save
  with assms(1,2,4) show ?thesis by (auto simp: admin_inv_def split: if_splits)
next
  case (RM_delete c)
  with assms(3) have "c \<in> set (assigned_scopes r)" by (auto dest: roles_fires)
  with RM_delete assms(1,2,4) show ?thesis by (auto simp: admin_inv_def)
qed (use assms(1) in auto)

lemma link_sends:
  assumes "Send f \<in> set (snd (link_handle (cv_username u) l a))"
    and "ap_link s = Some (u, l)" and "fires (link_view (cv_link u) l) a \<or> a \<noteq> LM_clear" and "admin_inv self s"
  shows "admin_ok self s f"
proof (cases a)
  case LM_save
  with assms(1) have k: "lm_key l \<noteq> []"
    and f: "f = LinkSend (UseSetLink (Some (cv_username u)) (snd (key_parts (lm_key l))) (fst (key_parts (lm_key l))))"
    by (auto split: if_splits)
  from assms(2,4) have "user_key_or_none (lm_key l)" by (simp add: admin_inv_def)
  with k obtain ns n where "lm_key l = ns @ ''/'' @ n" "CHR ''/'' \<notin> set ns" "CHR ''/'' \<notin> set n"
    by (auto simp: user_key_or_none_def)
  then show ?thesis unfolding f using assms(2) key_parts_join [of ns n] by simp
next
  case LM_clear
  with assms(3) link_fires have "cv_link u \<noteq> None" by blast
  with LM_clear assms(1,2) show ?thesis by simp
qed (use assms(1) in \<open>auto split: if_splits\<close>)

lemma vault_sends:
  assumes "f \<in> set (snd (vault_handle (ap_vault s) a))"
    and "fires (vault_view (ap_vault s)) a \<or> (a \<noteq> VC_save \<and> a \<noteq> VC_disable)"
  shows "admin_ok self s f"
proof (cases a)
  case VC_save
  with assms(2) vault_fires [of "ap_vault s" a] have "vc_editing (ap_vault s) \<and> v_addr (vc_form (ap_vault s)) \<noteq> []"
    by blast
  with VC_save assms(1) show ?thesis by simp
next
  case VC_disable
  with assms(2) vault_fires [of "ap_vault s" a] have "vault_enabled (ap_vault s)" by blast
  with VC_disable assms(1) show ?thesis by simp
next
  case (VC_configured r)
  with assms(1) show ?thesis by (cases r) simp_all
qed (use assms(1) in \<open>auto split: if_splits\<close>)

lemma admin_ok_event:
  assumes inv: "admin_inv self s" and e: "fires (admin_view self s) e \<or> admin_env s e"
    and f: "f \<in> set (snd (admin_handle s e))"
  shows "admin_ok self s f"
proof (cases e)
  case (AP_new a)
  with f have "Send f \<in> set (snd (new_account_handle (ap_create s) a))"
    by (simp add: split_beta Let_def run_dialog(1) dialog_sends del: set_concat)
  then show ?thesis by (rule new_account_sends)
next
  case (AP_reset a)
  with f have sent: "Send f \<in> set (snd (reset_handle (ap_reset_target s) (ap_reset s) a))"
    by (simp add: split_beta Let_def run_dialog(1) dialog_sends del: set_concat)
  have "rp_password (ap_reset s) \<noteq> []" if "a = RP_submit"
    using e admin_inner(1) [of self s a] reset_fires [of _ _ a] that AP_reset by auto
  from reset_sends [OF sent this inv] show ?thesis .
next
  case (AP_roles a)
  with f obtain u r where ur: "ap_roles s = Some (u, r)" by (auto split: option.splits)
  with AP_roles f have sent: "Send f \<in> set (snd (roles_handle (cv_username u) r a))"
    by (simp add: split_beta Let_def run_dialog(1) dialog_sends del: set_concat)
  have "fires (roles_view r) a \<or> (\<forall>c. a \<noteq> RM_delete c)"
    using e admin_inner(2) [of self s a] ur AP_roles by (cases a) auto
  from roles_sends [OF sent ur this inv] show ?thesis .
next
  case (AP_link a)
  with f obtain u l where ul: "ap_link s = Some (u, l)" by (auto split: option.splits)
  with AP_link f have sent: "Send f \<in> set (snd (link_handle (cv_username u) l a))"
    by (simp add: split_beta Let_def run_dialog(1) dialog_sends del: set_concat)
  have "fires (link_view (cv_link u) l) a \<or> a \<noteq> LM_clear"
    using e admin_inner(3) [of self s a] ul AP_link by (cases a) auto
  from link_sends [OF sent ul this inv] show ?thesis .
next
  case (AP_vault a)
  with f have sent: "f \<in> set (snd (vault_handle (ap_vault s) a))" by simp
  have "fires (vault_view (ap_vault s)) a \<or> (a \<noteq> VC_save \<and> a \<noteq> VC_disable)"
    using e admin_inner(4) [of self s a] AP_vault by (cases a) auto
  from vault_sends [OF sent this] show ?thesis .
next
  case AP_confirm
  with f inv show ?thesis by (cases "ap_delete_target s") (auto simp: admin_inv_def)
qed (use f in \<open>auto split: if_splits\<close>)

interpretation admin_page: ui_contract "admin_view self" admin_env admin_handle "admin_inv self" "admin_ok self"
  for self
  by unfold_locales (auto intro: admin_inv_event admin_ok_event)

section \<open>Properties\<close>

text \<open>C26. What the settings page sends: in any run, an account is deleted only from the dialog that names
  it and is never the signed-in one; a password is set only for a local account, to the non-empty
  text of the dialog; accounts are created with a valid name and a password; roles are saved for
  local accounts, on the scope the form shows, which is not empty; an identity is linked with the
  name and the namespace that make up the selected key; and Vault is configured with the form, with
  an address.\<close>

theorem admin_page_acts:
  assumes "ui_run (admin_view self) admin_env admin_handle admin_page_init log s"
    and "(s', f) \<in> set log"
  shows "admin_ok self s' f"
proof -
  have "admin_inv self admin_page_init" by (simp add: admin_inv_def admin_page_init_def)
  from admin_page.run_ok [OF assms(1) this assms(2)] show ?thesis .
qed

definition local_account :: "string \<Rightarrow> cv_user" where
  "local_account n = \<lparr>cv_username = n, cv_roles = [], cv_source = Local_account, cv_last_login = None,
     cv_link = None\<rparr>"

definition reset_run :: "admin_event list" where
  "reset_run = [AP_users (Some [local_account ''ann'', local_account ''bob'']),
     AP_ask_reset (local_account ''ann''), AP_reset (RP_password ''for-ann''), AP_reset RP_close,
     AP_ask_reset (local_account ''bob''), AP_reset RP_submit]"

lemma reset_run_playable:
  "playable (admin_view self) admin_env admin_handle admin_page_init reset_run"
  by (simp add: reset_run_def admin_page_init_def admin_view_def account_row_def local_account_def
      fires_embed reset_view_def reset_form_init_def link_no_slash_def)

lemma reset_run_log:
  "AdminSend (AD_resetPassword ''bob'' ''for-ann'') \<in> snd ` set (play_log admin_handle admin_page_init reset_run)"
  by (simp add: reset_run_def admin_page_init_def local_account_def reset_form_init_def)

theorem admin_page_acts_witness:
  "\<exists>s'. (s', AdminSend (AD_resetPassword ''bob'' ''for-ann'')) \<in>
     set (play_log admin_handle admin_page_init reset_run) \<and> rp_password (ap_reset s') = ''for-ann''"
proof -
  from log_effect [OF reset_run_log] obtain s' where
    s': "(s', AdminSend (AD_resetPassword ''bob'' ''for-ann'')) \<in>
      set (play_log admin_handle admin_page_init reset_run)" ..
  from admin_page_acts [OF ui_run_play [OF reset_run_playable [of None]] s'] s' show ?thesis by auto
qed

text \<open>A password typed for one account and cancelled stays in the dialog: when it opens for another
  local account, the button of the dialog is enabled, and one click sets that password there.\<close>

theorem password_kept_for_next:
  assumes "ap_reset_target s = Some a" "rp_password (ap_reset s) \<noteq> []" "\<not> rp_pending (ap_reset s)"
    and "ap_users s = Some us" "b \<in> set us" "cv_source b = Local_account"
    and "es = [AP_reset RP_close, AP_ask_reset b, AP_reset RP_submit]"
  shows "playable (admin_view self) admin_env admin_handle s es \<and>
    map snd (play_log admin_handle s es) = [AdminSend (AD_resetPassword (cv_username b) (rp_password (ap_reset s)))]"
proof -
  have "\<exists>x\<in>set us. fires (account_row self x) (AP_ask_reset b)"
    using assms(5,6) by (intro bexI [of _ b]) (simp_all add: account_row_def)
  then have "fires (concat (map (account_row self) us)) (AP_ask_reset b)" by (simp add: fires_concat_map)
  with assms show ?thesis by (simp add: admin_view_def fires_embed reset_view_def)
qed

theorem password_kept_for_next_witness:
  "AdminSend (AD_resetPassword ''bob'' ''for-ann'') \<in> snd ` set (play_log admin_handle
     (play admin_handle admin_page_init (take 3 reset_run)) (drop 3 reset_run))"
proof -
  let ?s = "play admin_handle admin_page_init (take 3 reset_run)"
  have s: "ap_reset_target ?s = Some (local_account ''ann'')" "rp_password (ap_reset ?s) \<noteq> []"
    "\<not> rp_pending (ap_reset ?s)" "ap_users ?s = Some [local_account ''ann'', local_account ''bob'']"
    "rp_password (ap_reset ?s) = ''for-ann''"
    by (simp_all add: reset_run_def admin_page_init_def reset_form_init_def)
  have es: "drop 3 reset_run = [AP_reset RP_close, AP_ask_reset (local_account ''bob''), AP_reset RP_submit]"
    by (simp add: reset_run_def)
  from password_kept_for_next [OF s(1-4) _ _ es, of None] s(5)
  have "map snd (play_log admin_handle ?s (drop 3 reset_run)) = [AdminSend (AD_resetPassword ''bob'' ''for-ann'')]"
    by (simp add: local_account_def)
  then show ?thesis by (metis list.set_intros(1) list.set_map)
qed

end
