(* ===== verification/Clusters.thy ===== *)
theory Clusters
  imports Gate Hooks
begin

text \<open>
  \<^verbatim>\<open>pages/ClustersPage.tsx\<close> with \<^verbatim>\<open>components/clusters/AddClusterModal.tsx\<close>, and \<^verbatim>\<open>pages/TokensPage.tsx\<close>.
  The lists the queries return are part of the state and may change at any time; the rights of the
  signed-in user and the active cluster are parameters. The modal has no state before it is mounted.
\<close>

section \<open>components/clusters/AddClusterModal.tsx\<close>

datatype add_tab = ManualTab | CommandTab

text \<open>\<open>ac_flight\<close>: the names whose script was asked for and has not been answered.\<close>

record add_cluster =
  ac_tab :: add_tab
  ac_form :: add_cluster_payload
  ac_adding :: bool
  ac_cmd_name :: string
  ac_script :: "string option"
  ac_loading :: bool
  ac_flight :: "string list"
  ac_copied :: bool

definition add_cluster_init :: add_cluster where
  "add_cluster_init = \<lparr>ac_tab = CommandTab,
     ac_form = \<lparr>ac_name = [], ac_api_url = [], ac_ca_data = [], ac_token = []\<rparr>, ac_adding = False,
     ac_cmd_name = [], ac_script = None, ac_loading = False, ac_flight = [], ac_copied = False\<rparr>"

datatype add_event =
  AC_tab add_tab | AC_name string | AC_api_url string | AC_ca_data string | AC_token string
| AC_submit | AC_added bool | AC_cmd_name string | AC_generate | AC_script nat "string option"
| AC_copy | AC_copied_over | AC_close

datatype add_effect =
  AddSend cluster_hook | FetchScript cluster_call | CopyScript string | CloseAdd

definition complete_form :: "add_cluster_payload \<Rightarrow> bool" where
  "complete_form p \<longleftrightarrow> ac_name p \<noteq> [] \<and> ac_api_url p \<noteq> [] \<and> ac_ca_data p \<noteq> [] \<and> ac_token p \<noteq> []"

definition handleGenerateScript :: "add_cluster \<Rightarrow> add_cluster \<times> add_effect list" where
  "handleGenerateScript s =
     (if js_trim (ac_cmd_name s) = [] then (s, [])
      else (s\<lparr>ac_loading := True, ac_flight := ac_flight s @ [js_trim (ac_cmd_name s)]\<rparr>,
        [FetchScript (CL_bootstrapScript (js_trim (ac_cmd_name s)))]))"

text \<open>\<open>AC_script i r\<close>: the answer to the \<open>i\<close>-th pending request; \<open>finally\<close> ends the loading state.\<close>

fun add_handle :: "add_cluster \<Rightarrow> add_event \<Rightarrow> add_cluster \<times> add_effect list" where
  "add_handle s (AC_tab t) = (s\<lparr>ac_tab := t\<rparr>, [])"
| "add_handle s (AC_name v) = (s\<lparr>ac_form := (ac_form s)\<lparr>ac_name := v\<rparr>\<rparr>, [])"
| "add_handle s (AC_api_url v) = (s\<lparr>ac_form := (ac_form s)\<lparr>ac_api_url := v\<rparr>\<rparr>, [])"
| "add_handle s (AC_ca_data v) = (s\<lparr>ac_form := (ac_form s)\<lparr>ac_ca_data := v\<rparr>\<rparr>, [])"
| "add_handle s (AC_token v) = (s\<lparr>ac_form := (ac_form s)\<lparr>ac_token := v\<rparr>\<rparr>, [])"
| "add_handle s AC_submit =
     (if complete_form (ac_form s) then (s\<lparr>ac_adding := True\<rparr>, [AddSend (UseAddCluster (ac_form s))]) else (s, []))"
| "add_handle s (AC_added ok) = (s\<lparr>ac_adding := False\<rparr>, if ok then [CloseAdd] else [])"
| "add_handle s (AC_cmd_name v) = (s\<lparr>ac_cmd_name := v\<rparr>, [])"
| "add_handle s AC_generate = handleGenerateScript s"
| "add_handle s (AC_script i r) =
     (s\<lparr>ac_flight := take i (ac_flight s) @ drop (Suc i) (ac_flight s), ac_loading := False,
        ac_script := (case r of Some text \<Rightarrow> Some text | None \<Rightarrow> ac_script s)\<rparr>, [])"
| "add_handle s AC_copy =
     (case ac_script s of
        Some text \<Rightarrow> if truthy text then (s\<lparr>ac_copied := True\<rparr>, [CopyScript text]) else (s, [])
      | None \<Rightarrow> (s, []))"
| "add_handle s AC_copied_over = (s\<lparr>ac_copied := False\<rparr>, [])"
| "add_handle s AC_close = (s, [CloseAdd])"

text \<open>The Enter key in the name field generates too, whatever the button's state.\<close>

definition add_view :: "add_cluster \<Rightarrow> add_event control list" where
  "add_view s = modal True AC_close
     ([Press True (AC_tab CommandTab), Press True (AC_tab ManualTab)] @
      (if ac_tab s = CommandTab then
         [Input True (ac_cmd_name s) AC_cmd_name, Press True AC_generate,
          button (ac_loading s) (js_trim (ac_cmd_name s) = []) AC_generate] @
         (case ac_script s of None \<Rightarrow> [] | Some text \<Rightarrow> if truthy text then [Press True AC_copy] else []) @
         [Press True AC_close]
       else
         [Input True (ac_name (ac_form s)) AC_name, Input True (ac_api_url (ac_form s)) AC_api_url,
          Input True (ac_ca_data (ac_form s)) AC_ca_data, Input True (ac_token (ac_form s)) AC_token,
          Press True AC_close, button (ac_adding s) (\<not> complete_form (ac_form s)) AC_submit]))"

fun add_env :: "add_cluster \<Rightarrow> add_event \<Rightarrow> bool" where
  "add_env s (AC_added ok) = ac_adding s"
| "add_env s (AC_script i r) = (i < length (ac_flight s))"
| "add_env s AC_copied_over = ac_copied s"
| "add_env s _ = False"

section \<open>pages/ClustersPage.tsx\<close>

record cluster_entry =
  ce_name :: string
  ce_api_url :: string
  ce_is_local :: bool

record clusters_page =
  cl_clusters :: "cluster_entry list option"
  cl_add :: "add_cluster option"
  cl_orphans :: nat
  cl_remove_target :: "string option"
  cl_removing :: bool

text \<open>\<open>cl_orphans\<close>: the registrations that were pending when their modal was closed. Their answer still
  calls \<open>onClose\<close>, of whatever modal is open by then.\<close>

definition clusters_page_init :: clusters_page where
  "clusters_page_init = \<lparr>cl_clusters = None, cl_add = None, cl_orphans = 0, cl_remove_target = None, cl_removing = False\<rparr>"

datatype clusters_event =
  CP_clusters "cluster_entry list option" | CP_add | CP_modal add_event | CP_activate string
| CP_ask string | CP_cancel | CP_confirm | CP_removed bool | CP_added_late bool

datatype clusters_effect = FromModal add_effect | ClusterSend cluster_hook | ActivateCluster string

fun clusters_handle :: "clusters_page \<Rightarrow> clusters_event \<Rightarrow> clusters_page \<times> clusters_effect list" where
  "clusters_handle s (CP_clusters cs) = (s\<lparr>cl_clusters := cs\<rparr>, [])"
| "clusters_handle s CP_add = (s\<lparr>cl_add := Some add_cluster_init\<rparr>, [])"
| "clusters_handle s (CP_modal e) =
     (case cl_add s of
        None \<Rightarrow> (s, [])
      | Some m \<Rightarrow>
          (if CloseAdd \<in> set (snd (add_handle m e))
           then s\<lparr>cl_add := None, cl_orphans := cl_orphans s + (if ac_adding (fst (add_handle m e)) then 1 else 0)\<rparr>
           else s\<lparr>cl_add := Some (fst (add_handle m e))\<rparr>,
           map FromModal (filter (\<lambda>f. f \<noteq> CloseAdd) (snd (add_handle m e)))))"
| "clusters_handle s (CP_activate n) = (s, [ActivateCluster n])"
| "clusters_handle s (CP_ask n) = (s\<lparr>cl_remove_target := Some n\<rparr>, [])"
| "clusters_handle s CP_cancel = (s\<lparr>cl_remove_target := None\<rparr>, [])"
| "clusters_handle s CP_confirm =
     (case cl_remove_target s of
        Some n \<Rightarrow> (s\<lparr>cl_removing := True\<rparr>, [ClusterSend (UseRemoveCluster n)])
      | None \<Rightarrow> (s, []))"
| "clusters_handle s (CP_removed ok) =
     (s\<lparr>cl_removing := False, cl_remove_target := (if ok then None else cl_remove_target s)\<rparr>, [])"
| "clusters_handle s (CP_added_late ok) =
     (s\<lparr>cl_orphans := cl_orphans s - 1, cl_add := (if ok then None else cl_add s)\<rparr>, [])"

definition cluster_row :: "bool \<Rightarrow> cluster_entry \<Rightarrow> clusters_event control list" where
  "cluster_row admin c =
     [Press True (CP_activate (ce_name c))] @
     (if \<not> ce_is_local c \<and> admin then [Press True (CP_ask (ce_name c))] else [])"

definition clusters_view :: "bool \<Rightarrow> clusters_page \<Rightarrow> clusters_event control list" where
  "clusters_view admin s =
     (if admin then [Press True CP_add] else []) @
     (case cl_clusters s of None \<Rightarrow> [] | Some cs \<Rightarrow> concat (map (cluster_row admin) cs)) @
     (case cl_add s of None \<Rightarrow> [] | Some m \<Rightarrow> embed CP_modal (add_view m)) @
     confirm_dialog (cl_remove_target s \<noteq> None) (cl_removing s) CP_cancel CP_confirm"

text \<open>The registry lists one local cluster, under the name the frontend falls back to.\<close>

fun clusters_env :: "clusters_page \<Rightarrow> clusters_event \<Rightarrow> bool" where
  "clusters_env s (CP_clusters cs) =
     (case cs of Some l \<Rightarrow> list_all (\<lambda>c. ce_is_local c \<longleftrightarrow> ce_name c = ''local'') l | None \<Rightarrow> True)"
| "clusters_env s (CP_modal e) = (case cl_add s of Some m \<Rightarrow> add_env m e | None \<Rightarrow> False)"
| "clusters_env s (CP_removed ok) = cl_removing s"
| "clusters_env s (CP_added_late ok) = (cl_orphans s > 0)"
| "clusters_env s _ = False"

section \<open>pages/TokensPage.tsx\<close>

record history_entry =
  he_id :: string
  he_user :: string
  he_user_type :: string
  he_namespace :: string
  he_generated_at :: string

record sa_token =
  st_secret_name :: string
  st_sa_name :: string
  st_namespace :: string
  st_created_at :: "string option"
  st_token_present :: bool

datatype token_tab = HistoryTab | SaTokensTab

text \<open>The four operations the page confirms, and the call each of them makes.\<close>

datatype token_action =
  ClearAll | DeleteEntry string | RevokeToken string string | RotateToken string string string

fun token_call :: "token_action \<Rightarrow> tokens_hook" where
  "token_call ClearAll = UseClearHistory"
| "token_call (DeleteEntry i) = UseDeleteHistoryEntry i"
| "token_call (RevokeToken n ns) = UseRevokeSaToken n ns"
| "token_call (RotateToken n sa ns) = UseRotateSaToken n sa ns"

record tokens_page =
  tp_tab :: token_tab
  tp_history :: "history_entry list option"
  tp_sa_tokens :: "sa_token list option"
  tp_clear :: bool
  tp_delete :: "history_entry option"
  tp_revoke :: "sa_token option"
  tp_rotate :: "sa_token option"
  tp_clearing :: bool
  tp_deleting :: bool
  tp_revoking :: bool
  tp_rotating :: bool

definition tokens_page_init :: tokens_page where
  "tokens_page_init = \<lparr>tp_tab = HistoryTab, tp_history = None, tp_sa_tokens = None, tp_clear = False,
     tp_delete = None, tp_revoke = None, tp_rotate = None, tp_clearing = False, tp_deleting = False,
     tp_revoking = False, tp_rotating = False\<rparr>"

datatype tokens_event =
  TP_tab token_tab | TP_history "history_entry list option" | TP_sa_tokens "sa_token list option" | TP_refresh
| TP_ask_clear | TP_ask_delete history_entry | TP_ask_revoke sa_token | TP_ask_rotate sa_token
| TP_cancel_clear | TP_cancel_delete | TP_cancel_revoke | TP_cancel_rotate
| TP_clear | TP_delete | TP_revoke | TP_rotate
| TP_cleared bool | TP_deleted bool | TP_revoked bool | TP_rotated bool

datatype tokens_effect = TokenSend tokens_hook | RefreshTokens query_key

fun tokens_handle :: "tokens_page \<Rightarrow> tokens_event \<Rightarrow> tokens_page \<times> tokens_effect list" where
  "tokens_handle s (TP_tab t) = (s\<lparr>tp_tab := t\<rparr>, [])"
| "tokens_handle s (TP_history h) = (s\<lparr>tp_history := h\<rparr>, [])"
| "tokens_handle s (TP_sa_tokens ts) = (s\<lparr>tp_sa_tokens := ts\<rparr>, [])"
| "tokens_handle s TP_refresh =
     (s, [RefreshTokens [JStr ''token-history''], RefreshTokens [JStr ''sa-tokens'']])"
| "tokens_handle s TP_ask_clear = (s\<lparr>tp_clear := True\<rparr>, [])"
| "tokens_handle s (TP_ask_delete e) = (s\<lparr>tp_delete := Some e\<rparr>, [])"
| "tokens_handle s (TP_ask_revoke t) = (s\<lparr>tp_revoke := Some t\<rparr>, [])"
| "tokens_handle s (TP_ask_rotate t) = (s\<lparr>tp_rotate := Some t\<rparr>, [])"
| "tokens_handle s TP_cancel_clear = (s\<lparr>tp_clear := False\<rparr>, [])"
| "tokens_handle s TP_cancel_delete = (s\<lparr>tp_delete := None\<rparr>, [])"
| "tokens_handle s TP_cancel_revoke = (s\<lparr>tp_revoke := None\<rparr>, [])"
| "tokens_handle s TP_cancel_rotate = (s\<lparr>tp_rotate := None\<rparr>, [])"
| "tokens_handle s TP_clear = (s\<lparr>tp_clearing := True\<rparr>, [TokenSend UseClearHistory])"
| "tokens_handle s TP_delete =
     (case tp_delete s of
        Some e \<Rightarrow> (s\<lparr>tp_deleting := True\<rparr>, [TokenSend (UseDeleteHistoryEntry (he_id e))])
      | None \<Rightarrow> (s, []))"
| "tokens_handle s TP_revoke =
     (case tp_revoke s of
        Some t \<Rightarrow> (s\<lparr>tp_revoking := True\<rparr>, [TokenSend (UseRevokeSaToken (st_secret_name t) (st_namespace t))])
      | None \<Rightarrow> (s, []))"
| "tokens_handle s TP_rotate =
     (case tp_rotate s of
        Some t \<Rightarrow> (s\<lparr>tp_rotating := True\<rparr>,
          [TokenSend (UseRotateSaToken (st_secret_name t) (st_sa_name t) (st_namespace t))])
      | None \<Rightarrow> (s, []))"
| "tokens_handle s (TP_cleared ok) = (s\<lparr>tp_clearing := False, tp_clear := (tp_clear s \<and> \<not> ok)\<rparr>, [])"
| "tokens_handle s (TP_deleted ok) =
     (s\<lparr>tp_deleting := False, tp_delete := (if ok then None else tp_delete s)\<rparr>, [])"
| "tokens_handle s (TP_revoked ok) =
     (s\<lparr>tp_revoking := False, tp_revoke := (if ok then None else tp_revoke s)\<rparr>, [])"
| "tokens_handle s (TP_rotated ok) =
     (s\<lparr>tp_rotating := False, tp_rotate := (if ok then None else tp_rotate s)\<rparr>, [])"

definition history_view :: "bool \<Rightarrow> history_entry list option \<Rightarrow> tokens_event control list" where
  "history_view canWrite history =
     (if canWrite then [Press (history \<noteq> None \<and> history \<noteq> Some []) TP_ask_clear] else []) @
     (case history of
        None \<Rightarrow> []
      | Some es \<Rightarrow> if canWrite then map (\<lambda>e. Press True (TP_ask_delete e)) es else [])"

definition sa_tokens_view :: "bool \<Rightarrow> sa_token list option \<Rightarrow> tokens_event control list" where
  "sa_tokens_view canWrite tokens =
     (case tokens of
        None \<Rightarrow> []
      | Some ts \<Rightarrow>
          if canWrite then concat (map (\<lambda>t. [Press True (TP_ask_rotate t), Press True (TP_ask_revoke t)]) ts)
          else [])"

definition token_dialogs :: "tokens_page \<Rightarrow> tokens_event control list" where
  "token_dialogs s =
     confirm_dialog (tp_clear s) (tp_clearing s) TP_cancel_clear TP_clear @
     confirm_dialog (tp_delete s \<noteq> None) (tp_deleting s) TP_cancel_delete TP_delete @
     confirm_dialog (tp_revoke s \<noteq> None) (tp_revoking s) TP_cancel_revoke TP_revoke @
     confirm_dialog (tp_rotate s \<noteq> None) (tp_rotating s) TP_cancel_rotate TP_rotate"

definition tokens_view :: "bool \<Rightarrow> tokens_page \<Rightarrow> tokens_event control list" where
  "tokens_view canWrite s =
     [Press True TP_refresh, Press True (TP_tab HistoryTab), Press True (TP_tab SaTokensTab)] @
     (if tp_tab s = HistoryTab then history_view canWrite (tp_history s) else []) @
     (if tp_tab s = SaTokensTab then sa_tokens_view canWrite (tp_sa_tokens s) else []) @
     token_dialogs s"

fun tokens_env :: "tokens_page \<Rightarrow> tokens_event \<Rightarrow> bool" where
  "tokens_env s (TP_history h) = True"
| "tokens_env s (TP_sa_tokens ts) = True"
| "tokens_env s (TP_cleared ok) = tp_clearing s"
| "tokens_env s (TP_deleted ok) = tp_deleting s"
| "tokens_env s (TP_revoked ok) = tp_revoking s"
| "tokens_env s (TP_rotated ok) = tp_rotating s"
| "tokens_env s _ = False"

section \<open>The contracts\<close>

definition clusters_inv :: "bool \<Rightarrow> clusters_page \<Rightarrow> bool" where
  "clusters_inv admin s \<longleftrightarrow>
     (\<forall>cs. cl_clusters s = Some cs \<longrightarrow> list_all (\<lambda>c. ce_is_local c \<longleftrightarrow> ce_name c = ''local'') cs) \<and>
     (cl_add s \<noteq> None \<longrightarrow> admin) \<and>
     (\<forall>n. cl_remove_target s = Some n \<longrightarrow> admin \<and> n \<noteq> ''local'')"

fun clusters_ok :: "bool \<Rightarrow> clusters_page \<Rightarrow> clusters_effect \<Rightarrow> bool" where
  "clusters_ok admin s (ClusterSend h) =
     (\<exists>n. h = UseRemoveCluster n \<and> admin \<and> n \<noteq> ''local'' \<and> cl_remove_target s = Some n)"
| "clusters_ok admin s (ActivateCluster n) =
     (\<exists>cs c. cl_clusters s = Some cs \<and> c \<in> set cs \<and> n = ce_name c)"
| "clusters_ok admin s (FromModal f) =
     (admin \<and> (\<exists>m. cl_add s = Some m \<and>
        (case f of
           AddSend h \<Rightarrow> h = UseAddCluster (ac_form m) \<and> complete_form (ac_form m)
         | FetchScript c \<Rightarrow> c = CL_bootstrapScript (js_trim (ac_cmd_name m)) \<and> js_trim (ac_cmd_name m) \<noteq> []
         | CopyScript text \<Rightarrow> ac_script m = Some text
         | CloseAdd \<Rightarrow> False)))"

lemma cluster_row_fires:
  "fires (cluster_row admin c) e \<Longrightarrow>
     e = CP_activate (ce_name c) \<or> (\<not> ce_is_local c \<and> admin \<and> e = CP_ask (ce_name c))"
  unfolding cluster_row_def reads_view by blast

lemma clusters_fires:
  assumes "fires (clusters_view admin s) e"
  shows "(admin \<and> e = CP_add) \<or>
    (\<exists>cs c. cl_clusters s = Some cs \<and> c \<in> set cs \<and> fires (cluster_row admin c) e) \<or>
    (\<exists>e' m. e = CP_modal e' \<and> cl_add s = Some m) \<or>
    (cl_remove_target s \<noteq> None \<and> (e = CP_cancel \<or> e = CP_confirm))"
  using assms unfolding clusters_view_def reads_view by blast

lemma add_ok:
  assumes "f \<in> set (snd (add_handle m e))" and "f \<noteq> CloseAdd"
  shows "case f of AddSend h \<Rightarrow> h = UseAddCluster (ac_form m) \<and> complete_form (ac_form m)
    | FetchScript c \<Rightarrow> c = CL_bootstrapScript (js_trim (ac_cmd_name m)) \<and> js_trim (ac_cmd_name m) \<noteq> []
    | CopyScript text \<Rightarrow> ac_script m = Some text | CloseAdd \<Rightarrow> False"
  using assms by (cases e) (auto simp: handleGenerateScript_def split: if_splits option.splits)

lemma clusters_inv_event:
  assumes "clusters_inv admin s" and e: "fires (clusters_view admin s) e \<or> clusters_env s e"
  shows "clusters_inv admin (fst (clusters_handle s e))"
proof (cases e)
  case (CP_clusters cs)
  have "\<not> fires (clusters_view admin s) e" using CP_clusters by (auto dest: clusters_fires cluster_row_fires)
  with assms CP_clusters show ?thesis by (simp add: clusters_inv_def split: option.splits)
next
  case CP_add
  with assms show ?thesis by (auto simp: clusters_inv_def dest: clusters_fires cluster_row_fires)
next
  case (CP_ask n)
  with e obtain cs c where "cl_clusters s = Some cs" "c \<in> set cs" "\<not> ce_is_local c" "admin" "n = ce_name c"
    by (auto dest!: clusters_fires cluster_row_fires)
  with assms(1) CP_ask show ?thesis by (auto simp: clusters_inv_def list_all_iff)
qed (use assms(1) in \<open>auto simp: clusters_inv_def split: option.splits\<close>)

lemma clusters_ok_event:
  assumes "clusters_inv admin s" and e: "fires (clusters_view admin s) e \<or> clusters_env s e"
    and f: "f \<in> set (snd (clusters_handle s e))"
  shows "clusters_ok admin s f"
proof (cases e)
  case (CP_modal a)
  with f obtain m g where m: "cl_add s = Some m" and g: "g \<in> set (snd (add_handle m a))" "g \<noteq> CloseAdd"
    and fg: "f = FromModal g"
    by (auto split: option.splits)
  from add_ok [OF g] m assms(1) show ?thesis unfolding fg by (simp add: clusters_inv_def)
next
  case (CP_activate n)
  with e f show ?thesis by (auto dest!: clusters_fires cluster_row_fires)
next
  case CP_confirm
  with assms(1) f show ?thesis by (auto simp: clusters_inv_def split: option.splits)
qed (use f in auto)

interpretation clusters_page: ui_contract "clusters_view admin" clusters_env clusters_handle
  "clusters_inv admin" "clusters_ok admin"
  for admin
  by unfold_locales (auto intro: clusters_inv_event clusters_ok_event)

definition tokens_inv :: "bool \<Rightarrow> tokens_page \<Rightarrow> bool" where
  "tokens_inv w s \<longleftrightarrow>
     (tp_clear s \<or> tp_delete s \<noteq> None \<or> tp_revoke s \<noteq> None \<or> tp_rotate s \<noteq> None \<longrightarrow> w)"

text \<open>What the open dialogs are about.\<close>

definition confirmed :: "tokens_page \<Rightarrow> token_action \<Rightarrow> bool" where
  "confirmed s a \<longleftrightarrow>
     (case a of
        ClearAll \<Rightarrow> tp_clear s
      | DeleteEntry i \<Rightarrow> \<exists>e. tp_delete s = Some e \<and> he_id e = i
      | RevokeToken n ns \<Rightarrow> \<exists>t. tp_revoke s = Some t \<and> st_secret_name t = n \<and> st_namespace t = ns
      | RotateToken n sa ns \<Rightarrow> \<exists>t. tp_rotate s = Some t \<and> st_secret_name t = n \<and> st_sa_name t = sa \<and>
          st_namespace t = ns)"

fun tokens_ok :: "bool \<Rightarrow> tokens_page \<Rightarrow> tokens_effect \<Rightarrow> bool" where
  "tokens_ok w s (TokenSend h) = (w \<and> (\<exists>a. h = token_call a \<and> confirmed s a))"
| "tokens_ok w s (RefreshTokens k) = (k = [JStr ''token-history''] \<or> k = [JStr ''sa-tokens''])"

lemma history_fires:
  "fires (history_view w h) e \<Longrightarrow> w \<and> (e = TP_ask_clear \<or> (\<exists>x. e = TP_ask_delete x))"
  unfolding history_view_def reads_view by blast

lemma sa_tokens_fires:
  "fires (sa_tokens_view w ts) e \<Longrightarrow> w \<and> (\<exists>x. e = TP_ask_rotate x \<or> e = TP_ask_revoke x)"
  unfolding sa_tokens_view_def reads_view by blast

lemma tokens_fires:
  assumes "fires (tokens_view w s) e"
  shows "e = TP_refresh \<or> (\<exists>t. e = TP_tab t) \<or>
    (w \<and> (e = TP_ask_clear \<or> (\<exists>x. e = TP_ask_delete x) \<or> (\<exists>x. e = TP_ask_rotate x \<or> e = TP_ask_revoke x))) \<or>
    (tp_clear s \<and> (e = TP_cancel_clear \<or> e = TP_clear)) \<or>
    (tp_delete s \<noteq> None \<and> (e = TP_cancel_delete \<or> e = TP_delete)) \<or>
    (tp_revoke s \<noteq> None \<and> (e = TP_cancel_revoke \<or> e = TP_revoke)) \<or>
    (tp_rotate s \<noteq> None \<and> (e = TP_cancel_rotate \<or> e = TP_rotate))"
  using assms unfolding tokens_view_def token_dialogs_def reads_view by (blast dest: history_fires sa_tokens_fires)

interpretation tokens_page: ui_contract "tokens_view w" tokens_env tokens_handle "tokens_inv w" "tokens_ok w"
  for w
proof
  fix s e f
  assume inv: "tokens_inv w s" and e: "fires (tokens_view w s) e \<or> tokens_env s e"
  have ask: "w" if "e = TP_ask_clear \<or> (\<exists>x. e = TP_ask_delete x) \<or> (\<exists>x. e = TP_ask_rotate x \<or> e = TP_ask_revoke x)"
    using e that by (auto dest: tokens_fires)
  show "tokens_inv w (fst (tokens_handle s e))"
    using inv ask by (cases e) (auto simp: tokens_inv_def split: option.splits)
  assume f: "f \<in> set (snd (tokens_handle s e))"
  show "tokens_ok w s f"
  proof (cases e)
    case TP_clear
    with e have "tp_clear s" by (auto dest: tokens_fires)
    with inv f TP_clear show ?thesis by (auto simp: tokens_inv_def confirmed_def intro!: exI [of _ ClearAll])
  next
    case TP_delete
    with f obtain x where x: "tp_delete s = Some x" "f = TokenSend (UseDeleteHistoryEntry (he_id x))"
      by (auto split: option.splits)
    with inv show ?thesis by (auto simp: tokens_inv_def confirmed_def intro!: exI [of _ "DeleteEntry (he_id x)"])
  next
    case TP_revoke
    with f obtain x where
      x: "tp_revoke s = Some x" "f = TokenSend (UseRevokeSaToken (st_secret_name x) (st_namespace x))"
      by (auto split: option.splits)
    with inv show ?thesis
      by (auto simp: tokens_inv_def confirmed_def intro!: exI [of _ "RevokeToken (st_secret_name x) (st_namespace x)"])
  next
    case TP_rotate
    with f obtain x where x: "tp_rotate s = Some x"
      "f = TokenSend (UseRotateSaToken (st_secret_name x) (st_sa_name x) (st_namespace x))"
      by (auto split: option.splits)
    with inv show ?thesis
      by (auto simp: tokens_inv_def confirmed_def
          intro!: exI [of _ "RotateToken (st_secret_name x) (st_sa_name x) (st_namespace x)"])
  qed (use f in auto)
qed

text \<open>Each of the four operations is a confirmed operation of its own.\<close>

datatype token_op = OpClear | OpDelete | OpRevoke | OpRotate

fun op_of :: "token_action \<Rightarrow> token_op" where
  "op_of ClearAll = OpClear"
| "op_of (DeleteEntry i) = OpDelete"
| "op_of (RevokeToken n ns) = OpRevoke"
| "op_of (RotateToken n sa ns) = OpRotate"

fun token_target :: "token_op \<Rightarrow> tokens_page \<Rightarrow> token_action option" where
  "token_target OpClear s = (if tp_clear s then Some ClearAll else None)"
| "token_target OpDelete s = map_option (\<lambda>e. DeleteEntry (he_id e)) (tp_delete s)"
| "token_target OpRevoke s = map_option (\<lambda>t. RevokeToken (st_secret_name t) (st_namespace t)) (tp_revoke s)"
| "token_target OpRotate s =
     map_option (\<lambda>t. RotateToken (st_secret_name t) (st_sa_name t) (st_namespace t)) (tp_rotate s)"

text \<open>What an event is to the dialog of an operation; to the other three it is nothing.\<close>

fun dialog_event :: "tokens_event \<Rightarrow> (token_op \<times> token_action gate_event) option" where
  "dialog_event TP_ask_clear = Some (OpClear, Ask ClearAll)"
| "dialog_event (TP_ask_delete e) = Some (OpDelete, Ask (DeleteEntry (he_id e)))"
| "dialog_event (TP_ask_revoke t) = Some (OpRevoke, Ask (RevokeToken (st_secret_name t) (st_namespace t)))"
| "dialog_event (TP_ask_rotate t) =
     Some (OpRotate, Ask (RotateToken (st_secret_name t) (st_sa_name t) (st_namespace t)))"
| "dialog_event TP_cancel_clear = Some (OpClear, Cancel)"
| "dialog_event TP_cancel_delete = Some (OpDelete, Cancel)"
| "dialog_event TP_cancel_revoke = Some (OpRevoke, Cancel)"
| "dialog_event TP_cancel_rotate = Some (OpRotate, Cancel)"
| "dialog_event TP_clear = Some (OpClear, Confirm)"
| "dialog_event TP_delete = Some (OpDelete, Confirm)"
| "dialog_event TP_revoke = Some (OpRevoke, Confirm)"
| "dialog_event TP_rotate = Some (OpRotate, Confirm)"
| "dialog_event (TP_cleared ok) = Some (OpClear, if ok then Finished else Other)"
| "dialog_event (TP_deleted ok) = Some (OpDelete, if ok then Finished else Other)"
| "dialog_event (TP_revoked ok) = Some (OpRevoke, if ok then Finished else Other)"
| "dialog_event (TP_rotated ok) = Some (OpRotate, if ok then Finished else Other)"
| "dialog_event _ = None"

definition token_event :: "token_op \<Rightarrow> tokens_event \<Rightarrow> token_action gate_event" where
  "token_event op e = (case dialog_event e of Some (op', g) \<Rightarrow> if op' = op then g else Other | None \<Rightarrow> Other)"

fun sent_action :: "tokens_effect \<Rightarrow> token_action option" where
  "sent_action (TokenSend UseClearHistory) = Some ClearAll"
| "sent_action (TokenSend (UseDeleteHistoryEntry i)) = Some (DeleteEntry i)"
| "sent_action (TokenSend (UseRevokeSaToken n ns)) = Some (RevokeToken n ns)"
| "sent_action (TokenSend (UseRotateSaToken n sa ns)) = Some (RotateToken n sa ns)"
| "sent_action _ = None"

definition token_done :: "token_op \<Rightarrow> tokens_effect \<Rightarrow> token_action list" where
  "token_done op f = (case sent_action f of Some a \<Rightarrow> if op_of a = op then [a] else [] | None \<Rightarrow> [])"

lemma sent_action_call: "sent_action (TokenSend (token_call a)) = Some a"
  by (cases a) simp_all

lemma tokens_step_refines:
  assumes "e = TP_clear \<Longrightarrow> tp_clear s"
  shows "gate_handle (token_target op s) (token_event op e) =
    (token_target op (fst (tokens_handle s e)), concat (map (token_done op) (snd (tokens_handle s e))))"
  using assms
  by (cases e; cases op) (auto simp: token_event_def token_done_def split: option.splits)

interpretation token_gate: ui_refinement "tokens_view w" tokens_env tokens_handle "tokens_inv w" "tokens_ok w"
  "\<lambda>t. []" "gate_env (\<lambda>a. w \<and> op_of a = op)" gate_handle "token_target op" "\<lambda>s. token_event op" "token_done op"
  for w op
proof
  fix s e
  assume e: "fires (tokens_view w s) e \<or> tokens_env s e"
  have ask: w if "e = TP_ask_clear \<or> (\<exists>x. e = TP_ask_delete x) \<or> (\<exists>x. e = TP_ask_rotate x \<or> e = TP_ask_revoke x)"
    using e that by (auto dest: tokens_fires)
  have "gate_env (\<lambda>a. w \<and> op_of a = op) (token_target op s) (token_event op e)"
    using ask by (cases e) (auto simp: token_event_def)
  moreover have "tp_clear s" if "e = TP_clear" using e that by (auto dest: tokens_fires)
  ultimately show "(fires [] (token_event op e) \<or>
      gate_env (\<lambda>a. w \<and> op_of a = op) (token_target op s) (token_event op e)) \<and>
    gate_handle (token_target op s) (token_event op e) =
      (token_target op (fst (tokens_handle s e)), concat (map (token_done op) (snd (tokens_handle s e))))"
    using tokens_step_refines by blast
qed

section \<open>Properties\<close>

text \<open>What the clusters page does: in any run, a cluster is removed only by an instance admin, from the
  dialog that names it, and never the local one, to which the frontend falls back; a cluster is
  registered only with all four fields, and a script asked for only with a trimmed name that is not
  empty, both by an admin; and the cluster made active is one of the list.\<close>

theorem clusters_page_acts:
  assumes "ui_run (clusters_view admin) clusters_env clusters_handle clusters_page_init log s"
    and "(s', f) \<in> set log"
  shows "clusters_ok admin s' f"
proof -
  have "clusters_inv admin clusters_page_init" by (simp add: clusters_inv_def clusters_page_init_def)
  from clusters_page.run_ok [OF assms(1) this assms(2)] show ?thesis .
qed

definition two_clusters :: "cluster_entry list" where
  "two_clusters = [\<lparr>ce_name = ''local'', ce_api_url = [], ce_is_local = True\<rparr>,
     \<lparr>ce_name = ''prod'', ce_api_url = ''https://prod'', ce_is_local = False\<rparr>]"

definition remove_run :: "clusters_event list" where
  "remove_run = [CP_clusters (Some two_clusters), CP_ask ''prod'', CP_confirm]"

lemma remove_run_playable: "playable (clusters_view True) clusters_env clusters_handle clusters_page_init remove_run"
  by (simp add: remove_run_def two_clusters_def clusters_page_init_def clusters_view_def cluster_row_def)

theorem clusters_page_acts_witness:
  "\<exists>s'. (s', ClusterSend (UseRemoveCluster ''prod'')) \<in>
     set (play_log clusters_handle clusters_page_init remove_run) \<and> cl_remove_target s' = Some ''prod''"
proof -
  have "ClusterSend (UseRemoveCluster ''prod'') \<in> snd ` set (play_log clusters_handle clusters_page_init remove_run)"
    by (simp add: remove_run_def clusters_page_init_def)
  from log_effect [OF this] obtain s' where
    s': "(s', ClusterSend (UseRemoveCluster ''prod'')) \<in>
      set (play_log clusters_handle clusters_page_init remove_run)" ..
  from clusters_page_acts [OF ui_run_play [OF remove_run_playable] s'] s' show ?thesis by auto
qed

text \<open>The tokens page changes nothing without a confirmation: in any run, the history is cleared, an entry
  of it deleted, a token revoked or rotated only with the right to write and from the open dialog
  of that very operation, with the identifiers of the object in it.\<close>

theorem tokens_page_acts:
  assumes "ui_run (tokens_view w) tokens_env tokens_handle tokens_page_init log s"
    and "(s', f) \<in> set log"
  shows "tokens_ok w s' f"
proof -
  have "tokens_inv w tokens_page_init" by (simp add: tokens_inv_def tokens_page_init_def)
  from tokens_page.run_ok [OF assms(1) this assms(2)] show ?thesis .
qed

definition ci_token :: sa_token where
  "ci_token = \<lparr>st_secret_name = ''ci-token'', st_sa_name = ''ci'', st_namespace = ''dev'',
     st_created_at = None, st_token_present = True\<rparr>"

definition rotate_run :: "tokens_event list" where
  "rotate_run = [TP_sa_tokens (Some [ci_token]), TP_tab SaTokensTab, TP_ask_rotate ci_token, TP_rotate]"

lemma rotate_run_playable: "playable (tokens_view True) tokens_env tokens_handle tokens_page_init rotate_run"
  by (simp add: rotate_run_def tokens_page_init_def tokens_view_def token_dialogs_def sa_tokens_view_def history_view_def)

theorem tokens_page_acts_witness:
  "\<exists>s'. (s', TokenSend (UseRotateSaToken ''ci-token'' ''ci'' ''dev'')) \<in>
     set (play_log tokens_handle tokens_page_init rotate_run) \<and>
     tokens_ok True s' (TokenSend (UseRotateSaToken ''ci-token'' ''ci'' ''dev''))"
proof -
  have "TokenSend (UseRotateSaToken ''ci-token'' ''ci'' ''dev'') \<in>
      snd ` set (play_log tokens_handle tokens_page_init rotate_run)"
    by (simp add: rotate_run_def tokens_page_init_def ci_token_def)
  from log_effect [OF this] obtain s' where
    s': "(s', TokenSend (UseRotateSaToken ''ci-token'' ''ci'' ''dev'')) \<in>
      set (play_log tokens_handle tokens_page_init rotate_run)" ..
  from tokens_page_acts [OF ui_run_play [OF rotate_run_playable] s'] s' show ?thesis by blast
qed

text \<open>The tokens page implements the specification of a confirmed operation four times over: for each of
  clearing the history, deleting an entry, revoking and rotating a token, any run of the page, read
  as a run of the dialog machine of that operation, is a run of that machine, with the same
  operations on the same objects; and only with the right to write is a dialog ever opened.\<close>

theorem tokens_page_refines:
  assumes "ui_run (tokens_view w) tokens_env tokens_handle tokens_page_init log s"
  shows "ui_run (\<lambda>t. []) (gate_env (\<lambda>a. w \<and> op_of a = op)) gate_handle None
    (map_log (token_target op) (token_done op) log) (token_target op s)"
proof -
  have inv: "tokens_inv w tokens_page_init" by (simp add: tokens_inv_def tokens_page_init_def)
  have "token_target op tokens_page_init = None" by (cases op) (simp_all add: tokens_page_init_def)
  with token_gate.run_refines [OF assms inv, of op] show ?thesis by simp
qed

theorem tokens_page_refines_witness:
  "ui_run (\<lambda>t. []) (gate_env (\<lambda>a. True \<and> op_of a = OpRotate)) gate_handle None
     [(Some (RotateToken ''ci-token'' ''ci'' ''dev''), RotateToken ''ci-token'' ''ci'' ''dev'')]
     (Some (RotateToken ''ci-token'' ''ci'' ''dev''))"
proof -
  have log: "map_log (token_target OpRotate) (token_done OpRotate) (play_log tokens_handle tokens_page_init rotate_run) =
      [(Some (RotateToken ''ci-token'' ''ci'' ''dev''), RotateToken ''ci-token'' ''ci'' ''dev'')]"
    by (simp add: rotate_run_def tokens_page_init_def ci_token_def map_log_def token_done_def)
  have target: "token_target OpRotate (play tokens_handle tokens_page_init rotate_run) =
      Some (RotateToken ''ci-token'' ''ci'' ''dev'')"
    by (simp add: rotate_run_def tokens_page_init_def ci_token_def)
  from tokens_page_refines [OF ui_run_play [OF rotate_run_playable], of OpRotate]
  show ?thesis unfolding log target .
qed

end
