(* ===== verification/Widgets.thy ===== *)
theory Widgets
  imports Hooks Ui
begin

text \<open>
  What the pages take from the browser and from the libraries through a few shared files: the Escape
  key of the dialogs (\<^verbatim>\<open>components/ui/Modal.tsx\<close>), the choice a select element shows
  (\<^verbatim>\<open>components/ui/Select.tsx\<close>), badges (\<^verbatim>\<open>components/ui/Badge.tsx\<close>), downloads
  (\<^verbatim>\<open>lib/downloadBlob.ts\<close>) and the defaults of the query cache (\<^verbatim>\<open>lib/queryClient.ts\<close>).
\<close>

section \<open>The Escape key\<close>

text \<open>\<open>dm_listeners\<close>: the keydown listeners of the document in the order they were added, each with the
  modal that added it and the \<open>onClose\<close> it calls; \<open>dm_deps\<close>: the dependencies (\<open>open\<close>,
  \<open>onClose\<close>) of the last run of the effect of each mounted modal. The functions given as
  \<open>onClose\<close> are values that can be compared, as React compares them.\<close>

record 'h dom =
  dm_listeners :: "(nat \<times> 'h) list"
  dm_deps :: "nat \<Rightarrow> (bool \<times> 'h) option"

definition dom_init :: "'h dom" where
  "dom_init = \<lparr>dm_listeners = [], dm_deps = (\<lambda>i. None)\<rparr>"

datatype 'h dom_event = Rendered nat bool 'h | Unmounted nat

text \<open>What the last run of the effect returned: nothing, when the modal was closed.\<close>

definition cleanup :: "nat \<Rightarrow> 'h dom \<Rightarrow> 'h dom" where
  "cleanup i d =
     (case dm_deps d i of
        Some (True, h) \<Rightarrow> d\<lparr>dm_listeners := remove1 (i, h) (dm_listeners d)\<rparr>
      | _ \<Rightarrow> d)"

definition escape_effect :: "nat \<Rightarrow> bool \<Rightarrow> 'h \<Rightarrow> 'h dom \<Rightarrow> 'h dom" where
  "escape_effect i open onClose d = (if \<not> open then d else d\<lparr>dm_listeners := dm_listeners d @ [(i, onClose)]\<rparr>)"

fun dom_step :: "'h dom \<Rightarrow> 'h dom_event \<Rightarrow> 'h dom" where
  "dom_step d (Rendered i open onClose) =
     (if dm_deps d i = Some (open, onClose) then d
      else (escape_effect i open onClose (cleanup i d))\<lparr>dm_deps := (dm_deps d)(i := Some (open, onClose))\<rparr>)"
| "dom_step d (Unmounted i) = (cleanup i d)\<lparr>dm_deps := (dm_deps d)(i := None)\<rparr>"

definition dom_after :: "'h dom_event list \<Rightarrow> 'h dom" where
  "dom_after es = foldl dom_step dom_init es"

definition on_escape :: "'h dom \<Rightarrow> 'h list" where
  "on_escape d = map snd (dm_listeners d)"

definition dom_inv :: "'h dom \<Rightarrow> bool" where
  "dom_inv d \<longleftrightarrow> distinct (map fst (dm_listeners d)) \<and>
     set (dm_listeners d) = {(i, h). dm_deps d i = Some (True, h)}"

lemma cleanup_deps [simp]: "dm_deps (cleanup i d) = dm_deps d"
  by (simp add: cleanup_def split: option.split prod.split bool.split)

lemma distinct_map_remove1: "distinct (map f xs) \<Longrightarrow> distinct (map f (remove1 x xs))"
  by (induction xs) (auto dest: in_set_remove1 [THEN iffD1] set_remove1_subset [THEN subsetD])

lemma cleanup_listeners:
  assumes "dom_inv d"
  shows "distinct (map fst (dm_listeners (cleanup i d)))"
    and "set (dm_listeners (cleanup i d)) = {(j, h). j \<noteq> i \<and> dm_deps d j = Some (True, h)}"
proof -
  have d: "distinct (map fst (dm_listeners d))" "distinct (dm_listeners d)"
    "set (dm_listeners d) = {(i, h). dm_deps d i = Some (True, h)}"
    using assms by (auto simp: dom_inv_def distinct_map)
  show "distinct (map fst (dm_listeners (cleanup i d)))"
    using d(1) by (auto simp: cleanup_def distinct_map_remove1 split: option.split bool.split)
  show "set (dm_listeners (cleanup i d)) = {(j, h). j \<noteq> i \<and> dm_deps d j = Some (True, h)}"
    using d(2,3) by (auto simp: cleanup_def split: option.splits bool.splits)
qed

lemma dom_inv_step: "dom_inv d \<Longrightarrow> dom_inv (dom_step d e)"
proof (cases e)
  case (Rendered i b h)
  assume inv: "dom_inv d"
  note c = cleanup_listeners [OF inv, of i]
  have "i \<notin> fst ` set (dm_listeners (cleanup i d))" unfolding c(2) by auto
  with c inv Rendered show ?thesis
    by (auto simp: dom_inv_def escape_effect_def split: if_splits)
next
  case (Unmounted i)
  assume inv: "dom_inv d"
  from cleanup_listeners [OF inv, of i] Unmounted show ?thesis by (auto simp: dom_inv_def split: if_splits)
qed

lemma dom_inv_after: "dom_inv (dom_after es)"
proof -
  have "dom_inv d \<Longrightarrow> dom_inv (foldl dom_step d es)" for d
    by (induction es arbitrary: d) (simp_all add: dom_inv_step)
  then show ?thesis by (simp add: dom_after_def dom_inv_def dom_init_def)
qed

text \<open>What a modal is after a history: its last render, unless it was unmounted since.\<close>

fun render_of :: "nat \<Rightarrow> 'h dom_event \<Rightarrow> (bool \<times> 'h) option \<Rightarrow> (bool \<times> 'h) option" where
  "render_of i (Rendered j open onClose) r = (if j = i then Some (open, onClose) else r)"
| "render_of i (Unmounted j) r = (if j = i then None else r)"

definition last_render :: "nat \<Rightarrow> 'h dom_event list \<Rightarrow> (bool \<times> 'h) option" where
  "last_render i es = fold (render_of i) es None"

section \<open>Select\<close>

text \<open>React selects the option of the value, or else the first one; the browser reports a change only when
  another option than the one shown is chosen.\<close>

definition select_shows :: "string \<Rightarrow> string list \<Rightarrow> string option" where
  "select_shows v opts = (if v \<in> set opts then Some v else if opts = [] then None else Some (hd opts))"

definition select_changes :: "string \<Rightarrow> string list \<Rightarrow> string \<Rightarrow> bool" where
  "select_changes v opts x \<longleftrightarrow> x \<in> set opts \<and> select_shows v opts \<noteq> Some x"

lemma select_agrees: "select_shows v opts = Some v \<longleftrightarrow> v \<in> set opts"
  by (auto simp: select_shows_def)

text \<open>The control of the views offers every option, those of \<open>select_changes\<close> among them.\<close>

lemma select_offered: "select_changes v opts x \<Longrightarrow> offers (Choose True v opts f) (f x)"
  by (auto simp: select_changes_def)

section \<open>Badge\<close>

datatype badge_variant = BV_default | BV_success | BV_warning | BV_danger | BV_info

record badge =
  bg_variant :: badge_variant
  bg_dot :: bool
  bg_text :: string

text \<open>A variant that is \<open>undefined\<close> is the default one.\<close>

definition badge_of :: "badge_variant option \<Rightarrow> bool \<Rightarrow> string \<Rightarrow> badge" where
  "badge_of variant dot text =
     \<lparr>bg_variant = (case variant of Some v \<Rightarrow> v | None \<Rightarrow> BV_default), bg_dot = dot, bg_text = text\<rparr>"

section \<open>Downloads\<close>

text \<open>\<open>br_urls\<close>: the object URLs and what they stand for; \<open>br_links\<close>: the links in the body of the
  document; \<open>br_saved\<close>: what the browser saved, by file name. The URL is what the browser chose.\<close>

record browser =
  br_urls :: "string \<rightharpoonup> string"
  br_links :: "(string \<times> string) list"
  br_saved :: "(string \<times> string) list"

definition create_url :: "string \<Rightarrow> string \<Rightarrow> browser \<Rightarrow> browser" where
  "create_url url blob b = b\<lparr>br_urls := (br_urls b)(url \<mapsto> blob)\<rparr>"

definition append_link :: "string \<times> string \<Rightarrow> browser \<Rightarrow> browser" where
  "append_link a b = b\<lparr>br_links := br_links b @ [a]\<rparr>"

definition click_link :: "string \<times> string \<Rightarrow> browser \<Rightarrow> browser" where
  "click_link a b =
     (case br_urls b (fst a) of
        Some blob \<Rightarrow> if a \<in> set (br_links b) then b\<lparr>br_saved := br_saved b @ [(snd a, blob)]\<rparr> else b
      | None \<Rightarrow> b)"

definition remove_link :: "string \<times> string \<Rightarrow> browser \<Rightarrow> browser" where
  "remove_link a b = b\<lparr>br_links := rev (remove1 a (rev (br_links b)))\<rparr>"

definition revoke_url :: "string \<Rightarrow> browser \<Rightarrow> browser" where
  "revoke_url url b = b\<lparr>br_urls := (br_urls b)(url := None)\<rparr>"

definition downloadBlob :: "string \<Rightarrow> string \<Rightarrow> string \<Rightarrow> browser \<Rightarrow> browser" where
  "downloadBlob url blob filename b =
     (let a = (url, filename) in
      revoke_url url (remove_link a (click_link a (append_link a (create_url url blob b)))))"

section \<open>The defaults of the query cache\<close>

record query_defaults =
  qd_retry :: nat
  qd_stale :: nat

definition queryClient :: query_defaults where
  "queryClient = \<lparr>qd_retry = 1, qd_stale = 30000\<rparr>"

definition effective_retry :: "query_hook \<Rightarrow> nat" where
  "effective_retry q = (if NoRetry \<in> set (qh_options q) then 0 else qd_retry queryClient)"

definition effective_stale :: "query_hook \<Rightarrow> nat" where
  "effective_stale q = (case qh_stale q of Some n \<Rightarrow> n | None \<Rightarrow> qd_stale queryClient)"

section \<open>Properties\<close>

lemma dom_deps_after: "dm_deps (foldl dom_step d es) i = fold (render_of i) es (dm_deps d i)"
proof (induction es arbitrary: d)
  case (Cons e es)
  have "dm_deps (dom_step d e) i = render_of i e (dm_deps d i)" by (cases e) auto
  with Cons show ?case by simp
qed simp

text \<open>The Escape key closes what is open and nothing else: after any history of renders and unmounts of
  any number of dialogs, pressing it calls, once for each dialog that is mounted and open, the
  \<open>onClose\<close> of its last render; no listener outlives its dialog and none calls an old function.\<close>

theorem escape_closes_open:
  "distinct (map fst (dm_listeners (dom_after es))) \<and>
   set (dm_listeners (dom_after es)) = {(i, h). last_render i es = Some (True, h)} \<and>
   set (on_escape (dom_after es)) = {h. \<exists>i. last_render i es = Some (True, h)}"
proof -
  have "dm_deps (dom_after es) i = last_render i es" for i
    by (simp add: dom_after_def last_render_def dom_deps_after dom_init_def)
  then show ?thesis
    using dom_inv_after [of es] by (auto simp: dom_inv_def on_escape_def image_iff)
qed

text \<open>A download leaves nothing behind: whatever was in the document and whichever unused URL the
  browser chose, exactly the given content is saved under the given name, and the URLs and the links
  are what they were.\<close>

theorem download_leaves_nothing:
  assumes "br_urls b url = None"
  shows "downloadBlob url blob filename b = b\<lparr>br_saved := br_saved b @ [(filename, blob)]\<rparr>"
  using assms
  by (cases b) (simp add: downloadBlob_def Let_def revoke_url_def remove_link_def click_link_def append_link_def
      create_url_def fun_upd_idem)

theorem download_leaves_nothing_witness:
  "let b = \<lparr>br_urls = Map.empty, br_links = [(''u'', ''x.csv'')], br_saved = []\<rparr> in
   br_saved (downloadBlob ''u'' ''a,b'' ''x.csv'' b) = [(''x.csv'', ''a,b'')] \<and>
   br_links (downloadBlob ''u'' ''a,b'' ''x.csv'' b) = [(''u'', ''x.csv'')]"
  by (simp add: download_leaves_nothing Let_def)

text \<open>How long an answer counts as fresh and how often a query asks: between fifteen seconds and two
  minutes for every query, whatever its arguments, and at most one retry, none for the two queries
  that tell whether the backend and the cluster answer at all.\<close>

theorem queries_bounded:
  assumes "hooks c h = Query q"
  shows "15000 \<le> effective_stale q \<and> effective_stale q \<le> 120000 \<and> effective_retry q \<le> 1 \<and>
    (effective_retry q = 0 \<longleftrightarrow> h = HBackendHealth \<or> h = HCluster UseClusterInfo)"
  using assms
proof (cases h)
  case (HAccessRequests x)
  with assms show ?thesis by (cases x) (auto simp: effective_stale_def effective_retry_def queryClient_def)
next case (HAudit x)
  with assms show ?thesis by (cases x) (auto simp: effective_stale_def effective_retry_def queryClient_def)
next case (HCluster x)
  with assms show ?thesis by (cases x) (auto simp: effective_stale_def effective_retry_def queryClient_def)
next case (HLink x)
  with assms show ?thesis by (cases x) (auto simp: effective_stale_def effective_retry_def queryClient_def)
next case (HPermissions x)
  with assms show ?thesis by (cases x) (auto simp: effective_stale_def effective_retry_def queryClient_def)
next case (HRbacQuery x)
  with assms show ?thesis by (cases x) (auto simp: effective_stale_def effective_retry_def queryClient_def)
next case (HRbac x)
  with assms show ?thesis by (cases x) auto
next case (HTokens x)
  with assms show ?thesis by (cases x) (auto simp: effective_stale_def effective_retry_def queryClient_def)
next case (HUsers x)
  with assms show ?thesis by (cases x) (auto simp: effective_stale_def effective_retry_def queryClient_def)
qed (auto simp: backend_health_hook_def generate_kubeconfig_hook_def effective_stale_def effective_retry_def queryClient_def)

theorem queries_bounded_witness:
  "\<exists>q. hooks ''test'' (HUsers UseUsers) = Query q \<and> effective_stale q \<le> 120000"
proof -
  obtain q where q: "hooks ''test'' (HUsers UseUsers) = Query q" by simp
  from queries_bounded [OF q] q show ?thesis by blast
qed

end
