(* ===== verification/AccessPanels.thy ===== *)
theory AccessPanels
  imports Gate RoleEditor Widgets
begin

text \<open>
  The two panels of the access views: \<^verbatim>\<open>components/rbac/NamespaceAccessPanel.tsx\<close>, the table of who has
  access to a namespace with its filters, and \<^verbatim>\<open>components/rbac/AccessSimulatorPanel.tsx\<close>, the form
  that asks the cluster whether a user may do something. The active cluster and the right to write
  are parameters. Lower case is that of the ASCII letters, as in the names Kubernetes allows.
\<close>

section \<open>components/rbac/NamespaceAccessPanel.tsx\<close>

record access_entry =
  ae_subject :: string
  ae_subject_kind :: string
  ae_subject_namespace :: "string option"
  ae_role :: string
  ae_role_kind :: string
  ae_binding :: string
  ae_scope :: string

definition lower_char :: "char \<Rightarrow> char" where
  "lower_char c = (let n = (of_char c :: nat) in if 65 \<le> n \<and> n \<le> 90 then char_of (n + 32) else c)"

definition toLowerCase :: "string \<Rightarrow> string" where
  "toLowerCase s = map lower_char s"

record access_panel =
  np_namespace :: string
  np_search :: string
  np_kind :: string
  np_entries :: "access_entry list fetched"

definition access_panel_init :: access_panel where
  "access_panel_init = \<lparr>np_namespace = ''default'', np_search = [], np_kind = [], np_entries = Loading\<rparr>"

definition np_data :: "access_panel \<Rightarrow> access_entry list" where
  "np_data s = (case np_entries s of Ready es \<Rightarrow> es | _ \<Rightarrow> [])"

definition filtered :: "access_panel \<Rightarrow> access_entry list" where
  "filtered s = filter (\<lambda>e.
     (np_search s = [] \<or> string_includes (toLowerCase (ae_subject e)) (toLowerCase (np_search s))) \<and>
     (np_kind s = [] \<or> ae_subject_kind e = np_kind s)) (np_data s)"

datatype access_panel_event =
  NP_entries "access_entry list fetched" | NP_namespace string | NP_kind string | NP_search string
| NP_refresh | NP_retry

datatype access_panel_effect = RefreshAccess query_key | RefetchAccess

text \<open>A new namespace is a new query, which starts by loading (or with what the cache has).\<close>

fun access_panel_handle ::
  "string \<Rightarrow> access_panel \<Rightarrow> access_panel_event \<Rightarrow> access_panel \<times> access_panel_effect list"
where
  "access_panel_handle cluster s (NP_entries es) = (s\<lparr>np_entries := es\<rparr>, [])"
| "access_panel_handle cluster s (NP_namespace n) = (s\<lparr>np_namespace := n, np_entries := Loading\<rparr>, [])"
| "access_panel_handle cluster s (NP_kind k) = (s\<lparr>np_kind := k\<rparr>, [])"
| "access_panel_handle cluster s (NP_search v) = (s\<lparr>np_search := v\<rparr>, [])"
| "access_panel_handle cluster s NP_refresh =
     (s, [RefreshAccess [JStr ''namespace-access'', JStr cluster, JStr (np_namespace s)], RefetchAccess])"
| "access_panel_handle cluster s NP_retry = (s, [RefetchAccess])"

definition access_kinds :: "string list" where
  "access_kinds = [[], ''User'', ''ServiceAccount'', ''Group'']"

definition access_panel_view :: "string list \<Rightarrow> access_panel \<Rightarrow> access_panel_event control list" where
  "access_panel_view namespaces s =
     [Choose True (np_namespace s) namespaces NP_namespace, Choose True (np_kind s) access_kinds NP_kind,
      Input True (np_search s) NP_search, Press True NP_refresh] @
     (if np_entries s = Failed then [Press True NP_retry] else [])"

fun access_panel_env :: "access_panel \<Rightarrow> access_panel_event \<Rightarrow> bool" where
  "access_panel_env s (NP_entries es) = True"
| "access_panel_env s _ = False"

text \<open>The table below the controls: a row per entry, with its badges, and the counts of the last line.\<close>

definition KIND_VARIANT :: "(string \<times> badge_variant) list" where
  "KIND_VARIANT = [(''User'', BV_info), (''ServiceAccount'', BV_default), (''Group'', BV_warning)]"

definition SCOPE_VARIANT :: "(string \<times> badge_variant) list" where
  "SCOPE_VARIANT = [(''namespace'', BV_success), (''cluster'', BV_warning)]"

record access_row =
  aw_subject :: string
  aw_subject_namespace :: "string option"
  aw_kind :: badge
  aw_role :: string
  aw_role_kind :: badge
  aw_scope :: badge
  aw_binding :: string

definition access_row :: "access_entry \<Rightarrow> access_row" where
  "access_row e =
     \<lparr>aw_subject = ae_subject e,
      aw_subject_namespace = (case ae_subject_namespace e of Some n \<Rightarrow> or_undef n | None \<Rightarrow> None),
      aw_kind = badge_of (case map_of KIND_VARIANT (ae_subject_kind e) of Some v \<Rightarrow> Some v | None \<Rightarrow> Some BV_default)
        False (ae_subject_kind e),
      aw_role = ae_role e,
      aw_role_kind = badge_of (Some (if ae_role_kind e = ''ClusterRole'' then BV_danger else BV_info)) False (ae_role_kind e),
      aw_scope = badge_of (map_of SCOPE_VARIANT (ae_scope e)) True (ae_scope e),
      aw_binding = ae_binding e\<rparr>"

datatype access_table = TableLoading | TableFailed | NoEntries | Rows "access_row list"

definition access_table :: "access_panel \<Rightarrow> access_table" where
  "access_table s =
     (case np_entries s of
        Loading \<Rightarrow> TableLoading
      | Failed \<Rightarrow> TableFailed
      | Ready es \<Rightarrow> if length (filtered s) = 0 then NoEntries else Rows (map access_row (filtered s)))"

definition access_footer :: "access_panel \<Rightarrow> nat \<times> nat \<times> string" where
  "access_footer s = (length (filtered s), length (np_data s), np_namespace s)"

section \<open>components/rbac/AccessSimulatorPanel.tsx\<close>

record simulator =
  sm_user :: string
  sm_verb :: string
  sm_resource :: string
  sm_custom :: string
  sm_namespace :: string
  sm_api_group :: string
  sm_result :: "(bool \<times> string) option"
  sm_pending :: "check_access_request option"

text \<open>\<open>sm_result\<close>: whether allowed, and the reason; \<open>sm_pending\<close>: the request being answered.\<close>

definition simulator_init :: simulator where
  "simulator_init = \<lparr>sm_user = [], sm_verb = ''get'', sm_resource = ''pods'', sm_custom = [],
     sm_namespace = [], sm_api_group = [], sm_result = None, sm_pending = None\<rparr>"

definition COMMON_VERBS :: "string list" where
  "COMMON_VERBS = [''get'', ''list'', ''watch'', ''create'', ''update'', ''patch'', ''delete'', ''deletecollection'']"

definition COMMON_RESOURCES :: "string list" where
  "COMMON_RESOURCES = [''pods'', ''deployments'', ''services'', ''configmaps'', ''secrets'',
     ''serviceaccounts'', ''roles'', ''rolebindings'', ''clusterroles'', ''clusterrolebindings'',
     ''namespaces'', ''nodes'', ''persistentvolumes'', ''persistentvolumeclaims'']"

definition effectiveResource :: "simulator \<Rightarrow> string" where
  "effectiveResource s = (if js_trim (sm_custom s) \<noteq> [] then js_trim (sm_custom s) else sm_resource s)"

definition check_request :: "simulator \<Rightarrow> check_access_request" where
  "check_request s = \<lparr>ca_user = js_trim (sm_user s), ca_verb = sm_verb s, ca_resource = effectiveResource s,
     ca_namespace = or_undef (sm_namespace s), ca_api_group = or_undef (sm_api_group s)\<rparr>"

datatype simulator_event =
  AS_user string | AS_verb string | AS_namespace string | AS_resource string | AS_custom string
| AS_api_group string | AS_check | AS_answer "(bool \<times> string) option"

fun simulator_handle :: "simulator \<Rightarrow> simulator_event \<Rightarrow> simulator \<times> rbac_mutation list" where
  "simulator_handle s (AS_user v) = (s\<lparr>sm_user := v, sm_result := None\<rparr>, [])"
| "simulator_handle s (AS_verb v) = (s\<lparr>sm_verb := v, sm_result := None\<rparr>, [])"
| "simulator_handle s (AS_namespace v) = (s\<lparr>sm_namespace := v, sm_result := None\<rparr>, [])"
| "simulator_handle s (AS_resource v) =
     (if v = ''__custom__'' then (s, [])
      else (s\<lparr>sm_resource := v, sm_custom := [], sm_result := None\<rparr>, []))"
| "simulator_handle s (AS_custom v) = (s\<lparr>sm_custom := v, sm_result := None\<rparr>, [])"
| "simulator_handle s (AS_api_group v) = (s\<lparr>sm_api_group := v, sm_result := None\<rparr>, [])"
| "simulator_handle s AS_check =
     (if js_trim (sm_user s) = [] \<or> effectiveResource s = [] then (s, [])
      else (s\<lparr>sm_pending := Some (check_request s)\<rparr>, [UseCheckAccess (check_request s)]))"
| "simulator_handle s (AS_answer r) =
     (s\<lparr>sm_pending := None, sm_result := (case r of Some x \<Rightarrow> Some x | None \<Rightarrow> sm_result s)\<rparr>, [])"

definition simulator_view :: "bool \<Rightarrow> string list \<Rightarrow> simulator \<Rightarrow> simulator_event control list" where
  "simulator_view canWrite namespaces s =
     [Input True (sm_user s) AS_user, Choose True (sm_verb s) COMMON_VERBS AS_verb,
      Choose True (sm_namespace s) ([] # namespaces) AS_namespace,
      Choose True (if truthy (sm_custom s) then ''__custom__'' else sm_resource s)
        (COMMON_RESOURCES @ [''__custom__'']) AS_resource,
      Input True (sm_custom s) AS_custom, Input True (sm_api_group s) AS_api_group,
      button (sm_pending s \<noteq> None) (js_trim (sm_user s) = [] \<or> effectiveResource s = [] \<or> \<not> canWrite) AS_check]"

fun simulator_env :: "simulator \<Rightarrow> simulator_event \<Rightarrow> bool" where
  "simulator_env s (AS_answer r) = (sm_pending s \<noteq> None)"
| "simulator_env s _ = False"

text \<open>The line of the verdict: what the panel says the user can or cannot do.\<close>

definition verdict :: "simulator \<Rightarrow> (bool \<times> string \<times> string \<times> string \<times> string option) option" where
  "verdict s = (case sm_result s of
     None \<Rightarrow> None
   | Some r \<Rightarrow> Some (fst r, sm_user s, sm_verb s, effectiveResource s, or_undef (sm_namespace s)))"

section \<open>The contract of the simulator\<close>

definition simulator_inv :: "simulator \<Rightarrow> bool" where
  "simulator_inv s \<longleftrightarrow> sm_verb s \<in> set COMMON_VERBS \<and> sm_resource s \<in> set COMMON_RESOURCES"

definition simulator_ok :: "bool \<Rightarrow> simulator \<Rightarrow> rbac_mutation \<Rightarrow> bool" where
  "simulator_ok w s f \<longleftrightarrow> w \<and> f = UseCheckAccess (check_request s) \<and> js_trim (sm_user s) \<noteq> [] \<and>
     sm_verb s \<in> set COMMON_VERBS \<and>
     (js_trim (sm_custom s) = [] \<longrightarrow> ca_resource (check_request s) \<in> set COMMON_RESOURCES)"

lemma simulator_fires:
  assumes "fires (simulator_view w nss s) e"
  shows "(e = AS_check \<longrightarrow> w) \<and> (\<forall>v. e = AS_verb v \<longrightarrow> v \<in> set COMMON_VERBS) \<and>
    (\<forall>v. e = AS_resource v \<longrightarrow> v = ''__custom__'' \<or> v \<in> set COMMON_RESOURCES)"
proof -
  have opts: "v = ''__custom__'' \<or> v \<in> set COMMON_RESOURCES"
    if "v \<in> set (COMMON_RESOURCES @ [''__custom__''])" for v
    using that by auto
  from assms show ?thesis unfolding simulator_view_def reads_view by (blast dest: opts)
qed

interpretation simulator: ui_contract "simulator_view w nss" simulator_env simulator_handle simulator_inv
  "simulator_ok w"
  for w nss
proof
  fix s e f
  assume inv: "simulator_inv s" and e: "fires (simulator_view w nss s) e \<or> simulator_env s e"
  show "simulator_inv (fst (simulator_handle s e))"
  proof (cases e)
    case (AS_verb v)
    with e simulator_fires [of w nss s e] have "v \<in> set COMMON_VERBS" by auto
    with inv AS_verb show ?thesis by (simp add: simulator_inv_def)
  next
    case (AS_resource v)
    with e simulator_fires [of w nss s e] have "v = ''__custom__'' \<or> v \<in> set COMMON_RESOURCES" by auto
    with inv AS_resource show ?thesis by (auto simp: simulator_inv_def)
  qed (use inv in \<open>auto simp: simulator_inv_def\<close>)
  assume f: "f \<in> set (snd (simulator_handle s e))"
  show "simulator_ok w s f"
  proof (cases e)
    case AS_check
    with e simulator_fires [of w nss s e] have w by auto
    with f inv AS_check show ?thesis
      by (auto simp: simulator_ok_def simulator_inv_def check_request_def effectiveResource_def split: if_splits)
  qed (use f in \<open>auto split: if_splits\<close>)
qed

section \<open>The contract of the access table\<close>

definition access_panel_inv :: "string list \<Rightarrow> access_panel \<Rightarrow> bool" where
  "access_panel_inv namespaces s \<longleftrightarrow> np_namespace s \<in> set namespaces \<and> np_kind s \<in> set access_kinds"

fun access_panel_ok :: "string \<Rightarrow> string list \<Rightarrow> access_panel \<Rightarrow> access_panel_effect \<Rightarrow> bool" where
  "access_panel_ok cluster namespaces s (RefreshAccess k) =
     (\<exists>q. hooks cluster (HRbacQuery (UseNamespaceAccess (np_namespace s))) = Query q \<and> k = qh_key q)"
| "access_panel_ok cluster namespaces s RefetchAccess = True"

lemma access_panel_fires:
  assumes "fires (access_panel_view namespaces s) e"
  shows "(\<forall>n. e = NP_namespace n \<longrightarrow> n \<in> set namespaces) \<and> (\<forall>k. e = NP_kind k \<longrightarrow> k \<in> set access_kinds)"
  using assms unfolding access_panel_view_def reads_view by blast

interpretation access_panel: ui_contract "access_panel_view namespaces" access_panel_env
  "access_panel_handle cluster" "access_panel_inv namespaces" "access_panel_ok cluster namespaces"
  for cluster namespaces
proof
  fix s e f
  assume inv: "access_panel_inv namespaces s"
    and e: "fires (access_panel_view namespaces s) e \<or> access_panel_env s e"
  then show "access_panel_inv namespaces (fst (access_panel_handle cluster s e))"
    by (cases e) (auto simp: access_panel_inv_def dest: access_panel_fires)
  assume "f \<in> set (snd (access_panel_handle cluster s e))"
  then show "access_panel_ok cluster namespaces s f" by (cases e) auto
qed

text \<open>Every edit takes the verdict away.\<close>

lemma edit_clears:
  "sm_result (fst (simulator_handle s (AS_user v))) = None"
  "sm_result (fst (simulator_handle s (AS_verb v))) = None"
  "sm_result (fst (simulator_handle s (AS_namespace v))) = None"
  "v \<noteq> ''__custom__'' \<Longrightarrow> sm_result (fst (simulator_handle s (AS_resource v))) = None"
  "sm_result (fst (simulator_handle s (AS_custom v))) = None"
  "sm_result (fst (simulator_handle s (AS_api_group v))) = None"
  by simp_all

section \<open>Properties\<close>

text \<open>Any run only sends checks with the right to write, of the request on display, with a user, a verb of
  the list and a resource of the list or the custom one.\<close>

theorem simulator_checks:
  assumes "ui_run (simulator_view w nss) simulator_env simulator_handle simulator_init log s"
    and "(s', f) \<in> set log"
  shows "simulator_ok w s' f"
proof -
  have "simulator_inv simulator_init"
    by (simp add: simulator_inv_def simulator_init_def COMMON_VERBS_def COMMON_RESOURCES_def)
  from simulator.run_ok [OF assms(1) this assms(2)] show ?thesis .
qed

definition stale_run :: "simulator_event list" where
  "stale_run = [AS_user ''ann'', AS_check, AS_user ''bob'', AS_answer (Some (True, []))]"

lemma trim_ann: "js_trim ''ann'' = ''ann''"
proof -
  have "plain_char (CHR ''a'') \<and> plain_char (CHR ''n'')" by (simp add: plain_char_def ws_seqs_def)
  then show ?thesis by (intro js_trim_plain) simp_all
qed

lemma stale_run_playable: "playable (simulator_view True []) simulator_env simulator_handle simulator_init stale_run"
  by (simp add: stale_run_def simulator_init_def simulator_view_def effectiveResource_def trim_ann)

text \<open>A verdict can name the wrong user: in some run the only request ever sent asks about one user, and
  the panel ends by stating, of another user, that the access is allowed.\<close>

theorem stale_verdict:
  "\<exists>log s q. ui_run (simulator_view True []) simulator_env simulator_handle simulator_init log s \<and>
     map snd log = [UseCheckAccess q] \<and> ca_user q = ''ann'' \<and>
     verdict s = Some (True, ''bob'', ''get'', ''pods'', None)"
proof -
  let ?q = "check_request (simulator_init\<lparr>sm_user := ''ann''\<rparr>)"
  have sent: "map snd (play_log simulator_handle simulator_init stale_run) = [UseCheckAccess ?q]"
    by (simp add: stale_run_def simulator_init_def effectiveResource_def trim_ann)
  have user: "ca_user ?q = ''ann''" by (simp add: check_request_def trim_ann)
  have shown: "verdict (play simulator_handle simulator_init stale_run) = Some (True, ''bob'', ''get'', ''pods'', None)"
    by (simp add: stale_run_def simulator_init_def verdict_def effectiveResource_def trim_ann or_undef_def truthy_def)
  show ?thesis
    by (rule exI, rule exI, rule exI, rule conjI [OF ui_run_play [OF stale_run_playable] conjI [OF sent conjI [OF user shown]]])
qed

text \<open>The table shows what was searched for: an entry is shown exactly when its subject contains the
  search text, up to the case of the letters, and it is of the chosen kind, if one is chosen; the
  shown entries keep the order of the answer, each with its row; the notice instead of the table
  appears exactly when none is shown, and the last line counts the shown entries and all of them.\<close>

theorem access_table_shows:
  assumes "np_entries s = Ready es"
  shows "let shown = [e \<leftarrow> es. (\<exists>before after. toLowerCase (ae_subject e) = before @ toLowerCase (np_search s) @ after) \<and>
      (ae_subject_kind e = np_kind s \<or> np_kind s = [])] in
    access_table s = (if shown = [] then NoEntries else Rows (map access_row shown)) \<and>
    access_footer s = (length shown, length es, np_namespace s)"
proof -
  have part: "(\<exists>before after. t = before @ u @ after) \<longleftrightarrow> string_includes t u" for t u
    by (auto simp: string_includes_def sublist_def)
  have "filtered s = [e \<leftarrow> es. string_includes (toLowerCase (ae_subject e)) (toLowerCase (np_search s)) \<and>
      (ae_subject_kind e = np_kind s \<or> np_kind s = [])]"
    using assms by (auto simp: filtered_def np_data_def string_includes_def toLowerCase_def intro!: filter_cong)
  with assms show ?thesis
    by (simp only: part Let_def access_table_def access_footer_def np_data_def fetched.case length_0_conv)
qed

definition access_entries :: "access_entry list" where
  "access_entries = [\<lparr>ae_subject = ''Bob'', ae_subject_kind = ''User'', ae_subject_namespace = None, ae_role = ''edit'',
     ae_role_kind = ''ClusterRole'', ae_binding = ''b'', ae_scope = ''cluster''\<rparr>]"

theorem access_table_shows_witness:
  "access_footer (access_panel_init\<lparr>np_entries := Ready access_entries, np_search := ''BO''\<rparr>) = (1, 1, ''default'')"
proof -
  let ?s = "access_panel_init\<lparr>np_entries := Ready access_entries, np_search := ''BO''\<rparr>"
  have b: "\<exists>before after. toLowerCase ''Bob'' = before @ toLowerCase ''BO'' @ after"
    by (rule exI [of _ "[]"], rule exI [of _ "''b''"]) code_simp
  have "np_entries ?s = Ready access_entries" by simp
  from access_table_shows [OF this] b show ?thesis
    by (simp add: Let_def access_entries_def access_panel_init_def)
qed

text \<open>The namespace of the table is the one the choice shows: on one cluster, whose list of namespaces
  has \<open>default\<close>, in every state a run of the panel reaches the select element shows the namespace the
  table was asked for; and a refresh is for that namespace of the active cluster.\<close>

theorem access_panel_namespace:
  assumes "ui_run (access_panel_view namespaces) access_panel_env (access_panel_handle cluster) access_panel_init log s"
    and "''default'' \<in> set namespaces"
  shows "select_shows (np_namespace s) namespaces = Some (np_namespace s) \<and>
    (\<forall>(s', f)\<in>set log. access_panel_ok cluster namespaces s' f)"
proof -
  have i: "access_panel_inv namespaces access_panel_init"
    using assms(2) by (simp add: access_panel_inv_def access_panel_init_def access_kinds_def)
  from access_panel.run_inv [OF assms(1) i] access_panel.run_ok [OF assms(1) i] show ?thesis
    by (auto simp: access_panel_inv_def select_agrees)
qed

definition team_run :: "access_panel_event list" where
  "team_run = [NP_namespace ''team-a'', NP_refresh]"

lemma team_run_playable:
  "playable (access_panel_view [''default'', ''team-a'']) access_panel_env (access_panel_handle ''prod'')
     access_panel_init team_run"
  by (simp add: team_run_def access_panel_view_def)

theorem access_panel_namespace_witness:
  "select_shows (np_namespace (play (access_panel_handle ''prod'') access_panel_init team_run)) [''default'', ''team-a''] =
     Some ''team-a''"
proof -
  have "np_namespace (play (access_panel_handle ''prod'') access_panel_init team_run) = ''team-a''"
    by (simp add: team_run_def)
  with access_panel_namespace [OF ui_run_play [OF team_run_playable]] show ?thesis by simp
qed

text \<open>On another cluster it is not: when the namespace chosen on one cluster does not exist on the next
  one, the panel goes on asking for it, while the select element shows the first namespace of the new
  cluster; and where that is its only one, no choice the user could make would be reported.\<close>

theorem switched_panel_stuck:
  "\<exists>log s q. ui_run (access_panel_view [''default'', ''team-a'']) access_panel_env (access_panel_handle ''prod'')
       access_panel_init log s \<and>
     select_shows (np_namespace s) [''default''] = Some ''default'' \<and>
     hooks ''test'' (HRbacQuery (UseNamespaceAccess (np_namespace s))) = Query q \<and>
     qh_call q = Rbac (RB_getNamespaceAccess ''team-a'') \<and> qh_enabled q \<and>
     (\<forall>x. \<not> select_changes (np_namespace s) [''default''] x)"
proof -
  let ?s = "play (access_panel_handle ''prod'') access_panel_init team_run"
  have n: "np_namespace ?s = ''team-a''" by (simp add: team_run_def)
  note ui_run_play [OF team_run_playable]
  moreover have "select_shows (np_namespace ?s) [''default''] = Some ''default''"
    "\<forall>x. \<not> select_changes (np_namespace ?s) [''default''] x"
    by (simp_all add: n select_shows_def select_changes_def)
  moreover obtain q where "hooks ''test'' (HRbacQuery (UseNamespaceAccess (np_namespace ?s))) = Query q"
    "qh_call q = Rbac (RB_getNamespaceAccess ''team-a'')" "qh_enabled q"
    by (simp add: n truthy_def)
  ultimately show ?thesis by blast
qed

end
