(* ===== verification/Tables.thy ===== *)
theory Tables
  imports Widgets Requests Wizard Admin
begin

text \<open>
  What the cells of the tables say where the text is computed: the badges of the audit log
  (\<^verbatim>\<open>pages/AuditLogPage.tsx\<close>, \<^verbatim>\<open>pages/DashboardPage.tsx\<close>), the rows of the access requests
  (\<^verbatim>\<open>pages/AccessRequestsPage.tsx\<close>), the roles of an account
  (\<^verbatim>\<open>components/admin/RoleAssignmentsModal.tsx\<close>) and the steps shown above the wizard
  (\<^verbatim>\<open>components/users/CreateUserWizard.tsx\<close>). How a date is written is the parameter \<open>locale_string\<close>.
\<close>

section \<open>The audit log\<close>

definition statusVariant :: "int \<Rightarrow> badge_variant" where
  "statusVariant status = (if status < 300 then BV_success else if status < 500 then BV_warning else BV_danger)"

definition methodVariant :: "string \<Rightarrow> badge_variant" where
  "methodVariant m =
     (if m = ''DELETE'' then BV_danger
      else if m = ''POST'' \<or> m = ''PUT'' \<or> m = ''PATCH'' then BV_info else BV_default)"

text \<open>Who did it: a missing or empty actor is unknown.\<close>

definition audit_actor :: "string option \<Rightarrow> string option \<Rightarrow> string" where
  "audit_actor actor role =
     (case actor of
        Some a \<Rightarrow> if truthy a then a @ (case role of Some r \<Rightarrow> if truthy r then '' ('' @ r @ '')'' else [] | None \<Rightarrow> [])
          else ''unknown''
      | None \<Rightarrow> ''unknown'')"

text \<open>The dashboard has its own copy of the badge and only replaces a missing actor.\<close>

definition recent_actor :: "string option \<Rightarrow> string" where
  "recent_actor actor = (case actor of Some a \<Rightarrow> a | None \<Rightarrow> ''unknown'')"

section \<open>Access requests\<close>

fun STATUS_VARIANT :: "access_request_status \<Rightarrow> badge_variant" where
  "STATUS_VARIANT Pending = BV_warning"
| "STATUS_VARIANT Approved = BV_success"
| "STATUS_VARIANT Denied = BV_danger"
| "STATUS_VARIANT Revoked = BV_danger"
| "STATUS_VARIANT Expired = BV_default"

text \<open>The separator is a middle dot (U+00B7) between two blanks, the dash an em dash (U+2014).\<close>

definition middle_dot :: string where
  "middle_dot = [CHR 0x20, CHR 0xC2, CHR 0xB7, CHR 0x20]"

definition scopeLabel :: "access_request \<Rightarrow> string" where
  "scopeLabel r = q_role_name r @ middle_dot @
     (case q_namespace r of Some n \<Rightarrow> if truthy n then n else ''cluster-wide'' | None \<Rightarrow> ''cluster-wide'')"

definition formatDate :: "(string \<Rightarrow> string) \<Rightarrow> string option \<Rightarrow> string" where
  "formatDate locale_string date =
     (case date of Some t \<Rightarrow> if truthy t then locale_string t else em_dash | None \<Rightarrow> em_dash)"

definition expires_cell :: "(string \<Rightarrow> string) \<Rightarrow> access_request \<Rightarrow> string" where
  "expires_cell locale_string r =
     (if q_status r = Approved then formatDate locale_string (q_expires_at r)
      else if q_status r = Pending then show_int (q_ttl_minutes r) @ '' min requested'' else em_dash)"

record request_row =
  rw_requester :: "string option"
  rw_target :: string
  rw_kind :: string
  rw_scope :: string
  rw_reason :: string
  rw_status :: "access_request_status \<times> badge_variant"
  rw_expires :: string

text \<open>The column of the requesters is there for those who review.\<close>

definition request_row :: "(string \<Rightarrow> string) \<Rightarrow> role option \<Rightarrow> access_request \<Rightarrow> request_row" where
  "request_row locale_string instanceRole r =
     \<lparr>rw_requester = (if is_privileged instanceRole then Some (q_requester r) else None),
      rw_target = q_target_username r,
      rw_kind = (if q_user_kind r = ''ServiceAccount'' then ''SA'' else ''User''),
      rw_scope = scopeLabel r, rw_reason = q_reason r,
      rw_status = (q_status r, STATUS_VARIANT (q_status r)), rw_expires = expires_cell locale_string r\<rparr>"

section \<open>Accounts\<close>

fun ROLE_BADGE :: "role \<Rightarrow> badge_variant" where
  "ROLE_BADGE Viewer = BV_default"
| "ROLE_BADGE Operator = BV_success"
| "ROLE_BADGE Approver = BV_warning"
| "ROLE_BADGE Admin = BV_info"

definition role_scope_label :: "string \<Rightarrow> string" where
  "role_scope_label scope = (if scope = INSTANCE_SCOPE then ''Instance settings'' else scope)"

definition role_rows :: "roles_modal \<Rightarrow> (string \<times> badge) list" where
  "role_rows s = map (\<lambda>(scope, r). (role_scope_label scope, badge_of (Some (ROLE_BADGE r)) False (role_string r)))
     (case rm_roles s of Some rs \<Rightarrow> rs | None \<Rightarrow> [])"

section \<open>The steps of the wizard\<close>

datatype step_mark = StepDone | StepCurrent | StepAhead

fun step_number :: "wizard_step \<Rightarrow> nat" where
  "step_number Step1 = 1"
| "step_number Step2 = 2"
| "step_number Step3 = 3"

definition StepIndicator :: "wizard_step \<Rightarrow> (string \<times> step_mark) list" where
  "StepIndicator current =
     map (\<lambda>(n, label). (label, if step_number current > n then StepDone
         else if step_number current = n then StepCurrent else StepAhead))
       [(1, ''Identity''), (2, ''Permissions''), (3, ''Done'')]"

section \<open>Lemmas\<close>

text \<open>The two tables name the actor alike, unless the actor is an empty text.\<close>

lemma actors_agree: "audit_actor actor None = recent_actor actor \<longleftrightarrow> actor \<noteq> Some []"
  by (auto simp: audit_actor_def recent_actor_def truthy_def split: option.splits)

text \<open>One step is the current one, those before it are done.\<close>

lemma one_current_step: "length (filter (\<lambda>x. snd x = StepCurrent) (StepIndicator s)) = 1"
  by (cases s) (simp_all add: StepIndicator_def)

lemma roles_listed: "length (role_rows s) = length (assigned_scopes s)"
  by (simp add: role_rows_def assigned_scopes_def split: option.split)

end
