(* ===== verification/Workspace.thy ===== *)
theory Workspace
  imports Users Clusters Session
begin

text \<open>
  Pages in a changing world. The theories of the pages fix the rights of the user and the answers of
  the queries for a run; here a page is put next to the two stores and the cache, all of which may
  change at any time: the session gets other roles, a list is fetched again, another cluster becomes
  active, by a choice in the top bar or because the top bar falls back to the local one
  (\<^verbatim>\<open>components/layout/TopBar.tsx\<close>). \<^verbatim>\<open>components/layout/Layout.tsx\<close> gives its outlet no key, so the page
  stays mounted, with its state, when the cluster changes.

  What the page sends goes through the hook (Hooks.thy), the API module (Api.thy) and the request
  interceptor (Client.thy), which adds the cluster that is active when the request leaves.
\<close>

section \<open>The world around a page\<close>

text \<open>\<open>wo_data c\<close>: the answers cached for the cluster \<open>c\<close>; \<open>wo_clusters\<close>: the list of clusters,
  when it is loaded.\<close>

record 'd world =
  wo_auth :: auth_store
  wo_active :: string
  wo_clusters :: "string list option"
  wo_data :: "string \<Rightarrow> 'd"

definition active_data :: "'d world \<Rightarrow> 'd" where
  "active_data w = wo_data w (wo_active w)"

definition may_write :: "'d world \<Rightarrow> bool" where
  "may_write w = can_write (wo_auth w) (wo_active w)"

definition top_bar_effect :: "'d world \<Rightarrow> 'd world" where
  "top_bar_effect w = w\<lparr>wo_active := cluster_fallback (wo_clusters w) (wo_active w)\<rparr>"

text \<open>A call on its way out, and the cluster the backend takes it for.\<close>

definition hook_configs :: "'d world \<Rightarrow> any_hook \<Rightarrow> config list" where
  "hook_configs w h =
     (case hooks (wo_active w) h of
        Mutation m \<Rightarrow> [request_interceptor (wo_active w) (as_token (wo_auth w)) (call_config (mh_call m))]
      | Query q \<Rightarrow> [])"

definition request_cluster :: "config \<Rightarrow> string" where
  "request_cluster cfg =
     (case map_of (rq_params (cf_request cfg)) ''cluster'' of Some (JStr c) \<Rightarrow> c | _ \<Rightarrow> ''local'')"

text \<open>An active cluster without a name counts as the local one.\<close>

definition or_local :: "string \<Rightarrow> string" where
  "or_local c = (if truthy c then c else ''local'')"

section \<open>A page in the world\<close>

record ('d, 's) workspace =
  wk_world :: "'d world"
  wk_page :: 's

datatype ('d, 'e) workspace_event = World "'d world" | InPage 'e

definition workspace_view ::
  "('d world \<Rightarrow> 's \<Rightarrow> 'e control list) \<Rightarrow> ('d, 's) workspace \<Rightarrow> ('d, 'e) workspace_event control list"
where
  "workspace_view render ws = embed InPage (render (wk_world ws) (wk_page ws))"

fun workspace_env ::
  "('d world \<Rightarrow> 's \<Rightarrow> 'e \<Rightarrow> bool) \<Rightarrow> ('d, 's) workspace \<Rightarrow> ('d, 'e) workspace_event \<Rightarrow> bool"
where
  "workspace_env penv ws (World w) = True"
| "workspace_env penv ws (InPage e) = penv (wk_world ws) (wk_page ws) e"

text \<open>\<open>resume w\<close>: what the render in a new world does to the state, where a part of the page is
  unmounted. The effect of the top bar runs after the render.\<close>

fun workspace_handle ::
  "('d world \<Rightarrow> 's \<Rightarrow> 's) \<Rightarrow> ('s \<Rightarrow> 'e \<Rightarrow> 's \<times> 'f list) \<Rightarrow>
   ('d, 's) workspace \<Rightarrow> ('d, 'e) workspace_event \<Rightarrow> ('d, 's) workspace \<times> 'f list"
where
  "workspace_handle resume handle ws (World w) =
     (let v = top_bar_effect w in (\<lparr>wk_world = v, wk_page = resume v (wk_page ws)\<rparr>, []))"
| "workspace_handle resume handle ws (InPage e) =
     (let (s, fs) = handle (wk_page ws) e in (\<lparr>wk_world = wk_world ws, wk_page = s\<rparr>, fs))"

text \<open>A history in which the cluster \<open>c\<close> stays active.\<close>

definition steady :: "string \<Rightarrow> ('d, 'e) workspace_event list \<Rightarrow> bool" where
  "steady c es \<longleftrightarrow> list_all (\<lambda>e. case e of World w \<Rightarrow> wo_active (top_bar_effect w) = c | InPage b \<Rightarrow> True) es"

text \<open>A history in which the dialog stays open with what it was opened for.\<close>

definition still_open :: "('e \<Rightarrow> 'a gate_event) \<Rightarrow> ('d, 'e) workspace_event list \<Rightarrow> bool" where
  "still_open ev es \<longleftrightarrow> list_all (\<lambda>e. case e of World w \<Rightarrow> True
     | InPage b \<Rightarrow> (case ev b of Confirm \<Rightarrow> True | Other \<Rightarrow> True | _ \<Rightarrow> False)) es"

section \<open>Lemmas\<close>

lemma play_append: "play h s (es @ es') = play h (play h s es) es'"
  by (induction es arbitrary: s) simp_all

lemma playable_append:
  "playable v n h s (es @ es') \<longleftrightarrow> playable v n h s es \<and> playable v n h (play h s es) es'"
  by (induction es arbitrary: s) auto

lemma play_log_split:
  "(s', f) \<in> set (play_log h s es) \<Longrightarrow>
   \<exists>es1 e es2. es = es1 @ e # es2 \<and> s' = play h s es1 \<and> f \<in> set (snd (h s' e))"
proof (induction es arbitrary: s)
  case (Cons e es)
  then consider "s' = s" "f \<in> set (snd (h s e))" | "(s', f) \<in> set (play_log h (fst (h s e)) es)" by auto
  then show ?case
  proof cases
    case 1
    then show ?thesis by (intro exI [of _ "[]"]) simp
  next
    case 2
    from Cons.IH [OF this] obtain es1 e' es2 where
      "es = es1 @ e' # es2" "s' = play h (fst (h s e)) es1" "f \<in> set (snd (h s' e'))" by blast
    then show ?thesis by (intro exI [of _ "e # es1"]) simp
  qed
qed simp

lemma steady_simps [simp]:
  "steady c []"
  "steady c (World w # es) \<longleftrightarrow> wo_active (top_bar_effect w) = c \<and> steady c es"
  "steady c (InPage b # es) \<longleftrightarrow> steady c es"
  by (simp_all add: steady_def)

lemma still_open_simps [simp]:
  "still_open ev []"
  "still_open ev (es @ es') \<longleftrightarrow> still_open ev es \<and> still_open ev es'"
  "still_open ev (World w # es) \<longleftrightarrow> still_open ev es"
  "still_open ev (InPage b # es) \<longleftrightarrow> (ev b = Confirm \<or> ev b = Other) \<and> still_open ev es"
  by (auto simp: still_open_def split: gate_event.splits)

lemma workspace_world [simp]:
  "wk_world (fst (workspace_handle resume handle ws (InPage e))) = wk_world ws"
  "wk_page (fst (workspace_handle resume handle ws (InPage e))) = fst (handle (wk_page ws) e)"
  "snd (workspace_handle resume handle ws (InPage e)) = snd (handle (wk_page ws) e)"
  by (simp_all add: split_beta)

lemma steady_active:
  "steady c es \<Longrightarrow> wo_active (wk_world ws) = c \<Longrightarrow>
   wo_active (wk_world (play (workspace_handle resume handle) ws es)) = c"
proof (induction es arbitrary: ws)
  case (Cons e es)
  then show ?case by (cases e) (simp_all add: Let_def split_beta)
qed simp

lemma fires_workspace [simp]:
  "fires (workspace_view render ws) e \<longleftrightarrow> (\<exists>b. e = InPage b \<and> fires (render (wk_world ws) (wk_page ws)) b)"
  by (simp add: workspace_view_def fires_embed)

text \<open>No API module sets the parameter itself, so every call is for the active cluster.\<close>

lemma no_cluster_param: "map_of (rq_params (api_request c)) ''cluster'' = None"
proof (cases c)
  case (AccessRequests x) then show ?thesis by (cases x) (simp_all add: req_def)
next case (AdminApi x) then show ?thesis by (cases x) (simp_all add: req_def)
next case (Audit x) then show ?thesis by (cases x) (simp_all add: req_def)
next case (ClusterApi x) then show ?thesis by (cases x) (simp_all add: req_def)
next case (Permissions x) then show ?thesis by (cases x) (simp_all add: req_def)
next case (Rbac x) then show ?thesis by (cases x) (simp_all add: req_def cursor_param_def split: option.split)
next case (Tokens x) then show ?thesis by (cases x) (simp_all add: req_def)
next case (Users x) then show ?thesis by (cases x) (simp_all add: req_def)
next case (Vault x) then show ?thesis by (cases x) (simp_all add: req_def)
qed (simp_all add: req_def my_link_request_def kubeconfig_request_def)

lemma request_cluster_added:
  "map_of (rq_params (cf_request cfg)) ''cluster'' = None \<Longrightarrow>
   request_cluster (request_interceptor c t cfg) = or_local c"
  by (auto simp: request_cluster_def request_interceptor_def or_local_def Let_def
      map_of_obj_set truthy_def split: option.splits)

lemma interceptor_keeps:
  "rq_method (cf_request (request_interceptor c t cfg)) = rq_method (cf_request cfg)"
  "rq_path (cf_request (request_interceptor c t cfg)) = rq_path (cf_request cfg)"
  by (simp_all add: request_interceptor_def Let_def split: option.splits)

lemma hook_configs_sent:
  assumes "cfg \<in> set (hook_configs w h)"
  shows "\<exists>m. hooks (wo_active w) h = Mutation m \<and> request_cluster cfg = or_local (wo_active w) \<and>
    rq_method (cf_request cfg) = rq_method (api_request (mh_call m)) \<and>
    rq_path (cf_request cfg) = rq_path (api_request (mh_call m))"
proof -
  from assms obtain m where m: "hooks (wo_active w) h = Mutation m"
    and cfg: "cfg = request_interceptor (wo_active w) (as_token (wo_auth w)) (call_config (mh_call m))"
    by (cases "hooks (wo_active w) h") (auto simp: hook_configs_def)
  have "cf_request (call_config (mh_call m)) = api_request (mh_call m)" by (simp add: call_config_def)
  with m show ?thesis unfolding cfg by (simp add: interceptor_keeps request_cluster_added no_cluster_param)
qed

text \<open>The other parameters of a request are those of the call.\<close>

definition param :: "config \<Rightarrow> string \<Rightarrow> jsval option" where
  "param cfg k = map_of (rq_params (cf_request cfg)) k"

lemma hook_configs_param:
  assumes "cfg \<in> set (hook_configs w h)"
  shows "\<exists>m. hooks (wo_active w) h = Mutation m \<and>
    (\<forall>k. k \<noteq> ''cluster'' \<longrightarrow> param cfg k = map_of (rq_params (api_request (mh_call m))) k)"
proof -
  from assms obtain m where m: "hooks (wo_active w) h = Mutation m"
    and cfg: "cfg = request_interceptor (wo_active w) (as_token (wo_auth w)) (call_config (mh_call m))"
    by (cases "hooks (wo_active w) h") (auto simp: hook_configs_def)
  have "param cfg k = map_of (rq_params (api_request (mh_call m))) k" if "k \<noteq> ''cluster''" for k
    using that by (auto simp: param_def cfg request_interceptor_def call_config_def Let_def map_of_obj_set split: option.split)
  with m show ?thesis by blast
qed

section \<open>Pages that confirm\<close>

text \<open>The interface of a page with a confirmed operation, whatever happens around it: \<open>target\<close> is what
  the dialog is open for, \<open>ev\<close> what an event is to the dialog, \<open>ef\<close> what an effect does to such
  objects, \<open>offered\<close> which of them the page offers.\<close>

locale confirmed_page =
  fixes render :: "'d world \<Rightarrow> 's \<Rightarrow> 'e control list" and penv :: "'d world \<Rightarrow> 's \<Rightarrow> 'e \<Rightarrow> bool"
    and handle :: "'s \<Rightarrow> 'e \<Rightarrow> 's \<times> 'f list" and resume :: "'d world \<Rightarrow> 's \<Rightarrow> 's"
    and target :: "'s \<Rightarrow> 'a option" and ev :: "'e \<Rightarrow> 'a gate_event" and ef :: "'f \<Rightarrow> 'a list"
    and offered :: "'d world \<Rightarrow> 'a \<Rightarrow> bool"
  assumes resume_target: "target (resume w s) = target s"
    and asks: "fires (render w s) e \<or> penv w s e \<Longrightarrow> ev e = Ask x \<Longrightarrow> offered w x"
    and keeps: "fires (render w s) e \<or> penv w s e \<Longrightarrow> target (fst (handle s e)) = Some x \<Longrightarrow>
      ev e = Ask x \<or> target s = Some x \<and> (ev e = Confirm \<or> ev e = Other)"
    and sends: "fires (render w s) e \<or> penv w s e \<Longrightarrow> f \<in> set (snd (handle s e)) \<Longrightarrow> x \<in> set (ef f) \<Longrightarrow>
      target s = Some x \<and> ev e = Confirm"
begin

abbreviation view :: "('d, 's) workspace \<Rightarrow> ('d, 'e) workspace_event control list" where
  "view \<equiv> workspace_view render"

abbreviation env :: "('d, 's) workspace \<Rightarrow> ('d, 'e) workspace_event \<Rightarrow> bool" where
  "env \<equiv> workspace_env penv"

abbreviation step :: "('d, 's) workspace \<Rightarrow> ('d, 'e) workspace_event \<Rightarrow> ('d, 's) workspace \<times> 'f list" where
  "step \<equiv> workspace_handle resume handle"

lemma asked:
  assumes "playable view env step ws es" "target (wk_page ws) = None"
    and "target (wk_page (play step ws es)) = Some x"
  shows "\<exists>es1 a es2. es = es1 @ InPage a # es2 \<and> ev a = Ask x \<and> still_open ev es2 \<and>
    offered (wk_world (play step ws es1)) x"
  using assms
proof (induction es arbitrary: x rule: rev_induct)
  case (snoc e es)
  let ?ws = "play step ws es"
  have IH: ?case if "target (wk_page ?ws) = Some x" "still_open ev [e]"
  proof -
    from snoc.IH [of x] snoc.prems that(1) obtain es1 a es2 where
      "es = es1 @ InPage a # es2" "ev a = Ask x" "still_open ev es2"
      "offered (wk_world (play step ws es1)) x"
      by (auto simp: playable_append)
    with that(2) show ?thesis by (intro exI [of _ es1] exI [of _ a] exI [of _ "es2 @ [e]"]) simp
  qed
  show ?case
  proof (cases e)
    case (World w)
    with snoc.prems IH show ?thesis by (simp add: play_append Let_def resume_target)
  next
    case (InPage b)
    with snoc.prems(1) have b: "fires (render (wk_world ?ws) (wk_page ?ws)) b \<or> penv (wk_world ?ws) (wk_page ?ws) b"
      by (simp add: playable_append)
    from snoc.prems(3) InPage have "target (fst (handle (wk_page ?ws) b)) = Some x"
      by (simp add: play_append del: workspace_handle.simps)
    from keeps [OF b this] show ?thesis
    proof
      assume "ev b = Ask x"
      with asks [OF b this] InPage show ?thesis by (intro exI [of _ es] exI [of _ b] exI [of _ "[]"]) simp
    next
      assume "target (wk_page ?ws) = Some x \<and> (ev b = Confirm \<or> ev b = Other)"
      with InPage IH show ?thesis by simp
    qed
  qed
qed simp

text \<open>Every operation was asked for and confirmed, and the dialog was open for it all the while; when
  the active cluster stayed the same as well, it is the one the page offered the operation for.\<close>

lemma confirmed:
  assumes "playable view env step ws es" "target (wk_page ws) = None"
    and "(ws', f) \<in> set (play_log step ws es)" "x \<in> set (ef f)"
  shows "\<exists>es1 a es2 b es3. es = es1 @ InPage a # es2 @ InPage b # es3 \<and> ev a = Ask x \<and> ev b = Confirm \<and>
    still_open ev es2 \<and> offered (wk_world (play step ws es1)) x \<and>
    (steady (wo_active (wk_world (play step ws es1))) es2 \<longrightarrow>
      wo_active (wk_world ws') = wo_active (wk_world (play step ws es1)))"
proof -
  from play_log_split [OF assms(3)] obtain before e after where
    es: "es = before @ e # after" and ws': "ws' = play step ws before" and f: "f \<in> set (snd (step ws' e))"
    by blast
  from f obtain b where e: "e = InPage b" by (cases e) (simp_all add: Let_def)
  from assms(1) have p: "playable view env step ws before"
    and b: "fires (render (wk_world ws') (wk_page ws')) b \<or> penv (wk_world ws') (wk_page ws') b"
    by (auto simp: es e ws' playable_append)
  from f have "f \<in> set (snd (handle (wk_page ws') b))" by (simp add: e del: workspace_handle.simps)
  from sends [OF b this assms(4)] have x: "target (wk_page ws') = Some x" and c: "ev b = Confirm" by auto
  from asked [OF p assms(2) x [unfolded ws']] obtain es1 a es2 where
    before: "before = es1 @ InPage a # es2" and a: "ev a = Ask x" and op: "still_open ev es2"
    and off: "offered (wk_world (play step ws es1)) x" by blast
  have "wo_active (wk_world ws') = wo_active (wk_world (play step ws es1))"
    if "steady (wo_active (wk_world (play step ws es1))) es2"
    unfolding ws' before play_append play.simps
    by (rule steady_active [OF that]) (simp del: workspace_handle.simps)
  with before a op off c show ?thesis
    by (intro exI [of _ es1] exI [of _ a] exI [of _ es2] exI [of _ b] exI [of _ after]) (simp add: es e)
qed

end

text \<open>A page whose dialog is the machine of Gate.thy has the contract.\<close>

locale gate_page =
  fixes render :: "'d world \<Rightarrow> 's \<Rightarrow> 'e control list" and penv :: "'d world \<Rightarrow> 's \<Rightarrow> 'e \<Rightarrow> bool"
    and handle :: "'s \<Rightarrow> 'e \<Rightarrow> 's \<times> 'f list" and resume :: "'d world \<Rightarrow> 's \<Rightarrow> 's"
    and target :: "'s \<Rightarrow> 'a option" and ev :: "'e \<Rightarrow> 'a gate_event" and ef :: "'f \<Rightarrow> 'a list"
    and offered :: "'d world \<Rightarrow> 'a \<Rightarrow> bool"
  assumes gate_resume: "target (resume w s) = target s"
    and gate_asks: "fires (render w s) e \<or> penv w s e \<Longrightarrow> ev e = Ask x \<Longrightarrow> offered w x"
    and simulates: "fires (render w s) e \<or> penv w s e \<Longrightarrow>
      gate_handle (target s) (ev e) = (target (fst (handle s e)), concat (map ef (snd (handle s e))))"

sublocale gate_page \<subseteq> confirmed_page
proof
  fix w s e x f
  assume e: "fires (render w s) e \<or> penv w s e"
  note sim = simulates [OF e]
  show "offered w x" if "ev e = Ask x" using e that by (rule gate_asks)
  show "ev e = Ask x \<or> target s = Some x \<and> (ev e = Confirm \<or> ev e = Other)"
    if "target (fst (handle s e)) = Some x"
    using sim that by (cases "ev e") (auto split: option.splits)
  show "target s = Some x \<and> ev e = Confirm" if "f \<in> set (snd (handle s e))" "x \<in> set (ef f)"
  proof -
    from that have "x \<in> set (snd (gate_handle (target s) (ev e)))" unfolding sim by auto
    then show ?thesis by (cases "ev e") (auto split: option.splits)
  qed
qed (rule gate_resume)

section \<open>The users page in the world\<close>

text \<open>The list is unmounted while the users of the new cluster load; the rest of the page stays.\<close>

definition users_render ::
  "(string \<Rightarrow> string \<Rightarrow> int) \<Rightarrow> (string \<Rightarrow> int) \<Rightarrow> users_data world \<Rightarrow> users_page \<Rightarrow> users_page_event control list"
where
  "users_render collate time_of w s = users_page_view collate time_of (may_write w) (active_data w) s"

definition users_resume :: "users_data world \<Rightarrow> users_page \<Rightarrow> users_page" where
  "users_resume w s = (case ud_users (active_data w) of Ready us \<Rightarrow> s | _ \<Rightarrow> s\<lparr>us_list := user_list_init\<rparr>)"

text \<open>What an effect of the page puts on the wire: the first transmission of a call. When the backend refuses
  it with a 401, the client may send it once more after a token refresh (Client.thy), for the cluster
  that is active by then (\<open>replay_uses_active_cluster\<close>).\<close>

fun users_wire :: "users_data world \<Rightarrow> users_page_effect \<Rightarrow> config list" where
  "users_wire w (UsersCall h) = hook_configs w (HUsers h)"
| "users_wire w _ = []"

abbreviation users_step where
  "users_step \<equiv> workspace_handle users_resume users_page_handle"

abbreviation users_start :: "users_data world \<Rightarrow> (users_data, users_page) workspace" where
  "users_start w \<equiv> \<lparr>wk_world = w, wk_page = users_page_init\<rparr>"

lemma asks_delete:
  "delete_event e = Ask p \<longleftrightarrow> (\<exists>u. e = US_list (UL_delete u) \<and> p = delete_payload u)"
proof (cases e)
  case (US_list l)
  then show ?thesis by (cases l) auto
qed auto

lemma confirms_delete: "delete_event e = Confirm \<longleftrightarrow> e = US_confirm"
proof (cases e)
  case (US_list l)
  then show ?thesis by (cases l) auto
qed auto

interpretation users_ws: gate_page "users_render collate time_of" "\<lambda>w. users_page_env" users_page_handle
  users_resume delete_target delete_event deleted "\<lambda>w. may_delete (may_write w) (active_data w)"
  for collate time_of
proof
  fix w s e x
  show "delete_target (users_resume w s) = delete_target s"
    by (simp add: delete_target_def users_resume_def split: fetched.split)
  assume e: "fires (users_render collate time_of w s) e \<or> users_page_env s e"
  then show "gate_handle (delete_target s) (delete_event e) =
      (delete_target (fst (users_page_handle s e)), concat (map deleted (snd (users_page_handle s e))))"
    by (intro users_page_gates)
  assume "delete_event e = Ask x"
  then obtain u where u: "e = US_list (UL_delete u)" "x = delete_payload u" by (auto simp: asks_delete)
  from e show "may_delete (may_write w) (active_data w) x"
    unfolding u users_render_def
    by (auto simp: may_delete_def listed_user_def dest!: users_page_fires user_list_fires)
qed

lemma users_wire_delete:
  assumes "cfg \<in> set (users_wire w f)" "rq_method (cf_request cfg) = DELETE"
  shows "\<exists>p. deleted f = [p] \<and> rq_path (cf_request cfg) = path_of [''users'', du_username p] \<and>
    param cfg ''user_type'' = Some (JStr (user_type_string (du_user_type p))) \<and>
    param cfg ''namespace'' = Some (JStr (case du_namespace p of None \<Rightarrow> ''default'' | Some n \<Rightarrow> n)) \<and>
    request_cluster cfg = or_local (wo_active w)"
proof -
  from assms(1) obtain h where f: "f = UsersCall h" "cfg \<in> set (hook_configs w (HUsers h))" by (cases f) auto
  from hook_configs_sent [OF f(2)] hook_configs_param [OF f(2)] assms(2) show ?thesis
    by (cases h) (auto simp: f(1) req_def)
qed

section \<open>The roles page in the world\<close>

definition roles_render :: "rbac_data world \<Rightarrow> rbac_page \<Rightarrow> rbac_page_event control list" where
  "roles_render w s = rbac_page_view (may_write w) (active_data w) s"

definition roles_penv :: "rbac_data world \<Rightarrow> rbac_page \<Rightarrow> rbac_page_event \<Rightarrow> bool" where
  "roles_penv w s e = rbac_page_env (active_data w) s e"

fun roles_wire :: "rbac_data world \<Rightarrow> rbac_page_effect \<Rightarrow> config list" where
  "roles_wire w (Mutate m) = hook_configs w (HRbac m)"
| "roles_wire w _ = []"

text \<open>What is deleted: whether a cluster role, and its name.\<close>

definition role_target :: "rbac_page \<Rightarrow> (bool \<times> string) option" where
  "role_target s = map_option (\<lambda>(r, ic). (ic, rr_name r)) (rp_delete_target s)"

fun role_event :: "rbac_page_event \<Rightarrow> (bool \<times> string) gate_event" where
  "role_event (RP_ask_delete ic r) = Ask (ic, rr_name r)"
| "role_event RP_cancel_delete = Cancel"
| "role_event RP_confirm_delete = Confirm"
| "role_event _ = Other"

fun roles_deleted :: "rbac_page_effect \<Rightarrow> (bool \<times> string) list" where
  "roles_deleted (Mutate (UseDeleteClusterRole n)) = [(True, n)]"
| "roles_deleted (Mutate (UseDeleteRole ns n)) = [(False, n)]"
| "roles_deleted _ = []"

definition listed_roles :: "rbac_data \<Rightarrow> bool \<Rightarrow> role_read list" where
  "listed_roles d ic = (case (if ic then rd_cluster_roles d else rd_roles d) of Ready rs \<Rightarrow> rs | _ \<Rightarrow> [])"

definition may_delete_role :: "rbac_data world \<Rightarrow> bool \<times> string \<Rightarrow> bool" where
  "may_delete_role w x \<longleftrightarrow> may_write w \<and>
     (\<exists>r\<in>set (listed_roles (active_data w) (fst x)). \<not> rr_is_system r \<and> rr_name r = snd x)"

abbreviation roles_step where
  "roles_step \<equiv> workspace_handle (\<lambda>w s. s) rbac_page_handle"

abbreviation roles_start :: "rbac_data world \<Rightarrow> (rbac_data, rbac_page) workspace" where
  "roles_start w \<equiv> \<lparr>wk_world = w, wk_page = rbac_page_init\<rparr>"

lemma role_actions_delete:
  "fires (role_actions w ic f) (RP_ask_delete ic' r) \<Longrightarrow>
   w \<and> ic' = ic \<and> \<not> rr_is_system r \<and> (\<exists>rs. f = Ready rs \<and> r \<in> set rs)"
  by (auto simp: role_actions_def fires_map split: fetched.splits if_splits)

lemma roles_view_delete:
  "fires (rbac_page_view w d s) (RP_ask_delete ic r) \<Longrightarrow>
   w \<and> \<not> rr_is_system r \<and> r \<in> set (listed_roles d ic)"
  by (auto simp: rbac_page_view_def listed_roles_def fires_map dest!: role_actions_delete
      split: rbac_tab.splits if_splits)

interpretation roles_ws: confirmed_page roles_render roles_penv rbac_page_handle "\<lambda>w s. s"
  role_target role_event roles_deleted may_delete_role
proof
  fix w s e x f
  assume e: "fires (roles_render w s) e \<or> roles_penv w s e"
  show "may_delete_role w x" if "role_event e = Ask x"
  proof -
    from that obtain ic r where r: "e = RP_ask_delete ic r" "x = (ic, rr_name r)" by (cases e) auto
    from e show ?thesis
      unfolding r roles_render_def roles_penv_def by (auto simp: may_delete_role_def dest!: roles_view_delete)
  qed
  show "role_event e = Ask x \<or> role_target s = Some x \<and> (role_event e = Confirm \<or> role_event e = Other)"
    if "role_target (fst (rbac_page_handle s e)) = Some x"
    using that by (cases e) (auto simp: role_target_def confirmDelete_def split: option.splits)
  show "role_target s = Some x \<and> role_event e = Confirm"
    if "f \<in> set (snd (rbac_page_handle s e))" "x \<in> set (roles_deleted f)"
    using that
    by (cases e) (auto simp: role_target_def confirmDelete_def page_save_def Let_def split: option.splits if_splits)
qed simp

lemma roles_wire_delete:
  assumes "cfg \<in> set (roles_wire w f)" "rq_method (cf_request cfg) = DELETE"
    and "\<forall>u r ns. f \<noteq> Mutate (UseRevokeRole u r ns)"
  shows "\<exists>x. roles_deleted f = [x] \<and> request_cluster cfg = or_local (wo_active w)"
proof -
  from assms(1) obtain m where f: "f = Mutate m" "cfg \<in> set (hook_configs w (HRbac m))" by (cases f) auto
  from hook_configs_sent [OF f(2)] assms(2,3) show ?thesis
    by (cases m) (auto simp: f(1) req_def)
qed

section \<open>The tokens page in the world\<close>

text \<open>The tables are the answers for the active cluster.\<close>

type_synonym tokens_data = "history_entry list option \<times> sa_token list option"

definition with_tables :: "tokens_data world \<Rightarrow> tokens_page \<Rightarrow> tokens_page" where
  "with_tables w s = s\<lparr>tp_history := fst (active_data w), tp_sa_tokens := snd (active_data w)\<rparr>"

definition tokens_render :: "tokens_data world \<Rightarrow> tokens_page \<Rightarrow> tokens_event control list" where
  "tokens_render w s = tokens_view (may_write w) (with_tables w s)"

fun tokens_penv :: "tokens_data world \<Rightarrow> tokens_page \<Rightarrow> tokens_event \<Rightarrow> bool" where
  "tokens_penv w s (TP_history h) = False"
| "tokens_penv w s (TP_sa_tokens ts) = False"
| "tokens_penv w s e = tokens_env s e"

fun tokens_wire :: "tokens_data world \<Rightarrow> tokens_effect \<Rightarrow> config list" where
  "tokens_wire w (TokenSend h) = hook_configs w (HTokens h)"
| "tokens_wire w (RefreshTokens k) = []"

fun listed_action :: "tokens_data \<Rightarrow> token_action \<Rightarrow> bool" where
  "listed_action d ClearAll \<longleftrightarrow> fst d \<noteq> None \<and> fst d \<noteq> Some []"
| "listed_action d (DeleteEntry i) \<longleftrightarrow> (\<exists>es. fst d = Some es \<and> i \<in> he_id ` set es)"
| "listed_action d (RevokeToken n ns) \<longleftrightarrow>
     (\<exists>ts. snd d = Some ts \<and> (n, ns) \<in> (\<lambda>t. (st_secret_name t, st_namespace t)) ` set ts)"
| "listed_action d (RotateToken n sa ns) \<longleftrightarrow>
     (\<exists>ts. snd d = Some ts \<and> (n, sa, ns) \<in> (\<lambda>t. (st_secret_name t, st_sa_name t, st_namespace t)) ` set ts)"

definition may_act :: "tokens_data world \<Rightarrow> token_action \<Rightarrow> bool" where
  "may_act w a \<longleftrightarrow> may_write w \<and> listed_action (active_data w) a"

abbreviation tokens_step where
  "tokens_step \<equiv> workspace_handle with_tables tokens_handle"

abbreviation tokens_start :: "tokens_data world \<Rightarrow> (tokens_data, tokens_page) workspace" where
  "tokens_start w \<equiv> \<lparr>wk_world = w, wk_page = tokens_page_init\<rparr>"

lemma tokens_view_asks:
  assumes "fires (tokens_view w s) e" "token_event op e = Ask a"
  shows "w \<and> listed_action (tp_history s, tp_sa_tokens s) a"
  using assms
  by (cases e; cases op)
    (auto simp: token_event_def tokens_view_def history_view_def sa_tokens_view_def token_dialogs_def
      fires_map fires_concat_map image_iff split: option.splits if_splits)

interpretation tokens_ws: gate_page tokens_render tokens_penv tokens_handle with_tables
  "token_target op" "token_event op" "token_done op" may_act
  for op
proof
  fix w s e x
  show "token_target op (with_tables w s) = token_target op s"
    by (cases op) (simp_all add: with_tables_def)
  assume e: "fires (tokens_render w s) e \<or> tokens_penv w s e"
  have "tp_clear s" if "e = TP_clear"
    using e that tokens_fires [of "may_write w" "with_tables w s" e]
    by (auto simp: tokens_render_def with_tables_def)
  then show "gate_handle (token_target op s) (token_event op e) =
      (token_target op (fst (tokens_handle s e)), concat (map (token_done op) (snd (tokens_handle s e))))"
    by (rule tokens_step_refines)
  assume ask: "token_event op e = Ask x"
  have "\<not> tokens_penv w s e"
    using ask by (cases e) (auto simp: token_event_def split: if_splits)
  with e have "fires (tokens_view (may_write w) (with_tables w s)) e" by (simp add: tokens_render_def)
  from tokens_view_asks [OF this ask] show "may_act w x" by (simp add: may_act_def with_tables_def)
qed

section \<open>Properties\<close>

text \<open>C7. Deletions go where they were asked for: whatever happens to the session, the clusters and the
  cached lists during a run of the users page, every DELETE request it puts on the wire is for a user
  whose row asked for it and whose dialog stayed open until it was confirmed: the path has the name of
  that user, the parameters have the type and the namespace. That user was listed on the cluster active
  at the time of the asking, where the user of the page could write; and the request goes to that very
  cluster, provided the active cluster did not change while the dialog was open. (This is about the first
  transmission: after a token refresh the client sends a call again, to the cluster active by then.)\<close>

theorem deletions_where_asked:
  assumes "playable (workspace_view (users_render collate time_of)) (workspace_env (\<lambda>w. users_page_env))
      users_step (users_start w0) es"
    and "(ws, f) \<in> set (play_log users_step (users_start w0) es)"
    and "cfg \<in> set (users_wire (wk_world ws) f)" and "rq_method (cf_request cfg) = DELETE"
  shows "\<exists>es1 u es2 es3. es = es1 @ InPage (US_list (UL_delete u)) # es2 @ InPage US_confirm # es3 \<and>
    still_open delete_event es2 \<and>
    (let w = wk_world (play users_step (users_start w0) es1) in
     may_write w \<and> listed_user (active_data w) u \<and>
     rq_path (cf_request cfg) = path_of [''users'', u_name u] \<and>
     param cfg ''user_type'' = Some (JStr (user_type_string (u_user_type u))) \<and>
     param cfg ''namespace'' = Some (JStr (u_namespace u)) \<and>
     (steady (wo_active w) es2 \<longrightarrow> request_cluster cfg = or_local (wo_active w)))"
proof -
  from users_wire_delete [OF assms(3,4)] obtain p where p: "p \<in> set (deleted f)"
    "rq_path (cf_request cfg) = path_of [''users'', du_username p]"
    "param cfg ''user_type'' = Some (JStr (user_type_string (du_user_type p)))"
    "param cfg ''namespace'' = Some (JStr (case du_namespace p of None \<Rightarrow> ''default'' | Some n \<Rightarrow> n))"
    "request_cluster cfg = or_local (wo_active (wk_world ws))" by auto
  have "delete_target (wk_page (users_start w0)) = None" by (simp add: delete_target_def users_page_init_def)
  from users_ws.confirmed [OF assms(1) this assms(2) p(1)] obtain es1 u es2 es3 where
    es: "es = es1 @ InPage (US_list (UL_delete u)) # es2 @ InPage US_confirm # es3" and u: "p = delete_payload u"
    and rest: "still_open delete_event es2" "steady (wo_active (wk_world (play users_step (users_start w0) es1))) es2 \<longrightarrow>
      wo_active (wk_world ws) = wo_active (wk_world (play users_step (users_start w0) es1))"
    unfolding asks_delete confirms_delete by blast
  let ?ws = "play users_step (users_start w0) es1"
  from assms(1) have "fires (users_render collate time_of (wk_world ?ws) (wk_page ?ws)) (US_list (UL_delete u))"
    by (auto simp: es playable_append)
  then have "may_write (wk_world ?ws) \<and> listed_user (active_data (wk_world ?ws)) u"
    unfolding users_render_def by (auto simp: listed_user_def dest!: users_page_fires user_list_fires)
  with es rest p(2-5) show ?thesis unfolding Let_def u delete_payload_def by fastforce
qed

definition demo_bob :: user where
  "demo_bob = \<lparr>u_name = ''bob'', u_user_type = Certificate, u_groups = [], u_namespace = ''default'',
     u_created_at = [], u_cert_expiry = None, u_csr_name = None\<rparr>"

text \<open>A world with bob on \<open>prod\<close> and nobody on \<open>local\<close>, for a list of clusters.\<close>

definition prod_world :: "string list \<Rightarrow> users_data world" where
  "prod_world clusters = \<lparr>wo_auth = set_auth \<lparr>au_username = ''eve'', au_roles = [(''prod'', Admin)]\<rparr> ''t'' auth_init,
     wo_active = ''prod'', wo_clusters = Some clusters,
     wo_data = (\<lambda>c. \<lparr>ud_users = Ready (if c = ''prod'' then [demo_bob] else []), ud_unmanaged = []\<rparr>)\<rparr>"

definition deletion_around :: "(users_data, users_page_event) workspace_event list \<Rightarrow>
    (users_data, users_page_event) workspace_event list" where
  "deletion_around es = InPage (US_list (UL_delete demo_bob)) # es @ [InPage US_confirm]"

lemma prod_world_simps [simp]:
  "wo_active (prod_world cs) = ''prod''" "wo_clusters (prod_world cs) = Some cs"
  "may_write (prod_world cs)" "as_token (wo_auth (prod_world cs)) = Some ''t''"
  "active_data (prod_world cs) = \<lparr>ud_users = Ready [demo_bob], ud_unmanaged = []\<rparr>"
  by (simp_all add: prod_world_def may_write_def active_data_def store_defs)

lemma bob_row: "fires (users_render collate time_of (prod_world cs) users_page_init) (US_list (UL_delete demo_bob))"
proof -
  have "demo_bob \<in> set (user_list_rows collate time_of user_list_init [demo_bob])"
    by (simp add: user_list_rows_def user_list_sorted_def page_slice_def user_list_init_def js_slice_def user_page_size_def)
  then show ?thesis
    by (force simp: users_render_def users_page_view_def fires_embed user_list_view_def fires_concat_map
        fires_map user_row_view_def users_page_init_def)
qed

lemma dialog_confirms:
  "us_to_delete s \<noteq> None \<Longrightarrow> \<not> us_deleting s \<Longrightarrow> fires (users_render collate time_of w s) US_confirm"
  unfolding users_render_def users_page_view_def fires_delete_user_modal reads_view by blast

lemma deletion_around_world:
  assumes "es = [] \<or> es = [World v]"
  shows "playable (workspace_view (users_render collate time_of)) (workspace_env (\<lambda>w. users_page_env))
      users_step (users_start (prod_world cs)) (deletion_around es)"
    and "\<exists>ws. (ws, UsersCall (UseDeleteUser (delete_payload demo_bob))) \<in>
        set (play_log users_step (users_start (prod_world cs)) (deletion_around es)) \<and>
      wk_world ws = (if es = [] then prod_world cs else top_bar_effect v)"
  using assms bob_row [of collate time_of cs]
  by (auto simp: deletion_around_def users_page_init_def Let_def users_resume_def handleDelete_def
      intro!: dialog_confirms split: fetched.split)

lemma deletion_sent:
  "\<exists>cfg. cfg \<in> set (users_wire w (UsersCall (UseDeleteUser (delete_payload demo_bob)))) \<and>
     rq_method (cf_request cfg) = DELETE \<and> rq_path (cf_request cfg) = ''/users/bob'' \<and>
     request_cluster cfg = or_local (wo_active w)"
proof -
  obtain cfg where cfg: "cfg \<in> set (hook_configs w (HUsers (UseDeleteUser (delete_payload demo_bob))))"
    by (simp add: hook_configs_def mutation_def)
  from hook_configs_sent [OF this] cfg show ?thesis
    by (auto simp: req_def path_of_def delete_payload_def demo_bob_def)
qed

theorem deletions_where_asked_witness:
  "\<exists>ws f cfg. (ws, f) \<in> set (play_log users_step (users_start (prod_world [''local'', ''prod''])) (deletion_around [])) \<and>
     cfg \<in> set (users_wire (wk_world ws) f) \<and> rq_method (cf_request cfg) = DELETE \<and>
     (\<exists>w u. may_write w \<and> listed_user (active_data w) u \<and> rq_path (cf_request cfg) = path_of [''users'', u_name u] \<and>
       param cfg ''namespace'' = Some (JStr (u_namespace u)))"
proof -
  note run = deletion_around_world [of "[]", OF disjI1 [OF refl]]
  from run(2) obtain ws where ws: "(ws, UsersCall (UseDeleteUser (delete_payload demo_bob))) \<in>
      set (play_log users_step (users_start (prod_world [''local'', ''prod''])) (deletion_around []))" by blast
  obtain cfg where cfg: "cfg \<in> set (users_wire (wk_world ws) (UsersCall (UseDeleteUser (delete_payload demo_bob))))"
    "rq_method (cf_request cfg) = DELETE" using deletion_sent by blast
  from deletions_where_asked [OF run(1) ws cfg] ws cfg show ?thesis unfolding Let_def by blast
qed

text \<open>How a deletion reaches another cluster: while the dialog for bob of \<open>prod\<close> is open, \<open>prod\<close> is
  removed from the instance elsewhere and the list of clusters is fetched again. The top bar falls
  back to the local cluster without a word, the dialog stays, and confirming it deletes bob of the
  local cluster, where the page never listed him.\<close>

theorem fallback_redirects_deletion:
  "\<exists>ws f cfg. (let es = deletion_around [World (prod_world [''local''])];
       start = users_start (prod_world [''local'', ''prod'']) in
     playable (workspace_view (users_render collate time_of)) (workspace_env (\<lambda>w. users_page_env)) users_step start es \<and>
     (ws, f) \<in> set (play_log users_step start es) \<and> cfg \<in> set (users_wire (wk_world ws) f) \<and>
     rq_method (cf_request cfg) = DELETE \<and> rq_path (cf_request cfg) = ''/users/bob'' \<and>
     request_cluster cfg = ''local'' \<and> ud_users (wo_data (prod_world [''local'']) ''local'') = Ready [])"
proof -
  let ?v = "prod_world [''local'']"
  note run = deletion_around_world [of "[World ?v]" ?v, OF disjI2 [OF refl]]
  from run(2) obtain ws where ws: "(ws, UsersCall (UseDeleteUser (delete_payload demo_bob))) \<in>
      set (play_log users_step (users_start (prod_world [''local'', ''prod''])) (deletion_around [World ?v]))"
    "wk_world ws = top_bar_effect ?v" by auto
  have "or_local (wo_active (wk_world ws)) = ''local''"
    by (simp add: ws(2) top_bar_effect_def cluster_fallback_def or_local_def truthy_def)
  moreover have "ud_users (wo_data ?v ''local'') = Ready []" by (simp add: prod_world_def)
  moreover from deletion_sent [of "wk_world ws"] obtain cfg where
    "cfg \<in> set (users_wire (wk_world ws) (UsersCall (UseDeleteUser (delete_payload demo_bob))))"
    "rq_method (cf_request cfg) = DELETE" "rq_path (cf_request cfg) = ''/users/bob''"
    "request_cluster cfg = or_local (wo_active (wk_world ws))" by blast
  ultimately show ?thesis unfolding Let_def using run(1) ws(1) by metis
qed

text \<open>The same holds of the tokens page, for each of its four operations: what is sent was asked for on
  a table of the then active cluster, by a user who could write there, its dialog stayed open, and it
  goes to that cluster when the active one did not change meanwhile.\<close>

theorem token_operations_where_asked:
  assumes "playable (workspace_view tokens_render) (workspace_env tokens_penv) tokens_step (tokens_start w0) es"
    and "(ws, TokenSend h) \<in> set (play_log tokens_step (tokens_start w0) es)"
    and "cfg \<in> set (tokens_wire (wk_world ws) (TokenSend h))"
  shows "\<exists>es1 a e es2 b es3. es = es1 @ InPage e # es2 @ InPage b # es3 \<and> h = token_call a \<and>
    token_event (op_of a) e = Ask a \<and> token_event (op_of a) b = Confirm \<and> still_open (token_event (op_of a)) es2 \<and>
    (let w = wk_world (play tokens_step (tokens_start w0) es1) in
     may_write w \<and> listed_action (active_data w) a \<and>
     (steady (wo_active w) es2 \<longrightarrow> request_cluster cfg = or_local (wo_active w)))"
proof -
  from hook_configs_sent [of cfg "wk_world ws" "HTokens h"] assms(3)
  have c: "request_cluster cfg = or_local (wo_active (wk_world ws))"
    and "\<exists>m. hooks (wo_active (wk_world ws)) (HTokens h) = Mutation m" by auto
  then obtain a where h: "h = token_call a" by (cases h) (auto intro: token_call.simps [symmetric])
  then have "a \<in> set (token_done (op_of a) (TokenSend h))" by (simp add: token_done_def sent_action_call)
  moreover have "token_target (op_of a) (wk_page (tokens_start w0)) = None"
    by (cases a) (simp_all add: tokens_page_init_def)
  ultimately show ?thesis
    using tokens_ws.confirmed [OF assms(1) _ assms(2), of "op_of a" a] h c
    unfolding Let_def may_act_def by metis
qed

definition history_world :: "tokens_data world" where
  "history_world = \<lparr>wo_auth = set_auth \<lparr>au_username = ''eve'', au_roles = [(''prod'', Operator)]\<rparr> ''t'' auth_init,
     wo_active = ''prod'', wo_clusters = None,
     wo_data = (\<lambda>c. (Some [\<lparr>he_id = ''1'', he_user = ''bob'', he_user_type = ''certificate'',
       he_namespace = ''default'', he_generated_at = []\<rparr>], None))\<rparr>"

theorem token_operations_where_asked_witness:
  "\<exists>ws h cfg a w. (ws, TokenSend h) \<in>
      set (play_log tokens_step (tokens_start history_world) [InPage TP_ask_clear, InPage TP_clear]) \<and>
     cfg \<in> set (tokens_wire (wk_world ws) (TokenSend h)) \<and> h = token_call a \<and> may_write w \<and>
     listed_action (active_data w) a"
proof -
  let ?es = "[InPage TP_ask_clear, InPage TP_clear]"
  have run: "playable (workspace_view tokens_render) (workspace_env tokens_penv) tokens_step
      (tokens_start history_world) ?es"
    by (simp add: tokens_render_def tokens_view_def with_tables_def history_view_def token_dialogs_def
        history_world_def may_write_def active_data_def store_defs tokens_page_init_def)
  obtain ws where ws: "(ws, TokenSend UseClearHistory) \<in> set (play_log tokens_step (tokens_start history_world) ?es)"
    by (auto simp: Let_def)
  obtain cfg where cfg: "cfg \<in> set (tokens_wire (wk_world ws) (TokenSend UseClearHistory))"
    by (simp add: hook_configs_def mutation_def)
  from token_operations_where_asked [OF run ws cfg] ws cfg show ?thesis unfolding Let_def by metis
qed

lemma roles_page_never_revokes:
  "f \<in> set (snd (rbac_page_handle s e)) \<Longrightarrow> f \<noteq> Mutate (UseRevokeRole u r ns)"
  by (cases e) (auto simp: confirmDelete_def page_save_def Let_def split: option.splits if_splits)

text \<open>The same holds of the roles page: every DELETE request that leaves it is for a role of the list of
  the then active cluster that is not a system role.\<close>

theorem role_deletions_where_asked:
  assumes "playable (workspace_view roles_render) (workspace_env roles_penv) roles_step (roles_start w0) es"
    and "(ws, f) \<in> set (play_log roles_step (roles_start w0) es)"
    and "cfg \<in> set (roles_wire (wk_world ws) f)" and "rq_method (cf_request cfg) = DELETE"
  shows "\<exists>es1 e x es2 b es3. es = es1 @ InPage e # es2 @ InPage b # es3 \<and> role_event e = Ask x \<and>
    role_event b = Confirm \<and> still_open role_event es2 \<and> roles_deleted f = [x] \<and>
    (let w = wk_world (play roles_step (roles_start w0) es1) in
     may_delete_role w x \<and> (steady (wo_active w) es2 \<longrightarrow> request_cluster cfg = or_local (wo_active w)))"
proof -
  from play_log_split [OF assms(2)] obtain es1 b where
    f: "f \<in> set (snd (roles_step (play roles_step (roles_start w0) es1) b))" by blast
  then have "\<forall>u r ns. f \<noteq> Mutate (UseRevokeRole u r ns)"
    by (cases b) (auto simp: Let_def split_beta dest: roles_page_never_revokes)
  from roles_wire_delete [OF assms(3,4) this] obtain x where x: "x \<in> set (roles_deleted f)"
    "roles_deleted f = [x]" "request_cluster cfg = or_local (wo_active (wk_world ws))" by auto
  have "role_target (wk_page (roles_start w0)) = None" by (simp add: role_target_def rbac_page_init_def)
  from roles_ws.confirmed [OF assms(1) this assms(2) x(1)] x(2,3) show ?thesis unfolding Let_def by metis
qed

end
