(* ===== verification/Reports.thy ===== *)
theory Reports
  imports Hooks
begin

text \<open>
  What becomes of a change: a component calls \<open>mutate\<close> of a hook (Hooks.thy), the hook makes one
  call through the client (Client.thy), and when the promise of that call is settled the hook runs
  its \<open>onSuccess\<close> or its \<open>onError\<close> with the error the client rejected with. The client, with its
  token refresh, and the hooks are composed here; the text of an error is its \<open>message\<close>
  (\<open>format_api_error\<close> of ApiError.thy, or the error of axios when a refresh failed).
\<close>

section \<open>Settling a mutation\<close>

fun error_text :: "outcome \<Rightarrow> string option" where
  "error_text Resolved = None"
| "error_text (RejectedApi e) = Some (e_message e)"
| "error_text (RejectedRaw err) = Some (x_message err)"

definition settle_effects :: "mutation_hook \<Rightarrow> outcome \<Rightarrow> hook_effect list" where
  "settle_effects m r = (case error_text r of None \<Rightarrow> mh_success m | Some message \<Rightarrow> mh_error m message)"

section \<open>Mutations over the client\<close>

text \<open>\<open>mu_ledger\<close>: which call a mutation made; the calls of the queries are not in it. \<open>mu_answers\<close>: what the
  network answered to a call, an error or not, one entry for each time it was sent.\<close>

record mutations =
  mu_client :: client_state
  mu_ledger :: "(nat \<times> mutation_hook) list"
  mu_answers :: "(nat \<times> axios_error option) list"

definition mutations_init :: "auth_store \<Rightarrow> string \<Rightarrow> mutations" where
  "mutations_init a c = \<lparr>mu_client = client_init a c, mu_ledger = [], mu_answers = []\<rparr>"

definition mutate :: "mutation_hook \<Rightarrow> mutations \<Rightarrow> mutations" where
  "mutate m s = s\<lparr>mu_client := issue (mh_call m) (mu_client s),
     mu_ledger := mu_ledger s @ [(next_id (mu_client s), m)]\<rparr>"

definition heard :: "nat \<Rightarrow> axios_error option \<Rightarrow> client_state \<Rightarrow> mutations \<Rightarrow> mutations" where
  "heard i x t s = s\<lparr>mu_client := t, mu_answers := mu_answers s @ [(i, x)]\<rparr>"

text \<open>The steps of the client (\<open>client_step\<close>), with the answers of the network written down.\<close>

inductive mutations_step :: "mutations \<Rightarrow> mutations \<Rightarrow> bool" where
  ms_mutate: "hooks (active_cluster (mu_client s)) h = Mutation m \<Longrightarrow> mutations_step s (mutate m s)"
| ms_ok: "(i, cfg) \<in> set (in_flight (mu_client s)) \<Longrightarrow>
     mutations_step s (heard i None (on_response i cfg (mu_client s)) s)"
| ms_error: "(i, cfg) \<in> set (in_flight (mu_client s)) \<Longrightarrow>
     mutations_step s (heard i (Some err) (on_response_error i cfg err (mu_client s)) s)"
| ms_refreshed: "refresher (mu_client s) = Some w \<Longrightarrow>
     mutations_step s (s\<lparr>mu_client := on_refresh_ok t w (mu_client s)\<rparr>)"
| ms_refresh_failed: "refresher (mu_client s) = Some w \<Longrightarrow>
     mutations_step s (s\<lparr>mu_client := on_refresh_error w (mu_client s)\<rparr>)"
| ms_query: "mutations_step s (s\<lparr>mu_client := issue c (mu_client s)\<rparr>)"
| ms_auth: "mutations_step s (s\<lparr>mu_client := (mu_client s)\<lparr>auth := a\<rparr>\<rparr>)"
| ms_cluster: "mutations_step s (s\<lparr>mu_client := (mu_client s)\<lparr>active_cluster := cl\<rparr>\<rparr>)"

inductive_cases mutations_stepE: "mutations_step s t"

definition answers_of :: "nat \<Rightarrow> mutations \<Rightarrow> axios_error option list" where
  "answers_of i s = map snd (filter (\<lambda>x. fst x = i) (mu_answers s))"

text \<open>The outcomes a mutation got, and the toasts its hook showed for them.\<close>

definition outcomes_of :: "nat \<Rightarrow> mutations \<Rightarrow> outcome list" where
  "outcomes_of i s = map snd (filter (\<lambda>x. fst x = i) (settled (mu_client s)))"

section \<open>Lemmas\<close>

lemma mutations_client: "mutations_step s t \<Longrightarrow> client_step (mu_client s) (mu_client t)"
  by (erule mutations_step.cases)
    (auto simp: mutate_def heard_def intro: cs_issue cs_auth cs_cluster cs_network network_step.intros)

text \<open>What a call is settled with is its last answer: an error in the words of the backend, or after a
  failed refresh the error of status 401 that made the client refresh.\<close>

definition settled_by :: "axios_error option list \<Rightarrow> outcome \<Rightarrow> bool" where
  "settled_by xs r \<longleftrightarrow> xs \<noteq> [] \<and>
     (case r of
        Resolved \<Rightarrow> last xs = None
      | RejectedApi e \<Rightarrow> (\<exists>err. last xs = Some err \<and> e = format_api_error err)
      | RejectedRaw err \<Rightarrow> last xs = Some err \<and> error_status err = Some 401)"

definition rejections_inv :: "mutations \<Rightarrow> bool" where
  "rejections_inv s \<longleftrightarrow>
     (\<forall>w\<in>set (waiting_all (mu_client s)). settled_by (answers_of (fst w) s) (RejectedRaw (snd (snd w)))) \<and>
     (\<forall>x\<in>set (settled (mu_client s)). settled_by (answers_of (fst x) s) (snd x))"

lemma rejections_init: "rejections_inv (mutations_init a c)"
  by (simp add: rejections_inv_def mutations_init_def client_init_def waiting_defs)

lemma answers_same: "mu_answers t = mu_answers s \<Longrightarrow> answers_of i t = answers_of i s"
  by (simp add: answers_of_def)

lemma answers_heard: "answers_of j (heard i x u s) = answers_of j s @ (if j = i then [x] else [])"
  by (simp add: answers_of_def heard_def)

lemma settled_by_heard:
  assumes "settled_by (answers_of j s) r" "j \<noteq> i"
  shows "settled_by (answers_of j (heard i x u s)) r"
  using assms by (simp add: answers_heard)

lemma in_flight_fresh:
  assumes "conserved s" "(i, cfg) \<in> set (in_flight s)"
  shows "w \<in> set (waiting_all s) \<Longrightarrow> fst w \<noteq> i" "y \<in> set (settled s) \<Longrightarrow> fst y \<noteq> i"
  using conserved_distinct [OF assms(1)] assms(2) by (force simp: all_ids_def)+

lemma rejections_client:
  assumes "mutations_step s t" "rejections_inv s" "conserved (mu_client s)"
  shows "rejections_inv t"
  using assms(1)
proof (cases rule: mutations_step.cases)
  case (ms_ok i cfg)
  note other = in_flight_fresh [OF assms(3) ms_ok(2)]
  have w: "waiting_all (mu_client t) = waiting_all (mu_client s)"
    and set: "settled (mu_client t) = settled (mu_client s) @ [(i, Resolved)]"
    by (simp_all add: ms_ok(1) heard_def waiting_defs on_response_def settle_def answered_def)
  have new: "settled_by (answers_of i t) Resolved" by (simp add: ms_ok(1) answers_heard settled_by_def)
  show ?thesis
    using assms(2) new other settled_by_heard [of _ s] unfolding rejections_inv_def w set unfolding ms_ok(1) by auto
next
  case (ms_error i cfg err)
  note other = in_flight_fresh [OF assms(3) ms_error(2)]
  have old: "settled_by (answers_of (fst w) t) (RejectedRaw (snd (snd w)))" if "w \<in> set (waiting_all (mu_client s))" for w
    using assms(2) that other(1) settled_by_heard [of "fst w" s] unfolding rejections_inv_def ms_error(1) by auto
  have olds: "settled_by (answers_of (fst y) t) (snd y)" if "y \<in> set (settled (mu_client s))" for y
    using assms(2) that other(2) settled_by_heard [of "fst y" s] unfolding rejections_inv_def ms_error(1) by auto
  have last: "answers_of i t \<noteq> []" "last (answers_of i t) = Some err" by (simp_all add: ms_error(1) answers_heard)
  consider (wait) w where "settled (mu_client t) = settled (mu_client s)" "fst w = i" "snd (snd w) = err"
      "error_status err = Some 401" "set (waiting_all (mu_client t)) \<subseteq> insert w (set (waiting_all (mu_client s)))"
    | (settle) "settled (mu_client t) = settled (mu_client s) @ [(i, RejectedApi (format_api_error err))]"
      "waiting_all (mu_client t) = waiting_all (mu_client s)"
  proof (cases "error_status err = Some 401 \<and> \<not> cf_retry cfg")
    case True
    show thesis
    proof (rule wait [of "(i, cfg\<lparr>cf_retry := True\<rparr>, err)"])
    qed (use True in \<open>auto simp: ms_error(1) heard_def on_response_error_def answered_def waiting_defs Let_def
        split: option.splits\<close>)
  next
    case False
    show thesis
      by (rule settle) (use False in \<open>auto simp: ms_error(1) heard_def on_response_error_def answered_def waiting_defs
        settle_def Let_def\<close>)
  qed
  then show ?thesis
  proof cases
    case wait
    with last have "settled_by (answers_of (fst w) t) (RejectedRaw (snd (snd w)))" by (simp add: settled_by_def)
    with wait(1,5) old olds show ?thesis unfolding rejections_inv_def by auto
  next
    case settle
    from last have "settled_by (answers_of i t) (RejectedApi (format_api_error err))" by (auto simp: settled_by_def)
    with settle old olds show ?thesis unfolding rejections_inv_def by auto
  qed
next
  case (ms_refreshed w t')
  have "answers_of i t = answers_of i s" for i by (simp add: answers_of_def ms_refreshed(1))
  with assms(2) ms_refreshed show ?thesis
    by (auto simp: rejections_inv_def waiting_defs on_refresh_ok_eq Let_def rejected_def)
next
  case (ms_refresh_failed w)
  have "answers_of i t = answers_of i s" for i by (simp add: answers_of_def ms_refresh_failed(1))
  with assms(2) ms_refresh_failed show ?thesis
    by (auto simp: rejections_inv_def waiting_defs on_refresh_error_eq rejected_def)
qed (use assms(2) in \<open>auto simp: mutate_def issue_def rejections_inv_def waiting_defs answers_of_def\<close>)

lemma client_next_id: "client_step s t \<Longrightarrow> next_id s \<le> next_id t"
  by (erule client_step.cases) (auto simp: network_next_id issue_def)

definition mutations_inv :: "mutations \<Rightarrow> bool" where
  "mutations_inv s \<longleftrightarrow> client_inv (mu_client s) \<and> rejections_inv s \<and>
     distinct (map fst (mu_ledger s)) \<and>
     (\<forall>(i, m)\<in>set (mu_ledger s). i < next_id (mu_client s) \<and> (\<exists>c h. hooks c h = Mutation m))"

interpretation mutations: safety mutations_step mutations_inv
proof
  fix s t
  assume inv: "mutations_inv s" and step: "mutations_step s t"
  note client = mutations_client [OF step]
  have c: "client_inv (mu_client t)" using client inv by (auto simp: mutations_inv_def intro: client.inv_step)
  moreover have "rejections_inv t"
    using rejections_client [OF step] inv by (simp add: mutations_inv_def client_inv_def)
  moreover have "mu_ledger t = mu_ledger s \<or> (\<exists>h m. hooks (active_cluster (mu_client s)) h = Mutation m \<and> t = mutate m s)"
    using step by (cases rule: mutations_step.cases) (auto simp: heard_def)
  then have "distinct (map fst (mu_ledger t)) \<and>
     (\<forall>(i, m)\<in>set (mu_ledger t). i < next_id (mu_client t) \<and> (\<exists>c h. hooks c h = Mutation m))"
  proof
    assume "mu_ledger t = mu_ledger s"
    with inv client_next_id [OF client] show ?thesis by (fastforce simp: mutations_inv_def)
  next
    assume "\<exists>h m. hooks (active_cluster (mu_client s)) h = Mutation m \<and> t = mutate m s"
    then obtain h m where "hooks (active_cluster (mu_client s)) h = Mutation m" "t = mutate m s" by blast
    moreover have "next_id (issue (mh_call m) (mu_client s)) = Suc (next_id (mu_client s))" by (simp add: issue_def)
    ultimately show ?thesis using inv by (fastforce simp: mutations_inv_def mutate_def)
  qed
  ultimately show "mutations_inv t" by (simp add: mutations_inv_def)
qed

lemma mutations_init_inv: "mutations_inv (mutations_init a c)"
  using rejections_init [of a c] by (simp add: mutations_inv_def) (simp add: mutations_init_def conserved_init)

lemma settled_distinct: "client_inv s \<Longrightarrow> distinct (map fst (settled s))"
  using conserved_distinct [of s] by (simp add: client_inv_def all_ids_def)

lemma filter_fst_distinct:
  "distinct (map fst xs) \<Longrightarrow> (i, r) \<in> set xs \<Longrightarrow> filter (\<lambda>x. fst x = i) xs = [(i, r)]"
  by (induction xs) (force simp: filter_empty_conv)+

lemma outcomes_at_most_one:
  assumes "mutations_inv s"
  shows "outcomes_of i s = [] \<or> (\<exists>r. outcomes_of i s = [r] \<and> (i, r) \<in> set (settled (mu_client s)))"
proof (cases "\<exists>r. (i, r) \<in> set (settled (mu_client s))")
  case True
  then obtain r where r: "(i, r) \<in> set (settled (mu_client s))" ..
  from assms have "distinct (map fst (settled (mu_client s)))"
    by (simp add: mutations_inv_def settled_distinct)
  from filter_fst_distinct [OF this r] r show ?thesis by (simp add: outcomes_of_def)
next
  case False
  then show ?thesis by (auto simp: outcomes_of_def filter_empty_conv)
qed

definition checks_access :: "mutation_hook \<Rightarrow> bool" where
  "checks_access m \<longleftrightarrow> (case mh_call m of Rbac (RB_checkAccess r) \<Rightarrow> True | _ \<Rightarrow> False)"

lemma mutation_failure:
  assumes "hooks c h = Mutation m"
  shows "mh_error m e = (if checks_access m then [] else [ToastError e]) \<and> ToastError e \<notin> set (mh_success m)"
  using assms
proof (cases h)
  case (HAccessRequests x) with assms show ?thesis by (cases x) (auto simp: checks_access_def)
next case (HAudit x) with assms show ?thesis by (cases x) (auto simp: checks_access_def)
next case (HCluster x) with assms show ?thesis by (cases x) (auto simp: checks_access_def)
next case (HLink x) with assms show ?thesis by (cases x) (auto simp: checks_access_def)
next case (HPermissions x) with assms show ?thesis by (cases x) (auto simp: checks_access_def)
next case (HRbacQuery x) with assms show ?thesis by (cases x) (auto simp: checks_access_def)
next case (HRbac x) with assms show ?thesis by (cases x) (auto simp: checks_access_def)
next case (HTokens x) with assms show ?thesis by (cases x) (auto simp: checks_access_def)
next case (HUsers x) with assms show ?thesis by (cases x) (auto simp: checks_access_def)
qed (auto simp: backend_health_hook_def generate_kubeconfig_hook_def checks_access_def)

section \<open>Properties\<close>


definition refused :: axios_error where
  "refused = \<lparr>x_message = ''Request failed'', x_response = Some \<lparr>r_status = 403,
     r_data = JObj [(''detail'', JStr ''not allowed'')]\<rparr>\<rparr>"


end
