(* ===== verification/Bindings.thy ===== *)
theory Bindings
  imports Grants "HOL-Library.AList"
begin

text \<open>
  What becomes of a grant and of a revocation: the endpoints of \<^verbatim>\<open>backend/app/routers/rbac.py\<close> that the
  permissions panel (Grants.thy) calls, over the part of \<^verbatim>\<open>backend/app/services/rbac_service.py\<close> that
  keeps a binding per user and role under a name made of the two, and the endpoints that create and
  delete a binding under any name. Errors are their status: the service lets every other status through.
\<close>

section \<open>The Kubernetes API\<close>

text \<open>The environment of the code, not the code: what the services rely on of the API they call. Its state
  is the bindings by name, the namespaces and the status every call is refused with, if any
  (\<open>kb_denied\<close>). A call is carried out or refused, with no effect then. A call on a binding that is not
  there is a 404, the creation of one that is there a 409. Which bindings the API accepts at all is the
  parameter \<open>kb_admits\<close> (it may refuse, say, a service account without a namespace): others are a 422.
  What a strategic merge patch makes of the old and the new subjects is the parameter \<open>merge\<close>.\<close>

text \<open>Of the labels and annotations of a binding: whether it has the label of a temporary grant, and the
  instant its expiry annotation denotes, if it has one that can be read.\<close>

record binding =
  bd_role_ref :: string
  bd_role_kind :: string
  bd_subjects :: "subject list"
  bd_jit :: bool
  bd_expires :: "int option"

abbreviation plain_binding :: "string \<Rightarrow> string \<Rightarrow> subject list \<Rightarrow> binding" where
  "plain_binding r kind subjects \<equiv>
     \<lparr>bd_role_ref = r, bd_role_kind = kind, bd_subjects = subjects, bd_jit = False, bd_expires = None\<rparr>"

text \<open>Cluster role bindings by name, role bindings by namespace and name.\<close>

record kube =
  kb_crbs :: "(string \<times> binding) list"
  kb_rbs :: "((string \<times> string) \<times> binding) list"
  kb_namespaces :: "string list"
  kb_denied :: "nat option"
  kb_admits :: "string \<Rightarrow> binding \<Rightarrow> bool"

definition kube_call :: "kube \<Rightarrow> nat + 'a \<Rightarrow> nat + 'a" where
  "kube_call k r = (case kb_denied k of Some st \<Rightarrow> Inl st | None \<Rightarrow> r)"

definition patched :: "(binding \<Rightarrow> bool) \<Rightarrow> (subject list \<Rightarrow> subject list \<Rightarrow> subject list) \<Rightarrow> 'k \<Rightarrow> subject list \<Rightarrow>
    ('k \<times> binding) list \<Rightarrow> nat + ('k \<times> binding) list" where
  "patched ok merge key subjects bs =
     (case map_of bs key of
        None \<Rightarrow> Inl 404
      | Some b \<Rightarrow> (let b' = b\<lparr>bd_subjects := merge (bd_subjects b) subjects\<rparr> in
          if ok b' then Inr (AList.update key b' bs) else Inl 422))"

definition created :: "(binding \<Rightarrow> bool) \<Rightarrow> 'k \<Rightarrow> binding \<Rightarrow> ('k \<times> binding) list \<Rightarrow> nat + ('k \<times> binding) list" where
  "created ok key b bs =
     (if \<not> ok b then Inl 422 else if key \<in> fst ` set bs then Inl 409 else Inr (bs @ [(key, b)]))"

definition removed :: "'k \<Rightarrow> ('k \<times> binding) list \<Rightarrow> nat + ('k \<times> binding) list" where
  "removed key bs = (if key \<in> fst ` set bs then Inr (AList.delete key bs) else Inl 404)"

definition on_crbs ::
  "((string \<times> binding) list \<Rightarrow> nat + (string \<times> binding) list) \<Rightarrow> kube \<Rightarrow> nat + kube"
where
  "on_crbs f k = kube_call k (map_sum id (\<lambda>bs. k\<lparr>kb_crbs := bs\<rparr>) (f (kb_crbs k)))"

definition on_rbs ::
  "(((string \<times> string) \<times> binding) list \<Rightarrow> nat + ((string \<times> string) \<times> binding) list) \<Rightarrow> kube \<Rightarrow> nat + kube"
where
  "on_rbs f k = kube_call k (map_sum id (\<lambda>bs. k\<lparr>kb_rbs := bs\<rparr>) (f (kb_rbs k)))"

text \<open>\<open>except ApiException\<close>: a 404 is handled, every other status raised again.\<close>

definition on_404 :: "nat + 'a \<Rightarrow> nat + 'a \<Rightarrow> nat + 'a" where
  "on_404 r handler = (case r of Inr x \<Rightarrow> Inr x | Inl st \<Rightarrow> if st = 404 then handler else Inl st)"

section \<open>services/rbac_service.py\<close>

definition binding_name :: "string \<Rightarrow> string \<Rightarrow> string" where
  "binding_name username role_name = ''clustervision-'' @ username @ ''-'' @ role_name"

definition ensure_namespace :: "string \<Rightarrow> kube \<Rightarrow> nat + kube" where
  "ensure_namespace ns k =
     kube_call k (Inr (if ns \<in> set (kb_namespaces k) then k else k\<lparr>kb_namespaces := kb_namespaces k @ [ns]\<rparr>))"

text \<open>\<open>jit\<close> and \<open>expires\<close> stand for \<open>extra_labels\<close> and \<open>extra_annotations\<close>.\<close>

definition create_cluster_role_binding ::
  "string \<Rightarrow> string \<Rightarrow> subject list \<Rightarrow> bool \<Rightarrow> int option \<Rightarrow> kube \<Rightarrow> nat + kube"
where
  "create_cluster_role_binding name role_name subjects jit expires k =
     on_crbs (created (kb_admits k name) name \<lparr>bd_role_ref = role_name, bd_role_kind = ''ClusterRole'', bd_subjects = subjects,
       bd_jit = jit, bd_expires = expires\<rparr>) k"

definition create_role_binding ::
  "string \<Rightarrow> string \<Rightarrow> string \<Rightarrow> string \<Rightarrow> subject list \<Rightarrow> bool \<Rightarrow> int option \<Rightarrow> kube \<Rightarrow> nat + kube"
where
  "create_role_binding ns name role_name role_kind subjects jit expires k =
     (case ensure_namespace ns k of
        Inl st \<Rightarrow> Inl st
      | Inr k' \<Rightarrow> on_rbs (created (kb_admits k' name) (ns, name)
          \<lparr>bd_role_ref = role_name, bd_role_kind = role_kind, bd_subjects = subjects,
            bd_jit = jit, bd_expires = expires\<rparr>) k')"

definition subject_kinds :: "string list" where
  "subject_kinds = [''User'', ''Group'', ''ServiceAccount'']"

text \<open>A kind that is none of these raises, which the framework answers with a 500.\<close>

definition assign_role ::
  "(subject list \<Rightarrow> subject list \<Rightarrow> subject list) \<Rightarrow> string \<Rightarrow> string \<Rightarrow> string \<Rightarrow> string \<Rightarrow>
   string option \<Rightarrow> string option \<Rightarrow> kube \<Rightarrow> nat + kube"
where
  "assign_role merge username user_kind role_name role_kind ns_opt sa_namespace k =
     (let subj = \<lparr>sb_kind = user_kind, sb_name = username, sb_namespace = sa_namespace\<rparr>;
          name = binding_name username role_name
      in if user_kind \<notin> set subject_kinds then Inl 500
         else if ns_opt = None \<and> role_kind = ''ClusterRole''
         then on_404 (on_crbs (patched (kb_admits k name) merge name [subj]) k) (create_cluster_role_binding name role_name [subj] False None k)
         else let ns = (case ns_opt of Some n \<Rightarrow> if truthy n then n else ''default'' | None \<Rightarrow> ''default'')
              in on_404 (on_rbs (patched (kb_admits k name) merge (ns, name) [subj]) k)
                   (create_role_binding ns name role_name role_kind [subj] False None k))"

definition revoke_role :: "string \<Rightarrow> string \<Rightarrow> string option \<Rightarrow> kube \<Rightarrow> nat + kube" where
  "revoke_role username role_name ns_opt k =
     (let name = binding_name username role_name in
      on_404 (case ns_opt of
          None \<Rightarrow> on_crbs (removed name) k
        | Some ns \<Rightarrow> on_rbs (removed (ns, name)) k) (Inr k))"

fun delete_each :: "(kube \<Rightarrow> nat + kube) list \<Rightarrow> kube \<Rightarrow> nat + kube" where
  "delete_each [] k = Inr k"
| "delete_each (d # ds) k = (case on_404 (d k) (Inr k) of Inl st \<Rightarrow> Inl st | Inr k' \<Rightarrow> delete_each ds k')"

definition delete_user_bindings :: "string \<Rightarrow> kube \<Rightarrow> nat + kube" where
  "delete_user_bindings username k =
     (let p = ''clustervision-'' @ username @ ''-'' in
      case kube_call k (delete_each
          (map (\<lambda>n. on_crbs (removed n)) [n \<leftarrow> map fst (kb_crbs k). prefix p n]) k) of
        Inl st \<Rightarrow> Inl st
      | Inr k' \<Rightarrow> kube_call k' (delete_each
          (map (\<lambda>n. on_rbs (removed n)) [n \<leftarrow> map fst (kb_rbs k'). prefix p (snd n)]) k'))"

definition names_user :: "string \<Rightarrow> binding \<Rightarrow> bool" where
  "names_user username b \<longleftrightarrow>
     (\<exists>s\<in>set (bd_subjects b). sb_name s = username \<and> sb_kind s \<in> {''User'', ''ServiceAccount''})"

definition cluster_bindings_for :: "string \<Rightarrow> kube \<Rightarrow> binding_read list" where
  "cluster_bindings_for username k =
     map (\<lambda>(n, b). \<lparr>b_name = n, b_namespace = None, b_role_ref = bd_role_ref b, b_role_kind = bd_role_kind b,
            b_subjects = bd_subjects b\<rparr>)
       (filter (\<lambda>(n, b). names_user username b) (kb_crbs k))"

definition namespace_bindings_for :: "string \<Rightarrow> kube \<Rightarrow> binding_read list" where
  "namespace_bindings_for username k =
     map (\<lambda>((ns, n), b). \<lparr>b_name = n, b_namespace = Some ns, b_role_ref = bd_role_ref b,
            b_role_kind = bd_role_kind b, b_subjects = bd_subjects b\<rparr>)
       (filter (\<lambda>(n, b). names_user username b) (kb_rbs k))"

definition get_user_permissions :: "string \<Rightarrow> kube \<Rightarrow> nat + user_permission_summary" where
  "get_user_permissions username k =
     kube_call k (Inr \<lparr>ps_username = username, cluster_bindings = cluster_bindings_for username k,
       namespace_bindings = namespace_bindings_for username k\<rparr>)"

section \<open>routers/rbac.py\<close>

text \<open>The endpoints behind the two mutations of the panel; a kind that is not sent is \<open>User\<close>. The other
  mutations of the hooks, about the roles themselves, have no answer here.\<close>

fun answer ::
  "(subject list \<Rightarrow> subject list \<Rightarrow> subject list) \<Rightarrow> rbac_mutation \<Rightarrow> kube \<Rightarrow> (nat + kube) option"
where
  "answer merge (UseAssignRole u a kind sa) k =
     Some (assign_role merge u (case kind of Some x \<Rightarrow> x | None \<Rightarrow> ''User'') (ar_role_name a) (ar_role_kind a)
       (ar_namespace a) sa k)"
| "answer merge (UseRevokeRole u r ns) k = Some (revoke_role u r ns k)"
| "answer merge m k = None"

text \<open>The endpoints that create and delete a binding under a name of the caller's choice, which no page
  calls: \<open>models/rbac.py\<close> and what the framework refuses of a payload with a 422. (Their answer to a
  creation does not fit the declared model, so that the framework turns it into a 500; the binding is
  made all the same.)\<close>

record binding_create =
  bc_name :: string
  bc_role_name :: string
  bc_role_kind :: string
  bc_subjects :: "subject list"
  bc_namespace :: "string option"

definition valid_binding :: "binding_create \<Rightarrow> bool" where
  "valid_binding p \<longleftrightarrow> bc_role_kind p \<in> {''ClusterRole'', ''Role''} \<and>
     list_all (\<lambda>s. sb_kind s \<in> set subject_kinds) (bc_subjects p)"

definition create_cluster_binding :: "binding_create \<Rightarrow> kube \<Rightarrow> nat + kube" where
  "create_cluster_binding p k =
     (if valid_binding p
      then create_cluster_role_binding (bc_name p) (bc_role_name p) (bc_subjects p) False None k else Inl 422)"

definition delete_cluster_binding :: "string \<Rightarrow> kube \<Rightarrow> nat + kube" where
  "delete_cluster_binding name k = on_crbs (removed name) k"

definition create_namespace_binding :: "string \<Rightarrow> binding_create \<Rightarrow> kube \<Rightarrow> nat + kube" where
  "create_namespace_binding ns p k =
     (if valid_binding p
      then create_role_binding ns (bc_name p) (bc_role_name p) (bc_role_kind p) (bc_subjects p) False None k else Inl 422)"

definition delete_namespace_binding :: "string \<Rightarrow> string \<Rightarrow> kube \<Rightarrow> nat + kube" where
  "delete_namespace_binding ns name k = on_rbs (removed (ns, name)) k"

section \<open>Lemmas\<close>

text \<open>The bindings as one table: cluster role bindings have no namespace.\<close>

fun lookup :: "kube \<Rightarrow> string option \<Rightarrow> string \<Rightarrow> binding option" where
  "lookup k None n = map_of (kb_crbs k) n"
| "lookup k (Some ns) n = map_of (kb_rbs k) (ns, n)"

text \<open>Where a grant goes.\<close>

definition granted_in :: "string option \<Rightarrow> string \<Rightarrow> string option" where
  "granted_in ns_opt role_kind =
     (if ns_opt = None \<and> role_kind = ''ClusterRole'' then None
      else Some (case ns_opt of Some n \<Rightarrow> if truthy n then n else ''default'' | None \<Rightarrow> ''default''))"

definition granted_kind :: "string option \<Rightarrow> string \<Rightarrow> string" where
  "granted_kind sc role_kind = (if sc = None then ''ClusterRole'' else role_kind)"

definition the_subject :: "string \<Rightarrow> string \<Rightarrow> string option \<Rightarrow> subject" where
  "the_subject username kind sa = \<lparr>sb_kind = kind, sb_name = username, sb_namespace = sa\<rparr>"

lemma kube_call_allowed [simp]: "kb_denied k = None \<Longrightarrow> kube_call k r = r"
  by (simp add: kube_call_def)

lemma kube_call_denied [simp]: "kb_denied k = Some st \<Longrightarrow> kube_call k r = Inl st"
  by (simp add: kube_call_def)

lemma map_of_created:
  assumes "map_of bs key = None"
  shows "map_of (bs @ [(key, b)]) = (map_of bs)(key \<mapsto> b)"
proof
  show "map_of (bs @ [(key, b)]) x = ((map_of bs)(key \<mapsto> b)) x" for x
    using assms by (simp add: map_add_def split: option.split)
qed

text \<open>What an assignment makes of the binding of its name.\<close>

definition granted_binding ::
  "(subject list \<Rightarrow> subject list \<Rightarrow> subject list) \<Rightarrow> binding option \<Rightarrow> string \<Rightarrow> string \<Rightarrow> subject \<Rightarrow> binding"
where
  "granted_binding merge old r kind subj =
     (case old of
        Some b \<Rightarrow> b\<lparr>bd_subjects := merge (bd_subjects b) [subj]\<rparr>
      | None \<Rightarrow> plain_binding r kind [subj])"

lemma upsert:
  assumes "b = granted_binding merge (map_of bs key) r kind subj"
  shows "if ok b
    then \<exists>h bs'. on_404 (map_sum id f (patched ok merge key [subj] bs))
        (map_sum id g (created ok key (plain_binding r kind [subj]) bs)) = Inr (h bs') \<and>
      h \<in> {f, g} \<and> map_of bs' = (map_of bs)(key \<mapsto> b)
    else on_404 (map_sum id f (patched ok merge key [subj] bs))
      (map_sum id g (created ok key (plain_binding r kind [subj]) bs)) = Inl 422"
proof (cases "map_of bs key")
  case None
  then have "key \<notin> fst ` set bs" by (simp add: map_of_eq_None_iff)
  with None map_of_created [OF None, of b] assms show ?thesis
    by (auto simp: patched_def created_def on_404_def granted_binding_def
        intro!: exI [of _ g] exI [of _ "bs @ [(key, b)]"])
next
  case (Some x)
  with assms show ?thesis
    by (auto simp: patched_def on_404_def update_conv' Let_def granted_binding_def
        intro!: exI [of _ f] exI [of _ "AList.update key b bs"])
qed

lemma assign_role_effect_aux:
  assumes "kb_denied k = None" "kind \<in> set subject_kinds" and sc: "sc = granted_in ns rk" and n: "n = binding_name u r"
    and b: "b = granted_binding merge (lookup k sc n) r (granted_kind sc rk) (the_subject u kind sa)"
  shows "if kb_admits k n b
    then \<exists>k'. assign_role merge u kind r rk ns sa k = Inr k' \<and> kb_denied k' = None \<and> kb_admits k' = kb_admits k \<and>
      (\<forall>sc' n'. lookup k' sc' n' = (if sc' = sc \<and> n' = n then Some b else lookup k sc' n'))
    else assign_role merge u kind r rk ns sa k = Inl 422"
proof (cases "ns = None \<and> rk = ''ClusterRole''")
  case True
  let ?f = "\<lambda>bs. k\<lparr>kb_crbs := bs\<rparr>" and ?s = "the_subject u kind sa"
  have b': "b = granted_binding merge (map_of (kb_crbs k) n) r ''ClusterRole'' ?s"
    using True b sc by (simp add: granted_in_def granted_kind_def)
  have r: "assign_role merge u kind r rk ns sa k =
      on_404 (map_sum id ?f (patched (kb_admits k n) merge n [?s] (kb_crbs k)))
        (map_sum id ?f (created (kb_admits k n) n (plain_binding r ''ClusterRole'' [?s]) (kb_crbs k)))"
    using True assms(1,2) n by (simp add: assign_role_def Let_def on_crbs_def create_cluster_role_binding_def the_subject_def)
  show ?thesis
  proof (cases "kb_admits k n b")
    case ok: True
    with upsert [OF b', of "kb_admits k n" ?f ?f] obtain bs' where
      "assign_role merge u kind r rk ns sa k = Inr (?f bs')" and m: "map_of bs' = (map_of (kb_crbs k))(n \<mapsto> b)"
      unfolding r by auto
    moreover have "lookup (?f bs') sc' n' = (if sc' = sc \<and> n' = n then Some b else lookup k sc' n')" for sc' n'
      using True sc by (cases sc') (simp_all add: m granted_in_def)
    ultimately show ?thesis using ok assms(1) by simp
  qed (use upsert [OF b', of "kb_admits k n" ?f ?f] r in simp)
next
  case False
  define ns' where "ns' = (case ns of Some n \<Rightarrow> if truthy n then n else ''default'' | None \<Rightarrow> ''default'')"
  have g: "sc = Some ns'" using False sc by (simp add: granted_in_def ns'_def)
  let ?s = "the_subject u kind sa"
  define k1 where "k1 = (if ns' \<in> set (kb_namespaces k) then k else k\<lparr>kb_namespaces := kb_namespaces k @ [ns']\<rparr>)"
  let ?f = "\<lambda>bs. k\<lparr>kb_rbs := bs\<rparr>" and ?g = "\<lambda>bs. k1\<lparr>kb_rbs := bs\<rparr>"
  have k1: "kb_denied k1 = None" "kb_rbs k1 = kb_rbs k" "kb_crbs k1 = kb_crbs k" "ensure_namespace ns' k = Inr k1"
    "kb_admits k1 = kb_admits k"
    using assms(1) by (simp_all add: k1_def ensure_namespace_def)
  have b': "b = granted_binding merge (map_of (kb_rbs k) (ns', n)) r rk ?s"
    using b by (simp add: g granted_kind_def)
  have r: "assign_role merge u kind r rk ns sa k =
      on_404 (map_sum id ?f (patched (kb_admits k n) merge (ns', n) [?s] (kb_rbs k)))
        (map_sum id ?g (created (kb_admits k n) (ns', n) (plain_binding r rk [?s]) (kb_rbs k)))"
    using assms(1,2) n
    unfolding assign_role_def Let_def if_not_P [OF False] ns'_def [symmetric]
    by (simp add: on_rbs_def create_role_binding_def the_subject_def k1)
  show ?thesis
  proof (cases "kb_admits k n b")
    case ok: True
    from upsert [OF b', of "kb_admits k n" ?f ?g] obtain h bs' where
      "assign_role merge u kind r rk ns sa k = Inr (h bs')" and h: "h \<in> {?f, ?g}"
      and m: "map_of bs' = (map_of (kb_rbs k))((ns', n) \<mapsto> b)"
      unfolding if_P [OF ok] by (elim exE conjE) (rule that, simp only: r)
    moreover have kh: "kb_denied (h bs') = None" "kb_rbs (h bs') = bs'" "kb_crbs (h bs') = kb_crbs k"
      "kb_admits (h bs') = kb_admits k"
      using h assms(1) k1 by auto
    moreover have "lookup (h bs') sc' n' = (if sc' = sc \<and> n' = n then Some b else lookup k sc' n')" for sc' n'
      unfolding g by (cases sc') (simp_all add: m kh)
    ultimately show ?thesis using ok by auto
  qed (use upsert [OF b', of "kb_admits k n" ?f ?g] r in simp)
qed

lemma revoke_role_eq:
  assumes "kb_denied k = None"
  shows "revoke_role u r ns k = Inr
    (case ns of
       None \<Rightarrow> k\<lparr>kb_crbs := [x \<leftarrow> kb_crbs k. fst x \<noteq> binding_name u r]\<rparr>
     | Some n \<Rightarrow> k\<lparr>kb_rbs := [x \<leftarrow> kb_rbs k. fst x \<noteq> (n, binding_name u r)]\<rparr>)"
proof -
  have del: "AList.delete key bs = [x \<leftarrow> bs. fst x \<noteq> key]" for key :: 'k and bs :: "('k \<times> binding) list"
    by (induction bs) auto
  have same: "[x \<leftarrow> bs. fst x \<noteq> key] = bs" if "key \<notin> fst ` set bs" for key :: 'k and bs :: "('k \<times> binding) list"
    using that by (auto simp: filter_id_conv)
  show ?thesis
    using assms
    by (auto simp: revoke_role_def Let_def on_404_def on_crbs_def on_rbs_def removed_def del same split: option.split)
qed

definition unmanaged_by :: "string \<Rightarrow> string \<Rightarrow> bool" where
  "unmanaged_by u n \<longleftrightarrow> \<not> prefix (''clustervision-'' @ u @ ''-'') n"

lemma delete_each_crbs:
  "kb_denied k = None \<Longrightarrow> delete_each (map (\<lambda>n. on_crbs (removed n)) ns) k =
     Inr (k\<lparr>kb_crbs := [x \<leftarrow> kb_crbs k. fst x \<notin> set ns]\<rparr>)"
proof (induction ns arbitrary: k)
  case (Cons n ns)
  have del: "AList.delete n bs = [x \<leftarrow> bs. fst x \<noteq> n]" for bs :: "(string \<times> binding) list"
    by (induction bs) auto
  have "on_404 (on_crbs (removed n) k) (Inr k) = Inr (k\<lparr>kb_crbs := [x \<leftarrow> kb_crbs k. fst x \<noteq> n]\<rparr>)"
  proof (cases "n \<in> fst ` set (kb_crbs k)")
    case False
    then have "[x \<leftarrow> kb_crbs k. fst x \<noteq> n] = kb_crbs k" by (auto simp: filter_id_conv)
    with False Cons.prems show ?thesis by (simp add: on_404_def on_crbs_def removed_def)
  qed (use Cons.prems in \<open>simp add: on_404_def on_crbs_def removed_def del\<close>)
  with Cons show ?case by (simp add: conj_commute)
qed simp

lemma delete_each_rbs:
  "kb_denied k = None \<Longrightarrow> delete_each (map (\<lambda>n. on_rbs (removed n)) ns) k =
     Inr (k\<lparr>kb_rbs := [x \<leftarrow> kb_rbs k. fst x \<notin> set ns]\<rparr>)"
proof (induction ns arbitrary: k)
  case (Cons n ns)
  have del: "AList.delete n bs = [x \<leftarrow> bs. fst x \<noteq> n]" for bs :: "((string \<times> string) \<times> binding) list"
    by (induction bs) auto
  have "on_404 (on_rbs (removed n) k) (Inr k) = Inr (k\<lparr>kb_rbs := [x \<leftarrow> kb_rbs k. fst x \<noteq> n]\<rparr>)"
  proof (cases "n \<in> fst ` set (kb_rbs k)")
    case False
    then have "[x \<leftarrow> kb_rbs k. fst x \<noteq> n] = kb_rbs k" by (auto simp: filter_id_conv)
    with False Cons.prems show ?thesis by (simp add: on_404_def on_rbs_def removed_def)
  qed (use Cons.prems in \<open>simp add: on_404_def on_rbs_def removed_def del\<close>)
  with Cons show ?case by (simp add: conj_commute)
qed simp

lemma delete_user_bindings_eq:
  assumes "kb_denied k = None"
  shows "delete_user_bindings u k = Inr (k\<lparr>
     kb_crbs := [x \<leftarrow> kb_crbs k. unmanaged_by u (fst x)],
     kb_rbs := [x \<leftarrow> kb_rbs k. unmanaged_by u (snd (fst x))]\<rparr>)"
proof -
  let ?p = "''clustervision-'' @ u @ ''-''"
  have c: "[x \<leftarrow> bs. fst x \<notin> set [n \<leftarrow> map fst bs. prefix ?p n]] = [x \<leftarrow> bs. unmanaged_by u (fst x)]"
    for bs :: "(string \<times> binding) list"
    by (intro filter_cong refl) (force simp: unmanaged_by_def)
  have r: "[x \<leftarrow> bs. fst x \<notin> set [n \<leftarrow> map fst bs. prefix ?p (snd n)]] = [x \<leftarrow> bs. unmanaged_by u (snd (fst x))]"
    for bs :: "((string \<times> string) \<times> binding) list"
    by (intro filter_cong refl) (force simp: unmanaged_by_def)
  let ?k1 = "k\<lparr>kb_crbs := [x \<leftarrow> kb_crbs k. unmanaged_by u (fst x)]\<rparr>"
  have "kube_call k (delete_each (map (\<lambda>n. on_crbs (removed n)) [n \<leftarrow> map fst (kb_crbs k). prefix ?p n]) k) = Inr ?k1"
    by (simp only: delete_each_crbs [OF assms] kube_call_allowed [OF assms] c)
  moreover have d: "kb_denied ?k1 = None" using assms by simp
  have "kube_call ?k1 (delete_each (map (\<lambda>n. on_rbs (removed n)) [n \<leftarrow> map fst (kb_rbs ?k1). prefix ?p (snd n)]) ?k1) =
      Inr (?k1\<lparr>kb_rbs := [x \<leftarrow> kb_rbs k. unmanaged_by u (snd (fst x))]\<rparr>)"
    by (simp only: delete_each_rbs [OF d] kube_call_allowed [OF d] r kube.simps) simp
  ultimately show ?thesis unfolding delete_user_bindings_def Let_def by (simp only: sum.case)
qed

lemma assign_cluster_wide:
  assumes "kb_denied k = None" "kind \<in> set subject_kinds" "n = binding_name u r"
    and b: "b = granted_binding merge (map_of (kb_crbs k) n) r ''ClusterRole'' (the_subject u kind sa)"
    and "kb_admits k n b"
  shows "\<exists>k'. assign_role merge u kind r ''ClusterRole'' None sa k = Inr k' \<and> kb_denied k' = None \<and>
    kb_admits k' = kb_admits k \<and> map_of (kb_crbs k') = (map_of (kb_crbs k))(n \<mapsto> b)"
proof -
  have g: "None = granted_in None ''ClusterRole''" by (simp add: granted_in_def)
  have "b = granted_binding merge (lookup k None n) r (granted_kind None ''ClusterRole'') (the_subject u kind sa)"
    by (simp add: b granted_kind_def)
  from assign_role_effect_aux [OF assms(1,2) g assms(3) this] assms(5) obtain k' where
    k': "assign_role merge u kind r ''ClusterRole'' None sa k = Inr k'" "kb_denied k' = None" "kb_admits k' = kb_admits k"
    and l: "\<forall>sc' n'. lookup k' sc' n' = (if sc' = None \<and> n' = n then Some b else lookup k sc' n')" by auto
  have "map_of (kb_crbs k') n' = ((map_of (kb_crbs k))(n \<mapsto> b)) n'" for n'
    using l [rule_format, of None n'] by simp
  with k' show ?thesis by blast
qed

lemma binding_name_same: "binding_name u r = binding_name u' r' \<longleftrightarrow> u @ ''-'' @ r = u' @ ''-'' @ r'"
  by (simp add: binding_name_def)

lemma cluster_listed:
  "b \<in> set (cluster_bindings_for u k) \<longleftrightarrow>
     (\<exists>x. (b_name b, x) \<in> set (kb_crbs k) \<and> names_user u x \<and> b = \<lparr>b_name = b_name b, b_namespace = None,
        b_role_ref = bd_role_ref x, b_role_kind = bd_role_kind x, b_subjects = bd_subjects x\<rparr>)"
  by (auto simp: cluster_bindings_for_def image_iff)

section \<open>Properties\<close>

text \<open>C14. What an assignment does: unless the API refuses the call, the binding of the user and the role
  is there, in the scope of the request (no namespace and a cluster role: the cluster; an empty or
  missing namespace otherwise: \<open>default\<close>); when it was there before it keeps its role and its subjects
  are merged with the user, when it was not it is made for the role and the user; and every other
  binding is what it was. When the API does not accept that binding, the answer is its 422.\<close>

theorem assign_role_effect:
  assumes "kb_denied k = None" "kind \<in> set subject_kinds"
    and "b = (case lookup k (granted_in ns rk) (binding_name u r) of
        Some old \<Rightarrow> old\<lparr>bd_subjects := merge (bd_subjects old) [the_subject u kind sa]\<rparr>
      | None \<Rightarrow> plain_binding r (granted_kind (granted_in ns rk) rk) [the_subject u kind sa])"
  shows "if kb_admits k (binding_name u r) b
    then \<exists>k'. assign_role merge u kind r rk ns sa k = Inr k' \<and>
      (\<forall>sc n. lookup k' sc n =
         (if sc = granted_in ns rk \<and> n = binding_name u r then Some b else lookup k sc n))
    else assign_role merge u kind r rk ns sa k = Inl 422"
  using assign_role_effect_aux [OF assms(1,2) refl refl, of b merge ns rk u r sa] assms(3)
  by (fastforce simp: granted_binding_def split: option.splits if_splits)

definition empty_kube :: kube where
  "empty_kube = \<lparr>kb_crbs = [], kb_rbs = [], kb_namespaces = [], kb_denied = None, kb_admits = (\<lambda>n b. True)\<rparr>"

theorem assign_role_effect_witness:
  "\<exists>k'. assign_role (\<lambda>old new. new) ''bob'' ''User'' ''edit'' ''Role'' (Some []) None empty_kube = Inr k' \<and>
     lookup k' (Some ''default'') ''clustervision-bob-edit'' =
       Some (plain_binding ''edit'' ''Role'' [the_subject ''bob'' ''User'' None])"
proof -
  let ?b = "plain_binding ''edit'' ''Role'' [the_subject ''bob'' ''User'' None]"
  have g: "granted_in (Some []) ''Role'' = Some ''default''" by (simp add: granted_in_def truthy_def)
  have "kb_denied empty_kube = None" "''User'' \<in> set subject_kinds" by (simp_all add: empty_kube_def subject_kinds_def)
  moreover have "?b = (case lookup empty_kube (granted_in (Some []) ''Role'') (binding_name ''bob'' ''edit'') of
      Some old \<Rightarrow> old\<lparr>bd_subjects := [the_subject ''bob'' ''User'' None]\<rparr>
    | None \<Rightarrow> plain_binding ''edit'' (granted_kind (granted_in (Some []) ''Role'') ''Role'') [the_subject ''bob'' ''User'' None])"
    by (simp add: g empty_kube_def granted_kind_def)
  moreover have "kb_admits empty_kube n b" for n b by (simp add: empty_kube_def)
  ultimately obtain k' where k': "assign_role (\<lambda>old new. new) ''bob'' ''User'' ''edit'' ''Role'' (Some []) None empty_kube = Inr k'"
    and l: "\<forall>sc n. lookup k' sc n = (if sc = granted_in (Some []) ''Role'' \<and> n = binding_name ''bob'' ''edit''
        then Some ?b else lookup empty_kube sc n)"
    using assign_role_effect [where k = empty_kube and b = ?b and ns = "Some []" and rk = "''Role''" and u = "''bob''"
        and kind = "''User''" and r = "''edit''" and sa = None and merge = "\<lambda>old new. new"]
    by auto
  from l [rule_format, of "Some ''default''" "''clustervision-bob-edit''"] k' show ?thesis
    by (simp add: g binding_name_def)
qed

text \<open>A grant can give another role. When two pairs of user and role have one binding name (the hyphen
  that joins them may occur in both), granting the second role to the second user, after the first
  grant, succeeds and makes the second user a subject of the binding of the first role; no binding for
  the role that was asked for is made.\<close>

theorem grant_gives_other_role:
  assumes merge: "\<And>old new. set new \<subseteq> set (merge old new)"
    and "binding_name u r = binding_name u' r'" and "kind \<in> set subject_kinds" "kind' \<in> {''User'', ''ServiceAccount''}"
    and "kb_denied k = None" "lookup k None (binding_name u r) = None" "\<And>n b. kb_admits k n b"
  shows "\<exists>k1 k2 b. assign_role merge u kind r ''ClusterRole'' None sa k = Inr k1 \<and>
    assign_role merge u' kind' r' ''ClusterRole'' None sa' k1 = Inr k2 \<and>
    b \<in> set (cluster_bindings_for u' k2) \<and> b_role_ref b = r \<and>
    (\<forall>n x. lookup k2 None n = Some x \<and> bd_role_ref x = r' \<and> r' \<noteq> r \<longrightarrow> lookup k None n = Some x)"
proof -
  let ?n = "binding_name u r" and ?s = "the_subject u kind sa" and ?s' = "the_subject u' kind' sa'"
  have k': "kind' \<in> set subject_kinds" using assms(4) by (auto simp: subject_kinds_def)
  from assign_cluster_wide [OF assms(5,3) refl refl assms(7), of merge u r sa] assms(6) obtain k1 where
    k1: "assign_role merge u kind r ''ClusterRole'' None sa k = Inr k1" "kb_denied k1 = None" "kb_admits k1 = kb_admits k"
    and l1: "map_of (kb_crbs k1) = (map_of (kb_crbs k))(?n \<mapsto> (plain_binding r ''ClusterRole'' [?s]))"
    by (auto simp: granted_binding_def)
  have "kb_admits k1 n b" for n b using assms(7) k1(3) by simp
  from assign_cluster_wide [OF k1(2) k' refl refl this, of merge u' r' sa'] l1 assms(2) obtain k2 where
    k2: "assign_role merge u' kind' r' ''ClusterRole'' None sa' k1 = Inr k2"
    and l2: "map_of (kb_crbs k2) = (map_of (kb_crbs k))(?n \<mapsto> (plain_binding r ''ClusterRole'' (merge [?s] [?s'])))"
    by (auto simp: granted_binding_def)
  let ?x = "plain_binding r ''ClusterRole'' (merge [?s] [?s'])"
  have "(?n, ?x) \<in> set (kb_crbs k2)" using l2 by (auto intro!: map_of_SomeD)
  moreover have "?s' \<in> set (bd_subjects ?x)" "sb_name ?s' = u'" "sb_kind ?s' \<in> {''User'', ''ServiceAccount''}"
    using merge [of "[?s']" "[?s]"] assms(4) by (simp_all add: the_subject_def)
  then have "names_user u' ?x" unfolding names_user_def by blast
  ultimately have "\<lparr>b_name = ?n, b_namespace = None, b_role_ref = r, b_role_kind = ''ClusterRole'',
      b_subjects = bd_subjects ?x\<rparr> \<in> set (cluster_bindings_for u' k2)"
    by (auto simp: cluster_listed)
  moreover have "\<forall>n x. lookup k2 None n = Some x \<and> bd_role_ref x = r' \<and> r' \<noteq> r \<longrightarrow> lookup k None n = Some x"
    by (auto simp: l2)
  ultimately show ?thesis using k1(1) k2 by fastforce
qed

theorem grant_gives_other_role_witness:
  "\<exists>k1 k2 b. assign_role (\<lambda>old new. new) ''ci'' ''User'' ''cluster-admin'' ''ClusterRole'' None None empty_kube = Inr k1 \<and>
     assign_role (\<lambda>old new. new) ''ci-cluster'' ''User'' ''admin'' ''ClusterRole'' None None k1 = Inr k2 \<and>
     b \<in> set (cluster_bindings_for ''ci-cluster'' k2) \<and> b_role_ref b = ''cluster-admin''"
  using grant_gives_other_role [of "\<lambda>old new. new" "''ci''" "''cluster-admin''" "''ci-cluster''" "''admin''"
      "''User''" "''User''" empty_kube None None]
  by (auto simp: binding_name_def subject_kinds_def empty_kube_def)

text \<open>C15. What a revocation does: unless the API refuses the call it succeeds, and from the permissions of
  every user exactly the binding made for the user and the role, in the scope of the request, is gone.\<close>

theorem revoke_role_effect:
  assumes "kb_denied k = None"
  shows "\<exists>k'. revoke_role u r ns k = Inr k' \<and>
    cluster_bindings_for v k' = [b \<leftarrow> cluster_bindings_for v k. \<not> (ns = None \<and> b_name b = binding_name u r)] \<and>
    namespace_bindings_for v k' =
      [b \<leftarrow> namespace_bindings_for v k. \<not> (ns \<noteq> None \<and> b_namespace b = ns \<and> b_name b = binding_name u r)]"
proof (cases ns)
  case None
  have "cluster_bindings_for v (k\<lparr>kb_crbs := [x \<leftarrow> kb_crbs k. fst x \<noteq> n]\<rparr>) =
      [b \<leftarrow> cluster_bindings_for v k. b_name b \<noteq> n]" for n
    by (simp add: cluster_bindings_for_def filter_map o_def case_prod_unfold conj_commute)
  moreover have "namespace_bindings_for v (k\<lparr>kb_crbs := bs\<rparr>) = namespace_bindings_for v k" for bs
    by (simp add: namespace_bindings_for_def)
  ultimately show ?thesis using revoke_role_eq [OF assms, of u r ns] None by simp
next
  case (Some m)
  have "namespace_bindings_for v (k\<lparr>kb_rbs := [x \<leftarrow> kb_rbs k. fst x \<noteq> (m, n)]\<rparr>) =
      [b \<leftarrow> namespace_bindings_for v k. \<not> (b_namespace b = Some m \<and> b_name b = n)]" for n
    by (auto simp: namespace_bindings_for_def filter_map o_def case_prod_unfold prod_eq_iff conj_commute
        intro!: arg_cong2 [where f = map] filter_cong)
  moreover have "cluster_bindings_for v (k\<lparr>kb_rbs := bs\<rparr>) = cluster_bindings_for v k" for bs
    by (simp add: cluster_bindings_for_def)
  ultimately show ?thesis using revoke_role_eq [OF assms, of u r ns] Some by simp
qed

text \<open>A revocation that revokes nothing: the panel shows every binding that names its user, whoever made
  it. For one whose name is not made of the user and the role (made with kubectl, or by an approved
  access request), the cross sends a revocation the backend answers as done, the panel says so, and
  the binding is still there and still shown.\<close>

theorem revoked_but_listed:
  assumes "kb_denied k = None" "get_user_permissions (pp_username p) k = Inr (the (pp_perms p))" "pp_perms p \<noteq> None"
    and "b \<in> set (all_bindings p)" "b_name b \<noteq> binding_name (pp_username p) (b_role_ref b)"
  shows "\<exists>m h k' perms. perms_panel_handle p s (UP_revoke b) = (s, [m]) \<and>
    hooks c (HRbac m) = Mutation h \<and> ToastSuccess ''Role revoked'' \<in> set (mh_success h) \<and>
    answer merge m k = Some (Inr k') \<and> get_user_permissions (pp_username p) k' = Inr perms \<and>
    b \<in> set (all_bindings (p\<lparr>pp_perms := Some perms\<rparr>))"
proof -
  let ?u = "pp_username p"
  from revoke_role_effect [OF assms(1), of ?u "b_role_ref b" "b_namespace b" ?u] obtain k' where
    k': "revoke_role ?u (b_role_ref b) (b_namespace b) k = Inr k'"
    "cluster_bindings_for ?u k' = [x \<leftarrow> cluster_bindings_for ?u k. \<not> (b_namespace b = None \<and> b_name x = binding_name ?u (b_role_ref b))]"
    "namespace_bindings_for ?u k' = [x \<leftarrow> namespace_bindings_for ?u k.
       \<not> (b_namespace b \<noteq> None \<and> b_namespace x = b_namespace b \<and> b_name x = binding_name ?u (b_role_ref b))]"
    by blast
  have d: "kb_denied k' = None"
    using revoke_role_eq [OF assms(1), of ?u "b_role_ref b" "b_namespace b"] k'(1) assms(1)
    by (auto split: option.splits)
  from assms(2-4) have "b \<in> set (cluster_bindings_for ?u k) \<or> b \<in> set (namespace_bindings_for ?u k)"
    using assms(1) by (auto simp: all_bindings_def get_user_permissions_def)
  with assms(5) k'(2,3) have "b \<in> set (cluster_bindings_for ?u k') \<or> b \<in> set (namespace_bindings_for ?u k')"
    by auto
  with k'(1) d show ?thesis
    by (auto simp: get_user_permissions_def all_bindings_def mutation_def)
qed

definition jit_binding :: binding where
  "jit_binding = (plain_binding ''edit'' ''ClusterRole'' [the_subject ''bob'' ''User'' None])"

definition jit_kube :: kube where
  "jit_kube = empty_kube\<lparr>kb_crbs := [(''clustervision-jit-7'', jit_binding), (''clustervision-bob-x-view'', jit_binding),
     (''clustervision-bob-edit'', jit_binding)]\<rparr>"

definition jit_panel :: panel_props where
  "jit_panel = \<lparr>pp_username = ''bob'', pp_user_type = ''certificate'', pp_user_namespace = None, pp_can_write = True,
     pp_loading = False, pp_perms = Some \<lparr>ps_username = ''bob'', cluster_bindings = cluster_bindings_for ''bob'' jit_kube,
       namespace_bindings = []\<rparr>\<rparr>"

definition jit_read :: binding_read where
  "jit_read = \<lparr>b_name = ''clustervision-jit-7'', b_namespace = None, b_role_ref = ''edit'', b_role_kind = ''ClusterRole'',
     b_subjects = [the_subject ''bob'' ''User'' None]\<rparr>"

lemma jit_listed: "jit_read \<in> set (all_bindings jit_panel)"
  by (simp add: jit_panel_def all_bindings_def jit_read_def cluster_bindings_for_def jit_kube_def names_user_def
      jit_binding_def the_subject_def)

theorem revoke_role_effect_witness:
  "\<exists>k'. revoke_role ''bob'' ''edit'' None jit_kube = Inr k' \<and>
     map b_name (cluster_bindings_for ''bob'' k') = [''clustervision-jit-7'', ''clustervision-bob-x-view'']"
proof -
  have "kb_denied jit_kube = None" by (simp add: jit_kube_def empty_kube_def)
  from revoke_role_effect [OF this, of "''bob''" "''edit''" None "''bob''"] show ?thesis
    by (auto simp: jit_kube_def cluster_bindings_for_def names_user_def jit_binding_def the_subject_def binding_name_def)
qed

theorem revoked_but_listed_witness:
  "\<exists>m k' perms. perms_panel_handle jit_panel perms_panel_init (UP_revoke jit_read) = (perms_panel_init, [m]) \<and>
     answer (\<lambda>old new. new) m jit_kube = Some (Inr k') \<and> get_user_permissions ''bob'' k' = Inr perms \<and>
     jit_read \<in> set (all_bindings (jit_panel\<lparr>pp_perms := Some perms\<rparr>))"
proof -
  have d: "kb_denied jit_kube = None" by (simp add: jit_kube_def empty_kube_def)
  moreover have u: "pp_username jit_panel = ''bob''" by (simp add: jit_panel_def)
  moreover have "namespace_bindings_for ''bob'' jit_kube = []"
    by (simp add: jit_kube_def empty_kube_def namespace_bindings_for_def)
  then have "get_user_permissions (pp_username jit_panel) jit_kube = Inr (the (pp_perms jit_panel))"
    using d by (simp add: get_user_permissions_def jit_panel_def)
  moreover have "pp_perms jit_panel \<noteq> None" by (simp add: jit_panel_def)
  moreover have "b_name jit_read \<noteq> binding_name (pp_username jit_panel) (b_role_ref jit_read)"
    by (simp add: jit_read_def binding_name_def u)
  ultimately show ?thesis
    using revoked_but_listed [of jit_kube jit_panel jit_read perms_panel_init "''test''" "\<lambda>old new. new"] jit_listed
    by (simp only:) blast
qed

text \<open>C21. Granting and taking back is a round trip: for a new binding the API accepts, in a namespace that
  exists, revoking the role in the scope it was granted in gives back the state before the grant.\<close>

theorem assign_revoke_roundtrip:
  assumes "kb_denied k = None" "kind \<in> set subject_kinds" "lookup k (granted_in ns rk) (binding_name u r) = None"
    and "\<And>n. granted_in ns rk = Some n \<Longrightarrow> n \<in> set (kb_namespaces k)"
    and "kb_admits k (binding_name u r) (plain_binding r (granted_kind (granted_in ns rk) rk) [the_subject u kind sa])"
  shows "\<exists>k'. assign_role merge u kind r rk ns sa k = Inr k' \<and> k' \<noteq> k \<and>
    revoke_role u r (granted_in ns rk) k' = Inr k"
proof (cases "granted_in ns rk")
  case None
  then have w: "ns = None \<and> rk = ''ClusterRole''" by (auto simp: granted_in_def split: if_splits)
  let ?k = "k\<lparr>kb_crbs := kb_crbs k @ [(binding_name u r, (plain_binding r ''ClusterRole'' [the_subject u kind sa]))]\<rparr>"
  have fresh: "binding_name u r \<notin> fst ` set (kb_crbs k)"
    using assms(3) None by (simp add: map_of_eq_None_iff)
  then have "[x \<leftarrow> kb_crbs k. fst x \<noteq> binding_name u r] = kb_crbs k" by (force simp: filter_id_conv)
  then have "revoke_role u r None ?k = Inr k" using revoke_role_eq [of ?k u r None] assms(1) by simp
  moreover have "assign_role merge u kind r rk ns sa k = Inr ?k"
    using w assms(1-3,5) None fresh
    by (simp add: assign_role_def Let_def on_crbs_def patched_def on_404_def create_cluster_role_binding_def
        created_def the_subject_def granted_kind_def)
  moreover have "?k \<noteq> k"
  proof
    assume "?k = k"
    then have "kb_crbs ?k = kb_crbs k" by simp
    then show False by simp
  qed
  ultimately show ?thesis using None by auto
next
  case (Some n)
  then have w: "\<not> (ns = None \<and> rk = ''ClusterRole'')"
    and n: "(case ns of Some n \<Rightarrow> if truthy n then n else ''default'' | None \<Rightarrow> ''default'') = n"
    by (auto simp: granted_in_def split: if_splits)
  let ?k = "k\<lparr>kb_rbs := kb_rbs k @ [((n, binding_name u r), (plain_binding r rk [the_subject u kind sa]))]\<rparr>"
  have fresh: "(n, binding_name u r) \<notin> fst ` set (kb_rbs k)"
    using assms(3) Some by (simp add: map_of_eq_None_iff)
  then have "[x \<leftarrow> kb_rbs k. fst x \<noteq> (n, binding_name u r)] = kb_rbs k" by (force simp: filter_id_conv)
  then have "revoke_role u r (Some n) ?k = Inr k" using revoke_role_eq [of ?k u r "Some n"] assms(1) by simp
  moreover have "assign_role merge u kind r rk ns sa k = Inr ?k"
    using assms(1-3,5) Some fresh assms(4) [OF Some]
    unfolding assign_role_def Let_def if_not_P [OF w] n
    by (simp add: on_rbs_def patched_def on_404_def create_role_binding_def ensure_namespace_def
        created_def the_subject_def granted_kind_def)
  moreover have "?k \<noteq> k"
  proof
    assume "?k = k"
    then have "kb_rbs ?k = kb_rbs k" by simp
    then show False by simp
  qed
  ultimately show ?thesis using Some by auto
qed

theorem assign_revoke_roundtrip_witness:
  "\<exists>k'. assign_role (\<lambda>old new. old @ new) ''ann'' ''User'' ''edit'' ''ClusterRole'' None None jit_kube = Inr k' \<and>
     revoke_role ''ann'' ''edit'' None k' = Inr jit_kube"
proof -
  have g: "granted_in None ''ClusterRole'' = None" by (simp add: granted_in_def)
  have "kb_denied jit_kube = None" "''User'' \<in> set subject_kinds"
    "lookup jit_kube (granted_in None ''ClusterRole'') (binding_name ''ann'' ''edit'') = None"
    by (simp_all add: g jit_kube_def empty_kube_def subject_kinds_def binding_name_def)
  from assign_revoke_roundtrip [OF this, of None "\<lambda>old new. old @ new"] show ?thesis
    unfolding g by (auto simp: jit_kube_def empty_kube_def)
qed

text \<open>C31. What the deletion of a user takes along: of the bindings of the cluster exactly those whose name
  begins with the name of the user and a hyphen; that is every binding made for the user, but also
  every one made for a user whose name goes on after a hyphen, and for a user called \<open>jit\<close> every
  binding of an approved access request.\<close>

theorem delete_user_bindings_effect:
  assumes "kb_denied k = None"
  shows "\<exists>k'. delete_user_bindings u k = Inr k' \<and>
    (\<forall>sc n. lookup k' sc n = (if prefix (''clustervision-'' @ u @ ''-'') n then None else lookup k sc n)) \<and>
    (\<forall>sc r w. lookup k' sc (binding_name u r) = None \<and> lookup k' sc (binding_name (u @ ''-'' @ w) r) = None) \<and>
    (u = ''jit'' \<longrightarrow> (\<forall>sc i. lookup k' sc (''clustervision-jit-'' @ i) = None))"
proof -
  let ?k = "k\<lparr>kb_crbs := [x \<leftarrow> kb_crbs k. unmanaged_by u (fst x)],
     kb_rbs := [x \<leftarrow> kb_rbs k. unmanaged_by u (snd (fst x))]\<rparr>"
  have m: "map_of [x \<leftarrow> bs. P (fst x)] key = (if P key then map_of bs key else None)"
    for bs :: "('k \<times> binding) list" and P key
    by (induction bs) auto
  have l: "lookup ?k sc n = (if prefix (''clustervision-'' @ u @ ''-'') n then None else lookup k sc n)" for sc n
    using m [of "unmanaged_by u" "kb_crbs k" n] m [of "\<lambda>x. unmanaged_by u (snd x)" "kb_rbs k"]
    by (cases sc) (simp_all add: unmanaged_by_def)
  have "lookup ?k sc (binding_name u r) = None" "lookup ?k sc (binding_name (u @ ''-'' @ w) r) = None" for sc r w
    unfolding l by (simp_all add: binding_name_def prefix_def)
  moreover have "u = ''jit'' \<longrightarrow> lookup ?k sc (''clustervision-jit-'' @ i) = None" for sc i
    unfolding l by (simp add: prefix_def)
  ultimately show ?thesis using delete_user_bindings_eq [OF assms] l by blast
qed

theorem delete_user_bindings_effect_witness:
  "\<exists>k'. delete_user_bindings ''bob'' jit_kube = Inr k' \<and> lookup jit_kube None (binding_name ''bob-x'' ''view'') \<noteq> None \<and>
     lookup k' None (binding_name ''bob-x'' ''view'') = None"
proof -
  have "kb_denied jit_kube = None" by (simp add: jit_kube_def empty_kube_def)
  from delete_user_bindings_effect [OF this, of "''bob''"] obtain k' where
    k': "delete_user_bindings ''bob'' jit_kube = Inr k'"
    "\<forall>sc r w. lookup k' sc (binding_name ''bob'' r) = None \<and> lookup k' sc (binding_name (''bob'' @ ''-'' @ w) r) = None"
    by blast
  from k'(2) have "lookup k' None (binding_name (''bob'' @ ''-'' @ ''x'') ''view'') = None" by blast
  with k'(1) show ?thesis by (auto simp: jit_kube_def binding_name_def)
qed

end
