(* ===== verification/Approvals.thy ===== *)
theory Approvals
  imports Requests Bindings
begin

text \<open>
  Temporary access on the backend: \<^verbatim>\<open>services/access_request_service.py\<close> with its endpoints in
  \<^verbatim>\<open>routers/access_requests.py\<close> and the cleanup job \<^verbatim>\<open>jobs/expire_access_bindings.py\<close>, under
  \<^verbatim>\<open>backend/app\<close>. One table of requests and one of policies serve all clusters; a cluster is what
  Bindings.thy calls \<open>kube\<close>. The database answers every call, and the row lock makes a review one step.
  Instants are microseconds. A status other than 404, 409 and 403 of the Kubernetes API is a 500.
\<close>

section \<open>db/models.py\<close>

record request_record =
  rec_id :: string
  rec_requester :: string
  rec_target_username :: string
  rec_user_kind :: string
  rec_sa_namespace :: "string option"
  rec_role_name :: string
  rec_role_kind :: string
  rec_namespace :: "string option"
  rec_ttl_minutes :: int
  rec_reason :: string
  rec_status :: access_request_status
  rec_requested_at :: int
  rec_reviewed_by :: "string option"
  rec_reviewed_at :: "int option"
  rec_expires_at :: "int option"
  rec_binding_name :: "string option"

text \<open>The registered remote clusters by name, the bindings of every cluster, and the clock.\<close>

record backend =
  be_now :: int
  be_requests :: "request_record list"
  be_policies :: "string \<times> string \<rightharpoonup> jit_role_policy_set_payload"
  be_registered :: "string list"
  be_clusters :: "string \<Rightarrow> kube"

section \<open>services/access_request_service.py\<close>

definition MIN_TTL_MINUTES :: int where
  "MIN_TTL_MINUTES = 5"

definition MAX_TTL_MINUTES :: int where
  "MAX_TTL_MINUTES = 24 * 60"

definition minutes :: "int \<Rightarrow> int" where
  "minutes n = n * 60000000"

text \<open>\<open>AccessRequestNotFoundError\<close>, \<open>AccessRequestError\<close>, and what the Kubernetes API raised.\<close>

datatype review_error = RequestNotFound | RequestError | ApiError nat

definition get_or_404 :: "string \<Rightarrow> backend \<Rightarrow> review_error + request_record" where
  "get_or_404 i st = (case find (\<lambda>r. rec_id r = i) (be_requests st) of Some r \<Rightarrow> Inr r | None \<Rightarrow> Inl RequestNotFound)"

definition check_policy :: "string \<Rightarrow> string \<Rightarrow> int \<Rightarrow> backend \<Rightarrow> bool" where
  "check_policy role_kind role_name ttl_minutes st =
     (case be_policies st (role_kind, role_name) of
        Some p \<Rightarrow> jp_eligible p \<and>
          ttl_minutes \<le> (case jp_max_ttl_minutes p of Some m \<Rightarrow> m | None \<Rightarrow> MAX_TTL_MINUTES)
      | None \<Rightarrow> ttl_minutes \<le> MAX_TTL_MINUTES)"

text \<open>\<open>i\<close>: the identifier drawn for the new record. It is the primary key of the table: one that is taken
  already makes the commit fail, which the framework answers with a 500.\<close>

definition new_record :: "string \<Rightarrow> access_request_create_payload \<Rightarrow> string \<Rightarrow> int \<Rightarrow> request_record" where
  "new_record requester p i now = \<lparr>rec_id = i, rec_requester = requester,
     rec_target_username = rc_target_username p, rec_user_kind = rc_user_kind p,
     rec_sa_namespace = rc_sa_namespace p, rec_role_name = rc_role_name p, rec_role_kind = rc_role_kind p,
     rec_namespace = rc_namespace p, rec_ttl_minutes = rc_ttl_minutes p, rec_reason = rc_reason p,
     rec_status = Pending, rec_requested_at = now, rec_reviewed_by = None, rec_reviewed_at = None,
     rec_expires_at = None, rec_binding_name = None\<rparr>"

text \<open>A namespace that is missing or empty.\<close>

definition granted_scope :: "string option \<Rightarrow> string option" where
  "granted_scope ns = (case ns of Some n \<Rightarrow> if truthy n then Some n else None | None \<Rightarrow> None)"

definition create_request ::
  "string \<Rightarrow> access_request_create_payload \<Rightarrow> string \<Rightarrow> backend \<Rightarrow> review_error + backend"
where
  "create_request requester p i st =
     (if rc_role_kind p = ''Role'' \<and> granted_scope (rc_namespace p) = None then Inl RequestError
      else if \<not> check_policy (rc_role_kind p) (rc_role_name p) (rc_ttl_minutes p) st then Inl RequestError
      else if i \<in> rec_id ` set (be_requests st) then Inl (ApiError 500)
      else Inr (st\<lparr>be_requests := be_requests st @ [new_record requester p i (be_now st)]\<rparr>))"

definition save :: "request_record \<Rightarrow> backend \<Rightarrow> backend" where
  "save r st = st\<lparr>be_requests := map (\<lambda>x. if rec_id x = rec_id r then r else x) (be_requests st)\<rparr>"

definition on_cluster :: "string \<Rightarrow> (kube \<Rightarrow> nat + kube) \<Rightarrow> backend \<Rightarrow> review_error + backend" where
  "on_cluster c f st =
     (case f (be_clusters st c) of
        Inl e \<Rightarrow> Inl (ApiError e)
      | Inr k \<Rightarrow> Inr (st\<lparr>be_clusters := (be_clusters st)(c := k)\<rparr>))"

definition jit_name :: "string \<Rightarrow> string" where
  "jit_name i = ''clustervision-jit-'' @ i"

text \<open>The binding an approval creates, in the scope of the request.\<close>

definition create_grant :: "request_record \<Rightarrow> int \<Rightarrow> kube \<Rightarrow> nat + kube" where
  "create_grant r expires_at k =
     (let subj = \<lparr>sb_kind = rec_user_kind r, sb_name = rec_target_username r, sb_namespace = rec_sa_namespace r\<rparr> in
      case granted_scope (rec_namespace r) of
        Some n \<Rightarrow> create_role_binding n (jit_name (rec_id r)) (rec_role_name r) (rec_role_kind r) [subj]
          True (Some expires_at) k
      | None \<Rightarrow> create_cluster_role_binding (jit_name (rec_id r)) (rec_role_name r) [subj]
          True (Some expires_at) k)"

text \<open>\<open>c\<close>: the cluster of the API client of the service.\<close>

definition approve_request :: "string \<Rightarrow> string \<Rightarrow> string \<Rightarrow> backend \<Rightarrow> review_error + backend" where
  "approve_request i reviewer c st =
     (case get_or_404 i st of
        Inl e \<Rightarrow> Inl e
      | Inr r \<Rightarrow>
          if rec_status r \<noteq> Pending then Inl RequestError
          else if rec_requester r = reviewer then Inl RequestError
          else if \<not> check_policy (rec_role_kind r) (rec_role_name r) (rec_ttl_minutes r) st then Inl RequestError
          else if rec_user_kind r \<notin> set subject_kinds then Inl (ApiError 500)
          else let now = be_now st; expires_at = now + minutes (rec_ttl_minutes r) in
            (case on_cluster c (create_grant r expires_at) st of
               Inl e \<Rightarrow> Inl e
             | Inr st' \<Rightarrow> Inr (save (r\<lparr>rec_status := Approved, rec_reviewed_by := Some reviewer,
                 rec_reviewed_at := Some now, rec_expires_at := Some expires_at,
                 rec_binding_name := Some (jit_name (rec_id r))\<rparr>) st')))"

definition deny_request :: "string \<Rightarrow> string \<Rightarrow> backend \<Rightarrow> review_error + backend" where
  "deny_request i reviewer st =
     (case get_or_404 i st of
        Inl e \<Rightarrow> Inl e
      | Inr r \<Rightarrow>
          if rec_status r \<noteq> Pending then Inl RequestError
          else Inr (save (r\<lparr>rec_status := Denied, rec_reviewed_by := Some reviewer,
            rec_reviewed_at := Some (be_now st)\<rparr>) st))"

text \<open>The client library refuses to delete a binding without a name.\<close>

definition delete_grant :: "request_record \<Rightarrow> kube \<Rightarrow> nat + kube" where
  "delete_grant r k =
     (case rec_binding_name r of
        None \<Rightarrow> Inl 500
      | Some n \<Rightarrow> on_404 (case granted_scope (rec_namespace r) of
            Some ns \<Rightarrow> on_rbs (removed (ns, n)) k
          | None \<Rightarrow> on_crbs (removed n) k) (Inr k))"

definition revoke_request :: "string \<Rightarrow> string \<Rightarrow> backend \<Rightarrow> review_error + backend" where
  "revoke_request i c st =
     (case get_or_404 i st of
        Inl e \<Rightarrow> Inl e
      | Inr r \<Rightarrow>
          if rec_status r \<noteq> Approved then Inl RequestError
          else (case on_cluster c (delete_grant r) st of
              Inl e \<Rightarrow> Inl e
            | Inr st' \<Rightarrow> Inr (save (r\<lparr>rec_status := Revoked, rec_reviewed_at := Some (be_now st)\<rparr>) st')))"

definition set_policy :: "string \<Rightarrow> string \<Rightarrow> jit_role_policy_set_payload \<Rightarrow> backend \<Rightarrow> backend" where
  "set_policy role_kind role_name p st = st\<lparr>be_policies := (be_policies st)((role_kind, role_name) \<mapsto> p)\<rparr>"

definition delete_policy :: "string \<Rightarrow> string \<Rightarrow> backend \<Rightarrow> backend" where
  "delete_policy role_kind role_name st = st\<lparr>be_policies := (be_policies st)((role_kind, role_name) := None)\<rparr>"

definition past :: "int option \<Rightarrow> int \<Rightarrow> bool" where
  "past expires now = (case expires of Some e \<Rightarrow> e \<le> now | None \<Rightarrow> False)"

definition mark_expired :: "int \<Rightarrow> backend \<Rightarrow> backend" where
  "mark_expired now st = st\<lparr>be_requests := map (\<lambda>r.
     if rec_status r = Approved \<and> past (rec_expires_at r) now then r\<lparr>rec_status := Expired\<rparr> else r) (be_requests st)\<rparr>"

section \<open>jobs/expire_access_bindings.py\<close>

definition is_expired :: "int \<Rightarrow> binding \<Rightarrow> bool" where
  "is_expired now b \<longleftrightarrow> bd_jit b \<and> past (bd_expires b) now"

text \<open>The calls of the job to a cluster; \<open>refuse\<close> tells which of them fail in a run, and with which status,
  besides those the cluster refuses anyway.\<close>

datatype job_call = List_crbs | Delete_crb string | List_rbs | Delete_rb "string \<times> string"

definition listed :: "(job_call \<Rightarrow> nat option) \<Rightarrow> job_call \<Rightarrow> kube \<Rightarrow> nat option" where
  "listed refuse call k = (case kb_denied k of Some st \<Rightarrow> Some st | None \<Rightarrow> refuse call)"

definition attempt :: "(job_call \<Rightarrow> nat option) \<Rightarrow> job_call \<Rightarrow> (kube \<Rightarrow> nat + kube) \<Rightarrow> kube \<Rightarrow> nat + kube" where
  "attempt refuse call f k = (case refuse call of Some st \<Rightarrow> Inl st | None \<Rightarrow> f k)"

text \<open>Deletes one after the other and counts; what is gone already is not counted. Every other failure ends
  it, and what was deleted before stays deleted.\<close>

fun delete_counting :: "(kube \<Rightarrow> nat + kube) list \<Rightarrow> kube \<times> nat \<Rightarrow> kube \<times> (nat + nat)" where
  "delete_counting [] (k, n) = (k, Inr n)"
| "delete_counting (d # ds) (k, n) =
     (case d k of
        Inr k' \<Rightarrow> delete_counting ds (k', Suc n)
      | Inl st \<Rightarrow> if st = 404 then delete_counting ds (k, n) else (k, Inl st))"

definition expired_keys :: "int \<Rightarrow> ('k \<times> binding) list \<Rightarrow> 'k list" where
  "expired_keys now bs = map fst (filter (\<lambda>x. is_expired now (snd x)) bs)"

definition reconcile :: "(job_call \<Rightarrow> nat option) \<Rightarrow> int \<Rightarrow> kube \<Rightarrow> kube \<times> (nat + nat)" where
  "reconcile refuse now k =
     (case listed refuse List_crbs k of
        Some st \<Rightarrow> (k, Inl st)
      | None \<Rightarrow>
          (case delete_counting (map (\<lambda>n. attempt refuse (Delete_crb n) (on_crbs (removed n)))
              (expired_keys now (kb_crbs k))) (k, 0) of
             (k', Inl st) \<Rightarrow> (k', Inl st)
           | (k', Inr n) \<Rightarrow>
               (case listed refuse List_rbs k' of
                  Some st \<Rightarrow> (k', Inl st)
                | None \<Rightarrow> delete_counting (map (\<lambda>key. attempt refuse (Delete_rb key) (on_rbs (removed key)))
                    (expired_keys now (kb_rbs k'))) (k', n))))"

definition set_cluster :: "string \<Rightarrow> kube \<Rightarrow> backend \<Rightarrow> backend" where
  "set_cluster c k st = st\<lparr>be_clusters := (be_clusters st)(c := k)\<rparr>"

text \<open>The remote clusters; one that fails is left as it is by then, and not counted. \<open>at c\<close>: the instant
  read for the cluster.\<close>

fun reconcile_remote ::
  "(string \<Rightarrow> job_call \<Rightarrow> nat option) \<Rightarrow> (string \<Rightarrow> int) \<Rightarrow> string list \<Rightarrow> backend \<times> nat \<Rightarrow> backend \<times> nat"
where
  "reconcile_remote refuse at [] (st, m) = (st, m)"
| "reconcile_remote refuse at (c # cs) (st, m) =
     (case reconcile (refuse c) (at c) (be_clusters st c) of
        (k, Inl e) \<Rightarrow> reconcile_remote refuse at cs (set_cluster c k st, m)
      | (k, Inr n) \<Rightarrow> reconcile_remote refuse at cs (set_cluster c k st, m + n))"

text \<open>The job ends with an error when the local cluster fails. \<open>t\<close>: the instant of \<open>mark_expired\<close>.\<close>

definition cleanup_job ::
  "(string \<Rightarrow> job_call \<Rightarrow> nat option) \<Rightarrow> (string \<Rightarrow> int) \<Rightarrow> int \<Rightarrow> backend \<Rightarrow> backend"
where
  "cleanup_job refuse at t st =
     (case reconcile (refuse ''local'') (at ''local'') (be_clusters st ''local'') of
        (k, Inl e) \<Rightarrow> set_cluster ''local'' k st
      | (k, Inr n) \<Rightarrow>
          let (st', revoked) = reconcile_remote refuse at (be_registered st) (set_cluster ''local'' k st, n)
          in if revoked > 0 then mark_expired t st' else st')"

section \<open>routers/access_requests.py\<close>

text \<open>\<open>AccessRequestCreate\<close> and \<open>JitRolePolicySet\<close>: what the framework refuses with a 422.\<close>

definition at_most :: "nat \<Rightarrow> string option \<Rightarrow> bool" where
  "at_most n v = (case v of Some x \<Rightarrow> length x \<le> n | None \<Rightarrow> True)"

definition valid_create :: "access_request_create_payload \<Rightarrow> bool" where
  "valid_create p \<longleftrightarrow> 1 \<le> length (rc_target_username p) \<and> length (rc_target_username p) \<le> 253 \<and>
     rc_user_kind p \<in> {''User'', ''ServiceAccount''} \<and> at_most 63 (rc_sa_namespace p) \<and>
     1 \<le> length (rc_role_name p) \<and> rc_role_kind p \<in> {''ClusterRole'', ''Role''} \<and> at_most 63 (rc_namespace p) \<and>
     MIN_TTL_MINUTES \<le> rc_ttl_minutes p \<and> rc_ttl_minutes p \<le> MAX_TTL_MINUTES \<and>
     1 \<le> length (rc_reason p) \<and> length (rc_reason p) \<le> 500"

definition valid_policy :: "string \<Rightarrow> jit_role_policy_set_payload \<Rightarrow> bool" where
  "valid_policy role_kind p \<longleftrightarrow> role_kind \<in> {''ClusterRole'', ''Role''} \<and>
     (case jp_max_ttl_minutes p of
        Some m \<Rightarrow> MIN_TTL_MINUTES \<le> m \<and> m \<le> MAX_TTL_MINUTES
      | None \<Rightarrow> True)"

definition instance_role :: "auth_user \<Rightarrow> role option" where
  "instance_role u = map_of (au_roles u) INSTANCE_SCOPE"

fun error_status_of :: "review_error \<Rightarrow> nat" where
  "error_status_of RequestNotFound = 404"
| "error_status_of RequestError = 400"
| "error_status_of (ApiError st) = (if st \<in> {404, 409, 403} then st else 500)"

definition respond :: "review_error + backend \<Rightarrow> nat + backend" where
  "respond r = map_sum error_status_of id r"

text \<open>The endpoint of a call, for the user of the token and the \<open>cluster\<close> parameter of the request. A
  cluster that is not registered makes a dependency fail.\<close>

definition serve :: "auth_user \<Rightarrow> string \<Rightarrow> access_requests_call \<Rightarrow> string \<Rightarrow> backend \<Rightarrow> nat + backend" where
  "serve u c call new_id st =
     (let approver = is_privileged (instance_role u); admin = (instance_role u = Some Admin);
          guard = (\<lambda>allowed r. if \<not> allowed then Inl 403
            else if c \<noteq> ''local'' \<and> c \<notin> set (be_registered st) then Inl 500 else r)
      in case call of
        AR_list \<Rightarrow> guard True (Inr st)
      | AR_export q \<Rightarrow> guard admin (Inr st)
      | AR_listPolicies \<Rightarrow> guard admin (Inr st)
      | AR_create p \<Rightarrow> guard True (if \<not> valid_create p then Inl 422
          else respond (create_request (au_username u) p new_id st))
      | AR_approve i \<Rightarrow> guard approver (respond (approve_request i (au_username u) c st))
      | AR_deny i \<Rightarrow> guard approver (respond (deny_request i (au_username u) st))
      | AR_revoke i \<Rightarrow> guard approver (respond (revoke_request i c st))
      | AR_setPolicy k n p \<Rightarrow> guard admin (if \<not> valid_policy k p then Inl 422 else Inr (set_policy k n p st))
      | AR_deletePolicy k n \<Rightarrow> guard admin (if k \<notin> {''ClusterRole'', ''Role''} then Inl 422
          else Inr (delete_policy k n st)))"

section \<open>Lemmas: the bindings\<close>

text \<open>The Kubernetes API has one binding per name.\<close>

definition tables_ok :: "kube \<Rightarrow> bool" where
  "tables_ok k \<longleftrightarrow> distinct (map fst (kb_crbs k)) \<and> distinct (map fst (kb_rbs k))"

definition grant_of :: "request_record \<Rightarrow> int \<Rightarrow> binding" where
  "grant_of r expires_at = \<lparr>bd_role_ref = rec_role_name r,
     bd_role_kind = (if granted_scope (rec_namespace r) = None then ''ClusterRole'' else rec_role_kind r),
     bd_subjects = [the_subject (rec_target_username r) (rec_user_kind r) (rec_sa_namespace r)],
     bd_jit = True, bd_expires = Some expires_at\<rparr>"

lemma lookup_tables:
  "lookup (k\<lparr>kb_crbs := bs\<rparr>) sc n = (if sc = None then map_of bs n else lookup k sc n)"
  "lookup (k\<lparr>kb_rbs := bs'\<rparr>) sc n = (case sc of None \<Rightarrow> lookup k sc n | Some ns \<Rightarrow> map_of bs' (ns, n))"
  by (cases sc; simp)+

lemma lookup_cong: "kb_rbs k' = kb_rbs k \<Longrightarrow> kb_crbs k' = kb_crbs k \<Longrightarrow> lookup k' sc n = lookup k sc n"
  by (cases sc) simp_all

lemma kube_call_Inr: "kube_call k r = Inr x \<longleftrightarrow> kb_denied k = None \<and> r = Inr x"
  by (simp add: kube_call_def split: option.split)

lemma map_sum_Inr: "map_sum id f r = Inr x \<longleftrightarrow> (\<exists>y. r = Inr y \<and> x = f y)"
  by (cases r) auto

lemma created_Inr:
  "created ok key b bs = Inr bs' \<Longrightarrow> ok b \<and> map_of bs key = None \<and> map_of bs' = (map_of bs)(key \<mapsto> b) \<and>
     (distinct (map fst bs) \<longrightarrow> distinct (map fst bs'))"
  by (auto simp: created_def map_of_eq_None_iff map_of_created simp del: map_of_append split: if_splits)

lemma removed_Inr:
  "removed key bs = Inr bs' \<Longrightarrow> map_of bs' = (map_of bs)(key := None) \<and>
     (distinct (map fst bs) \<longrightarrow> distinct (map fst bs'))"
  by (auto simp: removed_def delete_conv' distinct_delete split: if_splits)

lemma create_grant_Inr:
  assumes "create_grant r e k = Inr k'"
  shows "kb_denied k = None \<and> (tables_ok k \<longrightarrow> tables_ok k') \<and>
    lookup k (granted_scope (rec_namespace r)) (jit_name (rec_id r)) = None \<and>
    (\<forall>sc n. lookup k' sc n = (if sc = granted_scope (rec_namespace r) \<and> n = jit_name (rec_id r)
       then Some (grant_of r e) else lookup k sc n))"
proof (cases "granted_scope (rec_namespace r)")
  case None
  with assms obtain bs where "kb_denied k = None" "k' = k\<lparr>kb_crbs := bs\<rparr>"
    "created (kb_admits k (jit_name (rec_id r))) (jit_name (rec_id r)) (grant_of r e) (kb_crbs k) = Inr bs"
    by (auto simp: create_grant_def create_cluster_role_binding_def on_crbs_def kube_call_Inr map_sum_Inr
        grant_of_def the_subject_def)
  with created_Inr [OF this(3)] None show ?thesis
    by (auto simp: tables_ok_def lookup_tables)
next
  case (Some ns)
  with assms obtain k1 bs where k1: "ensure_namespace ns k = Inr k1" "kb_denied k1 = None"
    and k': "k' = k1\<lparr>kb_rbs := bs\<rparr>"
    and c: "created (kb_admits k1 (jit_name (rec_id r))) (ns, jit_name (rec_id r)) (grant_of r e) (kb_rbs k1) = Inr bs"
    by (auto simp: create_grant_def create_role_binding_def on_rbs_def kube_call_Inr map_sum_Inr
        grant_of_def the_subject_def split: sum.splits)
  from k1 have k: "kb_denied k = None" "kb_rbs k1 = kb_rbs k" "kb_crbs k1 = kb_crbs k"
    by (auto simp: ensure_namespace_def kube_call_Inr split: if_splits)
  show ?thesis
    using created_Inr [OF c] Some k1 k lookup_cong [OF k(2,3)]
    by (auto simp: k' tables_ok_def lookup_tables split: option.splits)
qed

text \<open>Deleting a binding, in one scope or the other: it is gone, or was not there, or the cluster says so
  without answering anything else.\<close>

definition without :: "string option \<Rightarrow> string \<Rightarrow> kube \<Rightarrow> kube \<Rightarrow> bool" where
  "without sc m k k' \<longleftrightarrow> tables_ok k' \<and> (\<forall>sc' n. lookup k' sc' n = lookup k sc' n \<or>
     (sc' = sc \<and> n = m \<and> lookup k' sc' n = None))"

lemma removed_without:
  assumes "tables_ok k"
  shows "on_crbs (removed m) k = Inr k' \<Longrightarrow> without None m k k'"
    and "on_rbs (removed (ns, m)) k = Inr k' \<Longrightarrow> without (Some ns) m k k'"
  using assms
  by (auto simp: on_crbs_def on_rbs_def kube_call_Inr map_sum_Inr without_def tables_ok_def lookup_tables
      dest!: removed_Inr split: option.splits if_splits)

lemma without_refl: "tables_ok k \<Longrightarrow> without sc m k k"
  by (simp add: without_def)

lemma delete_grant_Inr:
  assumes "delete_grant r k = Inr k'" "tables_ok k"
  obtains m where "rec_binding_name r = Some m" "without (granted_scope (rec_namespace r)) m k k'"
proof -
  from assms(1) obtain m where m: "rec_binding_name r = Some m" by (auto simp: delete_grant_def split: option.splits)
  have "on_404 (case granted_scope (rec_namespace r) of Some ns \<Rightarrow> on_rbs (removed (ns, m)) k
      | None \<Rightarrow> on_crbs (removed m) k) (Inr k) = Inr k'"
    using assms(1) unfolding delete_grant_def m option.case .
  then have "without (granted_scope (rec_namespace r)) m k k'"
    using removed_without [OF assms(2)] without_refl [OF assms(2)]
    by (auto simp: on_404_def split: option.splits sum.splits if_splits)
  with m show ?thesis by (rule that)
qed

lemma jit_name_eq [simp]: "jit_name i = jit_name i' \<longleftrightarrow> i = i'"
  by (simp add: jit_name_def)

lemma map_of_filter_keys: "map_of [x \<leftarrow> bs. P (fst x)] key = (if P key then map_of bs key else None)"
  by (induction bs) auto

lemma distinct_filter_keys: "distinct (map fst bs) \<Longrightarrow> distinct (map fst (filter P bs))"
  by (induction bs) (auto dest: filter_is_subset [THEN subsetD])

lemma upsert_distinct:
  assumes "distinct (map fst bs)"
  shows "patched ok merge key ss bs = Inr bs' \<Longrightarrow> distinct (map fst bs')"
    and "created ok key b bs = Inr bs' \<Longrightarrow> distinct (map fst bs')"
  using assms created_Inr [of ok key b bs bs'] by (auto simp: patched_def distinct_update Let_def split: option.splits if_splits)

lemma on_404_Inr: "on_404 r h = Inr x \<longleftrightarrow> r = Inr x \<or> (r = Inl 404 \<and> h = Inr x)"
  by (auto simp: on_404_def split: sum.splits)

text \<open>What a change of a cluster does to the bindings with the label of temporary grants: none is made, the
  subjects change at most at \<open>G\<close>, and at most those at \<open>T\<close> are taken away.\<close>

abbreviation nowhere :: "string option \<Rightarrow> string \<Rightarrow> bool" where
  "nowhere \<equiv> \<lambda>sc n. False"

definition labelled :: "kube \<Rightarrow> string option \<Rightarrow> string \<Rightarrow> bool" where
  "labelled k sc n \<longleftrightarrow> (case lookup k sc n of Some b \<Rightarrow> bd_jit b | None \<Rightarrow> False)"

definition changes :: "(string option \<Rightarrow> string \<Rightarrow> bool) \<Rightarrow> (string option \<Rightarrow> string \<Rightarrow> bool) \<Rightarrow> kube \<Rightarrow> kube \<Rightarrow> bool" where
  "changes G T k k' \<longleftrightarrow> tables_ok k' \<and>
     (\<forall>sc n b'. lookup k' sc n = Some b' \<and> bd_jit b' \<longrightarrow> (\<exists>b. lookup k sc n = Some b \<and> bd_jit b \<and>
        b'\<lparr>bd_subjects := []\<rparr> = b\<lparr>bd_subjects := []\<rparr> \<and> (bd_subjects b' = bd_subjects b \<or> G sc n))) \<and>
     (\<forall>sc n. labelled k sc n \<and> \<not> T sc n \<longrightarrow> labelled k' sc n)"

lemma changes_refl [simp]: "changes G T k k \<longleftrightarrow> tables_ok k"
  unfolding changes_def by blast

lemma changes_same_tables:
  "kb_crbs k' = kb_crbs k \<Longrightarrow> kb_rbs k' = kb_rbs k \<Longrightarrow> changes G T k k' \<longleftrightarrow> tables_ok k'"
  unfolding changes_def labelled_def using lookup_cong [of k' k] by auto

lemma without_changes:
  "without sc m k k' \<Longrightarrow> changes nowhere (\<lambda>sc' n. sc' = sc \<and> n = m) k k'"
  unfolding without_def changes_def labelled_def by (metis option.distinct(1))

lemma assign_role_changes:
  assumes "assign_role merge u kind r rk ns sa k = Inr k'" "tables_ok k"
  shows "changes (\<lambda>sc n. sc = granted_in ns rk \<and> n = binding_name u r) nowhere k k'"
proof -
  have kind: "kind \<in> set subject_kinds" using assms(1) by (auto simp: assign_role_def Let_def split: if_splits)
  have d: "kb_denied k = None"
  proof (rule ccontr)
    assume "kb_denied k \<noteq> None"
    then obtain st where "kb_denied k = Some st" by blast
    with assms(1) kind show False
      by (auto simp: assign_role_def Let_def on_404_Inr on_crbs_def on_rbs_def create_cluster_role_binding_def
          create_role_binding_def ensure_namespace_def split: if_splits)
  qed
  let ?sc = "granted_in ns rk" and ?n = "binding_name u r"
  let ?b = "granted_binding merge (lookup k ?sc ?n) r (granted_kind ?sc rk) (the_subject u kind sa)"
  from assign_role_effect_aux [OF d kind refl refl refl, where merge = merge and u = u and r = r and rk = rk
      and ns = ns and sa = sa] assms(1) have
    l: "\<And>sc n. lookup k' sc n = (if sc = ?sc \<and> n = ?n then Some ?b else lookup k sc n)"
    by (auto split: if_splits)
  have "tables_ok k'"
    using assms(1,2) d
    by (auto simp: assign_role_def Let_def on_404_Inr on_crbs_def on_rbs_def map_sum_Inr tables_ok_def
        create_cluster_role_binding_def create_role_binding_def ensure_namespace_def kube_call_Inr
        split: if_splits sum.splits elim: upsert_distinct [rotated])
  then show ?thesis
    by (auto simp: changes_def l labelled_def granted_binding_def split: option.splits)
qed

lemma revoke_role_changes:
  assumes "revoke_role u r ns k = Inr k'" "tables_ok k"
  shows "changes nowhere (\<lambda>sc n. sc = ns \<and> n = binding_name u r) k k'"
  using assms removed_without [OF assms(2)] without_changes
  by (cases ns) (fastforce simp: revoke_role_def Let_def on_404_Inr)+

lemma delete_user_bindings_changes:
  assumes "delete_user_bindings u k = Inr k'" "tables_ok k"
  shows "changes nowhere (\<lambda>sc n. prefix (''clustervision-'' @ u @ ''-'') n) k k'"
proof -
  have d: "kb_denied k = None"
    using assms(1) by (auto simp: delete_user_bindings_def Let_def kube_call_Inr split: sum.splits)
  have k': "k' = k\<lparr>kb_crbs := [x \<leftarrow> kb_crbs k. unmanaged_by u (fst x)],
     kb_rbs := [x \<leftarrow> kb_rbs k. unmanaged_by u (snd (fst x))]\<rparr>"
    using assms(1) unfolding delete_user_bindings_eq [OF d] by simp
  have "lookup k' sc n = (if unmanaged_by u n then lookup k sc n else None)" for sc n
    using map_of_filter_keys [of "unmanaged_by u" "kb_crbs k" n] map_of_filter_keys [of "\<lambda>x. unmanaged_by u (snd x)" "kb_rbs k"]
    by (cases sc) (simp_all add: k')
  with assms(2) show ?thesis
    by (auto simp: changes_def labelled_def tables_ok_def k' distinct_filter_keys unmanaged_by_def split: if_splits)
qed

text \<open>The bindings made under a name of the caller's choice have no label.\<close>

lemma create_binding_changes:
  assumes "tables_ok k"
  shows "create_cluster_role_binding m r ss False None k = Inr k' \<Longrightarrow> changes nowhere nowhere k k'"
    and "create_role_binding ns m r rk ss False None k = Inr k' \<Longrightarrow> changes nowhere nowhere k k'"
proof -
  assume "create_cluster_role_binding m r ss False None k = Inr k'"
  then obtain bs where "created (kb_admits k m) m (plain_binding r ''ClusterRole'' ss) (kb_crbs k) = Inr bs"
    and k': "k' = k\<lparr>kb_crbs := bs\<rparr>"
    by (auto simp: create_cluster_role_binding_def on_crbs_def kube_call_Inr map_sum_Inr)
  with created_Inr [OF this(1)] assms show "changes nowhere nowhere k k'"
    by (auto simp: changes_def labelled_def tables_ok_def lookup_tables split: if_splits)
next
  assume "create_role_binding ns m r rk ss False None k = Inr k'"
  then obtain k1 bs where k1: "ensure_namespace ns k = Inr k1" and k': "k' = k1\<lparr>kb_rbs := bs\<rparr>"
    and c: "created (kb_admits k1 m) (ns, m) (plain_binding r rk ss) (kb_rbs k1) = Inr bs"
    by (auto simp: create_role_binding_def on_rbs_def kube_call_Inr map_sum_Inr split: sum.splits)
  from k1 have "kb_rbs k1 = kb_rbs k" "kb_crbs k1 = kb_crbs k"
    by (auto simp: ensure_namespace_def kube_call_Inr split: if_splits)
  with created_Inr [OF c] assms lookup_cong [OF this] show "changes nowhere nowhere k k'"
    by (auto simp: k' changes_def labelled_def tables_ok_def lookup_tables split: option.splits if_splits)
qed

text \<open>A cluster after a cleanup at an instant, complete or not: expired grants may be gone, nothing else
  changed.\<close>

definition swept :: "int \<Rightarrow> kube \<Rightarrow> kube \<Rightarrow> bool" where
  "swept now k k' \<longleftrightarrow> tables_ok k' \<and> kb_denied k' = kb_denied k \<and> (\<forall>sc n. lookup k' sc n = lookup k sc n \<or>
     (\<exists>b. lookup k sc n = Some b \<and> is_expired now b \<and> lookup k' sc n = None))"

definition clean :: "int \<Rightarrow> kube \<Rightarrow> bool" where
  "clean now k \<longleftrightarrow> (\<forall>sc n b. lookup k sc n = Some b \<longrightarrow> \<not> is_expired now b)"

lemma swept_refl [simp]: "swept now k k \<longleftrightarrow> tables_ok k"
  by (simp add: swept_def)

lemma swept_trans: "swept now k k1 \<Longrightarrow> swept now k1 k2 \<Longrightarrow> swept now k k2"
  unfolding swept_def by (metis option.distinct(1))

lemma swept_clean: "swept now k k' \<Longrightarrow> clean now k \<Longrightarrow> clean now k'"
  unfolding swept_def clean_def by (metis option.distinct(1))

lemma swept_without:
  assumes "without sc m k k'" "kb_denied k' = kb_denied k"
    and "\<And>b. lookup k sc m = Some b \<Longrightarrow> is_expired now b"
  shows "swept now k k'"
proof -
  have "lookup k' sc' n = lookup k sc' n \<or> (\<exists>b. lookup k sc' n = Some b \<and> is_expired now b \<and> lookup k' sc' n = None)"
    for sc' n
  proof (cases "lookup k' sc' n = lookup k sc' n")
    case False
    with assms(1) have "sc' = sc" "n = m" "lookup k' sc' n = None" unfolding without_def by blast+
    with False assms(3) show ?thesis by (cases "lookup k sc m") auto
  qed simp
  with assms(1,2) show ?thesis by (simp add: swept_def without_def)
qed

text \<open>Deleting one after the other: whatever fails, a cluster is swept; and a deletion is counted unless
  something fails.\<close>

lemma delete_counting_swept:
  assumes "tables_ok k"
    and "\<And>d k1 k2. d \<in> set ds \<Longrightarrow> swept now k k1 \<Longrightarrow> d k1 = Inr k2 \<Longrightarrow> swept now k1 k2"
    and "delete_counting ds (k, m) = (k', r)"
  shows "swept now k k' \<and> (\<forall>m'. r = Inr m' \<longrightarrow> m \<le> m' \<and> (k' = k \<or> m < m'))"
proof -
  have "swept now k k1 \<Longrightarrow> delete_counting ds (k1, m) = (k', r) \<Longrightarrow>
      swept now k k' \<and> (\<forall>m'. r = Inr m' \<longrightarrow> m \<le> m' \<and> (k' = k1 \<or> m < m'))" for k1
    using assms(2)
  proof (induction ds arbitrary: k1 m)
    case (Cons d ds)
    show ?case
    proof (cases "d k1")
      case (Inr k2)
      with Cons.prems(1,3) have "swept now k k2" by (auto intro: swept_trans)
      moreover have "delete_counting ds (k2, Suc m) = (k', r)" using Cons.prems(2) Inr by simp
      ultimately have IH: "swept now k k' \<and> (\<forall>m'. r = Inr m' \<longrightarrow> Suc m \<le> m' \<and> (k' = k2 \<or> Suc m < m'))"
        using Cons.IH [of k2 "Suc m"] Cons.prems(3) by auto
      have "m \<le> m' \<and> m < m'" if "r = Inr m'" for m' using IH that by (auto dest: Suc_leD)
      with IH show ?thesis by blast
    next
      case (Inl st)
      with Cons.prems Cons.IH [of k1 m] show ?thesis by (auto split: if_splits)
    qed
  qed auto
  moreover have "swept now k k" using assms(1) by simp
  ultimately show ?thesis using assms(3) by blast
qed

lemma expired_keys_iff:
  assumes "distinct (map fst bs)"
  shows "key \<in> set (expired_keys now bs) \<longleftrightarrow> (\<exists>b. map_of bs key = Some b \<and> is_expired now b)"
  using assms by (force simp: expired_keys_def image_iff)

lemma attempt_swept:
  assumes "tables_ok k" "swept now k k1"
  shows "n \<in> set (expired_keys now (kb_crbs k)) \<Longrightarrow> attempt f (Delete_crb n) (on_crbs (removed n)) k1 = Inr k2 \<Longrightarrow> swept now k1 k2"
    and "key \<in> set (expired_keys now (kb_rbs k)) \<Longrightarrow> attempt f (Delete_rb key) (on_rbs (removed key)) k1 = Inr k2 \<Longrightarrow> swept now k1 k2"
proof -
  have ok: "tables_ok k1" using assms(2) by (simp add: swept_def)
  have d: "distinct (map fst (kb_crbs k))" "distinct (map fst (kb_rbs k))" using assms(1) by (simp_all add: tables_ok_def)
  have e: "is_expired now b" if "lookup k1 sc m = Some b" "\<exists>b. lookup k sc m = Some b \<and> is_expired now b" for sc m b
    using that assms(2) unfolding swept_def by (metis option.distinct(1) option.inject)
  {
    assume n: "n \<in> set (expired_keys now (kb_crbs k))" and "attempt f (Delete_crb n) (on_crbs (removed n)) k1 = Inr k2"
    then have r: "on_crbs (removed n) k1 = Inr k2" by (simp add: attempt_def split: option.splits)
    then have "kb_denied k2 = kb_denied k1" by (auto simp: on_crbs_def kube_call_Inr map_sum_Inr)
    with removed_without(1) [OF ok r] show "swept now k1 k2"
      using n e [of None n] expired_keys_iff [OF d(1)] by (intro swept_without) auto
  next
    assume n: "key \<in> set (expired_keys now (kb_rbs k))" and "attempt f (Delete_rb key) (on_rbs (removed key)) k1 = Inr k2"
    then have r: "on_rbs (removed key) k1 = Inr k2" by (simp add: attempt_def split: option.splits)
    then have "kb_denied k2 = kb_denied k1" by (auto simp: on_rbs_def kube_call_Inr map_sum_Inr)
    moreover obtain ns m where key: "key = (ns, m)" by fastforce
    ultimately show "swept now k1 k2"
      using removed_without(2) [OF ok, of ns m k2] r n e [of "Some ns" m] expired_keys_iff [OF d(2)]
      by (intro swept_without) auto
  }
qed

lemma reconcile_swept:
  assumes "reconcile refuse now k = (k', r)" "tables_ok k"
  shows "swept now k k' \<and> (\<forall>m. r = Inr m \<longrightarrow> k' = k \<or> m > 0)"
proof (cases "listed refuse List_crbs k")
  case None
  obtain k1 r1 where 1: "delete_counting (map (\<lambda>n. attempt refuse (Delete_crb n) (on_crbs (removed n)))
      (expired_keys now (kb_crbs k))) (k, 0) = (k1, r1)" by fastforce
  have s1: "swept now k k1 \<and> (\<forall>m. r1 = Inr m \<longrightarrow> 0 \<le> m \<and> (k1 = k \<or> 0 < m))"
    by (rule delete_counting_swept [OF assms(2) _ 1]) (auto intro: attempt_swept [OF assms(2)])
  then have ok: "tables_ok k1" by (simp add: swept_def)
  show ?thesis
  proof (cases r1)
    case (Inr n)
    note r1 = this
    show ?thesis
    proof (cases "listed refuse List_rbs k1")
      case None
      with assms(1) \<open>listed refuse List_crbs k = None\<close> 1 r1 have
        2: "delete_counting (map (\<lambda>key. attempt refuse (Delete_rb key) (on_rbs (removed key)))
          (expired_keys now (kb_rbs k1))) (k1, n) = (k', r)" by (simp add: reconcile_def)
      have "swept now k1 k' \<and> (\<forall>m. r = Inr m \<longrightarrow> n \<le> m \<and> (k' = k1 \<or> n < m))"
        by (rule delete_counting_swept [OF ok _ 2]) (auto intro: attempt_swept [OF ok])
      with s1 r1 show ?thesis by (fastforce intro: swept_trans)
    qed (use assms(1) None 1 r1 s1 in \<open>auto simp: reconcile_def\<close>)
  qed (use assms(1) None 1 s1 in \<open>auto simp: reconcile_def\<close>)
qed (use assms in \<open>auto simp: reconcile_def\<close>)

text \<open>A cluster that answers every call is clean afterwards.\<close>

lemma reconcile_reached:
  assumes "kb_denied k = None" "tables_ok k" "\<forall>call. refuse call = None"
  shows "\<exists>k' m. reconcile refuse now k = (k', Inr m) \<and> clean now k'"
proof -
  have a: "attempt refuse call f = f" for call f by (simp add: attempt_def assms(3) fun_eq_iff)
  have l: "listed refuse call k1 = None" if "kb_denied k1 = None" for call k1 by (simp add: listed_def that assms(3))
  have crbs: "\<exists>k1 n. delete_counting (map (\<lambda>n. on_crbs (removed n)) ns) (k, m) = (k1, Inr n) \<and> kb_denied k1 = None \<and>
      kb_rbs k1 = kb_rbs k \<and> map_of (kb_crbs k1) = (\<lambda>n. if n \<in> set ns then None else map_of (kb_crbs k) n)"
    if "kb_denied k = None" for ns m k
    using that
  proof (induction ns arbitrary: k m)
    case (Cons n ns)
    show ?case
    proof (cases "removed n (kb_crbs k)")
      case (Inr bs)
      have "map_of bs = (map_of (kb_crbs k))(n := None)" using removed_Inr [OF Inr] by blast
      with Cons.IH [of "k\<lparr>kb_crbs := bs\<rparr>" "Suc m"] Cons.prems Inr show ?thesis
        by (auto simp: on_crbs_def fun_eq_iff)
    next
      case (Inl st)
      then have "st = 404" "map_of (kb_crbs k) n = None" by (auto simp: removed_def map_of_eq_None_iff split: if_splits)
      with Cons.IH [of k m] Cons.prems Inl show ?thesis by (auto simp: on_crbs_def fun_eq_iff)
    qed
  qed auto
  have rbs: "\<exists>k1 n. delete_counting (map (\<lambda>key. on_rbs (removed key)) ns) (k, m) = (k1, Inr n) \<and>
      kb_crbs k1 = kb_crbs k \<and> map_of (kb_rbs k1) = (\<lambda>n. if n \<in> set ns then None else map_of (kb_rbs k) n)"
    if "kb_denied k = None" for ns m k
    using that
  proof (induction ns arbitrary: k m)
    case (Cons n ns)
    show ?case
    proof (cases "removed n (kb_rbs k)")
      case (Inr bs)
      have "map_of bs = (map_of (kb_rbs k))(n := None)" using removed_Inr [OF Inr] by blast
      with Cons.IH [of "k\<lparr>kb_rbs := bs\<rparr>" "Suc m"] Cons.prems Inr show ?thesis
        by (auto simp: on_rbs_def fun_eq_iff)
    next
      case (Inl st)
      then have "st = 404" "map_of (kb_rbs k) n = None" by (auto simp: removed_def map_of_eq_None_iff split: if_splits)
      with Cons.IH [of k m] Cons.prems Inl show ?thesis by (auto simp: on_rbs_def fun_eq_iff)
    qed
  qed auto
  from crbs [OF assms(1)] obtain k1 n1 where 1: "delete_counting (map (\<lambda>n. on_crbs (removed n)) (expired_keys now (kb_crbs k))) (k, 0) = (k1, Inr n1)"
    "kb_denied k1 = None" "kb_rbs k1 = kb_rbs k"
    "map_of (kb_crbs k1) = (\<lambda>n. if n \<in> set (expired_keys now (kb_crbs k)) then None else map_of (kb_crbs k) n)" by blast
  from rbs [OF 1(2)] obtain k2 n2 where 2: "delete_counting (map (\<lambda>key. on_rbs (removed key)) (expired_keys now (kb_rbs k1))) (k1, n1) = (k2, Inr n2)"
    "kb_crbs k2 = kb_crbs k1"
    "map_of (kb_rbs k2) = (\<lambda>n. if n \<in> set (expired_keys now (kb_rbs k1)) then None else map_of (kb_rbs k1) n)" by blast
  have "reconcile refuse now k = (k2, Inr n2)"
    by (simp add: reconcile_def a l assms(1) 1(1,2) 2(1))
  moreover have "clean now k2"
    unfolding clean_def
  proof (intro allI impI)
    fix sc n b assume "lookup k2 sc n = Some b"
    then show "\<not> is_expired now b"
      using assms(2) expired_keys_iff [of "kb_crbs k" n now] expired_keys_iff [of "kb_rbs k" _ now]
      by (cases sc) (auto simp: 1(3,4) 2(2,3) tables_ok_def split: if_splits)
  qed
  ultimately show ?thesis by blast
qed

text \<open>The remote clusters: each is swept, those that answer are clean, and unless a call fails a deletion
  is counted.\<close>

lemma set_cluster_simps [simp]:
  "be_clusters (set_cluster c k st) = (be_clusters st)(c := k)" "be_requests (set_cluster c k st) = be_requests st"
  "be_policies (set_cluster c k st) = be_policies st" "be_registered (set_cluster c k st) = be_registered st"
  "be_now (set_cluster c k st) = be_now st"
  by (simp_all add: set_cluster_def)

lemma reconcile_unrefused:
  assumes "reconcile refuse now k = (k', Inl e)" "tables_ok k" "\<forall>call. refuse call = None"
  shows "k' = k"
proof (cases "kb_denied k")
  case None
  from reconcile_reached [OF this assms(2,3), of now] assms(1) show ?thesis by auto
next
  case (Some st)
  with assms(1) show ?thesis by (simp add: reconcile_def listed_def)
qed

lemma reconcile_remote_effect:
  assumes "reconcile_remote refuse at cs (st, m) = (st', m')" "\<And>c. tables_ok (be_clusters st c)"
  shows "be_requests st' = be_requests st \<and> be_policies st' = be_policies st \<and> be_registered st' = be_registered st \<and>
    be_now st' = be_now st \<and> m \<le> m' \<and>
    (\<forall>c. swept (at c) (be_clusters st c) (be_clusters st' c) \<and>
       (c \<in> set cs \<and> kb_denied (be_clusters st c) = None \<and> (\<forall>call. refuse c call = None) \<longrightarrow>
         clean (at c) (be_clusters st' c))) \<and>
    ((\<forall>c call. refuse c call = None) \<longrightarrow> be_clusters st' = be_clusters st \<or> m < m')"
  using assms
proof (induction cs arbitrary: st m)
  case (Cons c cs)
  obtain k r where r: "reconcile (refuse c) (at c) (be_clusters st c) = (k, r)" by fastforce
  define n where "n = (case r of Inl e \<Rightarrow> 0 | Inr n \<Rightarrow> n)"
  from reconcile_swept [OF r Cons.prems(2)] have sw: "swept (at c) (be_clusters st c) k"
    and cnt: "\<And>m. r = Inr m \<Longrightarrow> k = be_clusters st c \<or> m > 0" by blast+
  have counted: "k = be_clusters st c \<or> n > 0" if "\<forall>c call. refuse c call = None"
  proof (cases r)
    case (Inl e)
    with reconcile_unrefused [OF _ Cons.prems(2)] r that show ?thesis by blast
  qed (use cnt in \<open>auto simp: n_def\<close>)
  let ?st = "set_cluster c k st"
  have "reconcile_remote refuse at cs (?st, m + n) = (st', m')"
    using Cons.prems(1) by (auto simp: r n_def split: sum.splits)
  moreover have "tables_ok (be_clusters ?st d)" for d using Cons.prems(2) sw by (simp add: swept_def)
  ultimately have IH: "be_requests st' = be_requests ?st \<and> be_policies st' = be_policies ?st \<and>
    be_registered st' = be_registered ?st \<and> be_now st' = be_now ?st \<and> m + n \<le> m' \<and>
    (\<forall>d. swept (at d) (be_clusters ?st d) (be_clusters st' d) \<and>
       (d \<in> set cs \<and> kb_denied (be_clusters ?st d) = None \<and> (\<forall>call. refuse d call = None) \<longrightarrow>
         clean (at d) (be_clusters st' d))) \<and>
    ((\<forall>c call. refuse c call = None) \<longrightarrow> be_clusters st' = be_clusters ?st \<or> m + n < m')"
    by (rule Cons.IH)
  then have s: "swept (at d) (be_clusters ?st d) (be_clusters st' d)" for d by blast
  have "swept (at d) (be_clusters st d) (be_clusters st' d)" for d
    using s [of d] swept_trans [OF sw, of "be_clusters st' c"] by (cases "d = c") simp_all
  moreover have "clean (at d) (be_clusters st' d)"
    if d: "d \<in> set (c # cs)" "kb_denied (be_clusters st d) = None" "\<forall>call. refuse d call = None" for d
  proof (cases "d = c")
    case True
    with reconcile_reached [OF d(2) Cons.prems(2), of "refuse c" "at c"] d(3) r have "clean (at c) k" by auto
    with s [of c] True show ?thesis by (auto intro: swept_clean)
  next
    case False
    with d IH show ?thesis by simp
  qed
  moreover have "be_clusters st' = be_clusters st \<or> m < m'" if "\<forall>c call. refuse c call = None"
  proof (cases "n > 0")
    case True
    with IH show ?thesis by linarith
  next
    case False
    with counted [OF that] have "be_clusters ?st = be_clusters st" by auto
    with IH that show ?thesis by auto
  qed
  ultimately show ?case using IH by simp
qed simp

text \<open>The job: the requests are those before it, marked or not; and when something was deleted and no call
  failed, they are marked.\<close>

lemma cleanup_job_effect:
  assumes "\<And>c. tables_ok (be_clusters st c)"
  obtains cl where "cleanup_job refuse at t st = st\<lparr>be_clusters := cl\<rparr> \<or>
      cleanup_job refuse at t st = mark_expired t (st\<lparr>be_clusters := cl\<rparr>)"
    and "\<And>c. swept (at c) (be_clusters st c) (cl c)"
    and "(\<forall>c call. refuse c call = None) \<Longrightarrow> cl \<noteq> be_clusters st \<Longrightarrow>
      cleanup_job refuse at t st = mark_expired t (st\<lparr>be_clusters := cl\<rparr>)"
    and "\<And>c. kb_denied (be_clusters st ''local'') = None \<Longrightarrow> \<forall>call. refuse ''local'' call = None \<Longrightarrow>
      kb_denied (be_clusters st c) = None \<Longrightarrow> \<forall>call. refuse c call = None \<Longrightarrow>
      c \<in> set (''local'' # be_registered st) \<Longrightarrow> clean (at c) (cl c)"
proof -
  let ?l = "''local''"
  obtain k r where r: "reconcile (refuse ?l) (at ?l) (be_clusters st ?l) = (k, r)" by fastforce
  from reconcile_swept [OF r assms] have sw: "swept (at ?l) (be_clusters st ?l) k"
    and cnt: "\<And>m. r = Inr m \<Longrightarrow> k = be_clusters st ?l \<or> m > 0" by blast+
  have here: "clean (at ?l) k \<and> (\<exists>n. r = Inr n)" if "kb_denied (be_clusters st ?l) = None" "\<forall>call. refuse ?l call = None"
    using reconcile_reached [OF that(1) assms, of "refuse ?l" "at ?l"] that(2) r by auto
  show ?thesis
  proof (cases r)
    case (Inl e)
    have job: "cleanup_job refuse at t st = st\<lparr>be_clusters := (be_clusters st)(?l := k)\<rparr>"
      by (simp add: cleanup_job_def r Inl set_cluster_def)
    show ?thesis
    proof (rule that [of "(be_clusters st)(?l := k)"])
      show "swept (at c) (be_clusters st c) (((be_clusters st)(?l := k)) c)" for c using sw assms by simp
      assume "\<forall>c call. refuse c call = None" "(be_clusters st)(?l := k) \<noteq> be_clusters st"
      moreover from this(1) have "k = be_clusters st ?l" using reconcile_unrefused [OF r [unfolded Inl] assms] by blast
      ultimately show "cleanup_job refuse at t st = mark_expired t (st\<lparr>be_clusters := (be_clusters st)(?l := k)\<rparr>)" by auto
    qed (use job here Inl in auto)
  next
    case (Inr n)
    let ?st = "set_cluster ?l k st"
    obtain st' m where rest: "reconcile_remote refuse at (be_registered st) (?st, n) = (st', m)" by fastforce
    have "tables_ok (be_clusters ?st d)" for d using assms sw by (simp add: swept_def)
    note E = reconcile_remote_effect [OF rest this]
    then have s: "swept (at c) (be_clusters ?st c) (be_clusters st' c)" for c by blast
    have st': "st' = st\<lparr>be_clusters := be_clusters st'\<rparr>" using E by simp
    have job: "cleanup_job refuse at t st = (if m > 0 then mark_expired t st' else st')"
      by (simp add: cleanup_job_def r Inr rest)
    show ?thesis
    proof (rule that [of "be_clusters st'"])
      show "cleanup_job refuse at t st = st\<lparr>be_clusters := be_clusters st'\<rparr> \<or>
        cleanup_job refuse at t st = mark_expired t (st\<lparr>be_clusters := be_clusters st'\<rparr>)"
        unfolding job st' [symmetric] by simp
      show "swept (at c) (be_clusters st c) (be_clusters st' c)" for c
        using s [of c] swept_trans [OF sw, of "be_clusters st' ?l"] by (cases "c = ?l") simp_all
      show "clean (at c) (be_clusters st' c)"
        if "kb_denied (be_clusters st ?l) = None" "\<forall>call. refuse ?l call = None"
          "kb_denied (be_clusters st c) = None" "\<forall>call. refuse c call = None" "c \<in> set (?l # be_registered st)" for c
      proof (cases "c = ?l")
        case True
        with here [OF that(1,2)] s [of ?l] show ?thesis by (auto intro: swept_clean)
      next
        case False
        with that(3-5) E show ?thesis by simp
      qed
      assume d: "\<forall>c call. refuse c call = None" "be_clusters st' \<noteq> be_clusters st"
      have "m > 0"
      proof (cases "n > 0")
        case True
        with E show ?thesis by linarith
      next
        case False
        with cnt Inr have "be_clusters ?st = be_clusters st" by auto
        with d E show ?thesis by auto
      qed
      then show "cleanup_job refuse at t st = mark_expired t (st\<lparr>be_clusters := be_clusters st'\<rparr>)"
        unfolding job st' [symmetric] by simp
    qed
  qed
qed

end
