(* ===== verification/GrantHistory.thy ===== *)
theory GrantHistory
  imports Approvals
begin

text \<open>
  Histories of the backend of Approvals.thy: the calls of its endpoints, by anybody and for any cluster,
  between those of the other endpoints that change bindings, changes made elsewhere, clusters that stop
  to answer, registrations and runs of the cleanup job, complete or not. One invariant relates every
  request with its binding; what holds of temporary access in all histories follows from it.
\<close>

section \<open>Histories\<close>

text \<open>The endpoints of \<open>routers/rbac.py\<close> for bindings of any name.\<close>

datatype bindings_call =
  PostClusterBinding binding_create
| DeleteClusterBinding string
| PostNamespaceBinding string binding_create
| DeleteNamespaceBinding string string

fun direct :: "bindings_call \<Rightarrow> kube \<Rightarrow> nat + kube" where
  "direct (PostClusterBinding p) k = create_cluster_binding p k"
| "direct (DeleteClusterBinding n) k = delete_cluster_binding n k"
| "direct (PostNamespaceBinding ns p) k = create_namespace_binding ns p k"
| "direct (DeleteNamespaceBinding ns n) k = delete_namespace_binding ns n k"

text \<open>What happens to the backend: calls of the endpoints of access requests, with the identifier drawn
  for a new record; on a cluster the mutations of the permissions panel, the calls of the endpoints for
  bindings of any name, and the deletion of a user; a change of a cluster by somebody else (other
  tools, and what a call that failed halfway had done by then); a cluster that starts or stops to
  answer; registrations; a run of the cleanup job, with the calls that fail in it; time.\<close>

datatype backend_event =
  Serve auth_user string access_requests_call string
| Panel string rbac_mutation
| Direct string bindings_call
| DeleteUser string string
| Elsewhere string kube
| Outage string "nat option"
| Registered "string list"
| Cleanup "string \<Rightarrow> job_call \<Rightarrow> nat option" "string \<Rightarrow> int" int
| Wait int

definition on_kube :: "string \<Rightarrow> nat + kube \<Rightarrow> backend \<Rightarrow> backend" where
  "on_kube c r st = (case r of Inr k \<Rightarrow> set_cluster c k st | Inl e \<Rightarrow> st)"

fun backend_next ::
  "(subject list \<Rightarrow> subject list \<Rightarrow> subject list) \<Rightarrow> backend_event \<Rightarrow> backend \<Rightarrow> backend"
where
  "backend_next merge (Serve u c call i) st = (case serve u c call i st of Inr st' \<Rightarrow> st' | Inl e \<Rightarrow> st)"
| "backend_next merge (Panel c m) st =
     (case answer merge m (be_clusters st c) of Some r \<Rightarrow> on_kube c r st | None \<Rightarrow> st)"
| "backend_next merge (Direct c call) st = on_kube c (direct call (be_clusters st c)) st"
| "backend_next merge (DeleteUser c u) st = on_kube c (delete_user_bindings u (be_clusters st c)) st"
| "backend_next merge (Elsewhere c k) st = set_cluster c k st"
| "backend_next merge (Outage c d) st = set_cluster c ((be_clusters st c)\<lparr>kb_denied := d\<rparr>) st"
| "backend_next merge (Registered cs) st = st\<lparr>be_registered := cs\<rparr>"
| "backend_next merge (Cleanup refuse at t) st = (cleanup_job refuse at t st)\<lparr>be_now := t\<rparr>"
| "backend_next merge (Wait t) st = st\<lparr>be_now := t\<rparr>"

text \<open>All that is asked of the environment: time passes, and nobody else labels a binding as a temporary
  grant or changes one that is labelled, short of deleting it or taking the label off.\<close>

fun backend_env :: "backend \<Rightarrow> backend_event \<Rightarrow> bool" where
  "backend_env st (Elsewhere c k) \<longleftrightarrow> tables_ok k \<and>
     (\<forall>sc n b. lookup k sc n = Some b \<and> bd_jit b \<longrightarrow> lookup (be_clusters st c) sc n = Some b)"
| "backend_env st (Cleanup refuse at t) \<longleftrightarrow> (\<forall>c. be_now st \<le> at c \<and> at c \<le> t)"
| "backend_env st (Wait t) \<longleftrightarrow> be_now st \<le> t"
| "backend_env st e \<longleftrightarrow> True"

text \<open>A backend before the first request; what is bound on the clusters is not a temporary grant.\<close>

definition backend_fresh :: "backend \<Rightarrow> bool" where
  "backend_fresh st \<longleftrightarrow> be_requests st = [] \<and> (\<forall>c. tables_ok (be_clusters st c)) \<and>
     (\<forall>c sc n b. lookup (be_clusters st c) sc n = Some b \<longrightarrow> \<not> bd_jit b)"

inductive backend_run ::
  "(subject list \<Rightarrow> subject list \<Rightarrow> subject list) \<Rightarrow> backend \<Rightarrow> backend_event list \<Rightarrow> backend \<Rightarrow> bool"
  for merge st0 where
  br_start: "backend_run merge st0 [] st0"
| br_event: "backend_run merge st0 es st \<Longrightarrow> backend_env st e \<Longrightarrow>
     backend_run merge st0 (es @ [e]) (backend_next merge e st)"

text \<open>The events that may take the binding of a name away from a cluster, besides the revocation of its
  request: a revocation, a deletion or a change on that very cluster that hits the name, and a cleanup
  in which a call failed.\<close>

fun takes_away :: "string \<Rightarrow> string option \<Rightarrow> string \<Rightarrow> backend_event \<Rightarrow> bool" where
  "takes_away c sc n (Panel d (UseRevokeRole u r ns)) \<longleftrightarrow> d = c \<and> ns = sc \<and> binding_name u r = n"
| "takes_away c sc n (Direct d (DeleteClusterBinding m)) \<longleftrightarrow> d = c \<and> sc = None \<and> m = n"
| "takes_away c sc n (Direct d (DeleteNamespaceBinding ns m)) \<longleftrightarrow> d = c \<and> sc = Some ns \<and> m = n"
| "takes_away c sc n (DeleteUser d u) \<longleftrightarrow> d = c \<and> prefix (''clustervision-'' @ u @ ''-'') n"
| "takes_away c sc n (Elsewhere d k) \<longleftrightarrow> d = c \<and> \<not> labelled k sc n"
| "takes_away c sc n (Cleanup refuse at t) \<longleftrightarrow> refuse \<noteq> (\<lambda>d call. None)"
| "takes_away c sc n e \<longleftrightarrow> False"

section \<open>Lemmas: the invariant\<close>

text \<open>A request was approved on a cluster: by somebody who may, and who did not make it.\<close>

definition approved_on :: "backend_event list \<Rightarrow> request_record \<Rightarrow> string \<Rightarrow> bool" where
  "approved_on es r c \<longleftrightarrow> (\<exists>u i. Serve u c (AR_approve (rec_id r)) i \<in> set es \<and>
     rec_reviewed_by r = Some (au_username u) \<and> is_privileged (instance_role u) \<and> au_username u \<noteq> rec_requester r)"

text \<open>A role was assigned to a user with whom it makes the name of a binding.\<close>

definition regranted :: "backend_event list \<Rightarrow> string \<Rightarrow> string option \<Rightarrow> string \<Rightarrow> bool" where
  "regranted es c sc n \<longleftrightarrow> (\<exists>u a kind sa. Panel c (UseAssignRole u a kind sa) \<in> set es \<and>
     granted_in (ar_namespace a) (ar_role_kind a) = sc \<and> binding_name u (ar_role_name a) = n)"

definition taken_away :: "backend_event list \<Rightarrow> string \<Rightarrow> string option \<Rightarrow> string \<Rightarrow> bool" where
  "taken_away es c sc n \<longleftrightarrow> (\<exists>e\<in>set es. takes_away c sc n e)"

definition but_subjects :: "binding \<Rightarrow> binding" where
  "but_subjects b = b\<lparr>bd_subjects := []\<rparr>"

text \<open>A labelled binding is the grant of a request, made on \<open>c\<close> until \<open>e\<close>.\<close>

definition grant_ok :: "backend_event list \<Rightarrow> (string \<Rightarrow> kube) \<Rightarrow> request_record \<Rightarrow> string \<Rightarrow> int \<Rightarrow> bool" where
  "grant_ok es cl r c e \<longleftrightarrow> (\<forall>d sc b. lookup (cl d) sc (jit_name (rec_id r)) = Some b \<and> bd_jit b \<longrightarrow>
     d = c \<and> sc = granted_scope (rec_namespace r) \<and> but_subjects b = but_subjects (grant_of r e) \<and>
     (bd_subjects b = bd_subjects (grant_of r e) \<or> regranted es c sc (jit_name (rec_id r))))"

text \<open>A request and its binding: none with the label before the approval and after a denial; afterwards at
  most one, on the cluster of the approval, and exactly one while the request counts as approved and
  nothing took it away.\<close>

definition record_ok :: "backend_event list \<Rightarrow> (string \<Rightarrow> kube) \<Rightarrow> int \<Rightarrow> request_record \<Rightarrow> bool" where
  "record_ok es cl now r \<longleftrightarrow> rec_user_kind r \<in> set subject_kinds \<and>
     MIN_TTL_MINUTES \<le> rec_ttl_minutes r \<and> rec_ttl_minutes r \<le> MAX_TTL_MINUTES \<and>
     (if rec_status r \<in> {Pending, Denied} then \<forall>c sc. \<not> labelled (cl c) sc (jit_name (rec_id r))
      else \<exists>c e. approved_on es r c \<and> rec_expires_at r = Some e \<and> rec_binding_name r = Some (jit_name (rec_id r)) \<and>
        e \<le> now + minutes (rec_ttl_minutes r) \<and> grant_ok es cl r c e \<and>
        (rec_status r = Approved \<longrightarrow> labelled (cl c) (granted_scope (rec_namespace r)) (jit_name (rec_id r)) \<or>
           taken_away es c (granted_scope (rec_namespace r)) (jit_name (rec_id r))))"

definition backend_inv :: "backend_event list \<Rightarrow> backend \<Rightarrow> bool" where
  "backend_inv es st \<longleftrightarrow> (\<forall>c. tables_ok (be_clusters st c)) \<and> distinct (map rec_id (be_requests st)) \<and>
     (\<forall>r\<in>set (be_requests st). record_ok es (be_clusters st) (be_now st) r) \<and>
     (\<forall>c sc n. labelled (be_clusters st c) sc n \<longrightarrow> n \<in> (\<lambda>r. jit_name (rec_id r)) ` set (be_requests st))"

lemma labelled_iff: "labelled k sc n \<longleftrightarrow> (\<exists>b. lookup k sc n = Some b \<and> bd_jit b)"
  by (simp add: labelled_def split: option.split)

lemma labelled_lookup: "lookup k' sc n = lookup k sc n \<Longrightarrow> labelled k' sc n = labelled k sc n"
  by (simp add: labelled_def)

lemma but_subjects_eq [dest]: "but_subjects b = but_subjects b' \<Longrightarrow> bd_expires b = bd_expires b' \<and> bd_jit b = bd_jit b'"
  by (cases b; cases b') (simp add: but_subjects_def)

lemma history_mono:
  assumes "set es \<subseteq> set es'"
  shows "approved_on es r c \<Longrightarrow> approved_on es' r c" "regranted es c sc n \<Longrightarrow> regranted es' c sc n"
    "taken_away es c sc n \<Longrightarrow> taken_away es' c sc n"
  using assms unfolding approved_on_def regranted_def taken_away_def by blast+

text \<open>What a change of the clusters does to the labelled bindings of a name.\<close>

definition kept :: "backend_event list \<Rightarrow> (string \<Rightarrow> kube) \<Rightarrow> (string \<Rightarrow> kube) \<Rightarrow> string \<Rightarrow> bool" where
  "kept es cl cl' n \<longleftrightarrow> (\<forall>c sc b'. lookup (cl' c) sc n = Some b' \<and> bd_jit b' \<longrightarrow>
     (\<exists>b. lookup (cl c) sc n = Some b \<and> bd_jit b \<and> but_subjects b' = but_subjects b \<and>
        (bd_subjects b' = bd_subjects b \<or> regranted es c sc n)))"

definition held :: "backend_event list \<Rightarrow> (string \<Rightarrow> kube) \<Rightarrow> (string \<Rightarrow> kube) \<Rightarrow> string \<Rightarrow> bool" where
  "held es cl cl' n \<longleftrightarrow> (\<forall>c sc. labelled (cl c) sc n \<longrightarrow> labelled (cl' c) sc n \<or> taken_away es c sc n)"

lemma kept_same:
  assumes "\<And>c sc. lookup (cl' c) sc n = lookup (cl c) sc n"
  shows "kept es cl cl' n" "held es cl cl' n"
  by (simp_all add: kept_def held_def assms labelled_def)

lemma kept_labelled: "kept es cl cl' n \<Longrightarrow> labelled (cl' c) sc n \<Longrightarrow> labelled (cl c) sc n"
  unfolding kept_def labelled_iff by blast

lemma grant_ok_keep:
  assumes "grant_ok es cl r c e" "set es \<subseteq> set es'" "kept es' cl cl' (jit_name (rec_id r))"
  shows "grant_ok es' cl' r c e"
  unfolding grant_ok_def
proof (intro allI impI, elim conjE)
  fix d sc b' assume "lookup (cl' d) sc (jit_name (rec_id r)) = Some b'" "bd_jit b'"
  with assms(3) obtain b where b: "lookup (cl d) sc (jit_name (rec_id r)) = Some b" "bd_jit b"
    "but_subjects b' = but_subjects b" "bd_subjects b' = bd_subjects b \<or> regranted es' d sc (jit_name (rec_id r))"
    unfolding kept_def by blast
  with assms(1) have *: "d = c" "sc = granted_scope (rec_namespace r)" "but_subjects b = but_subjects (grant_of r e)"
    "bd_subjects b = bd_subjects (grant_of r e) \<or> regranted es c sc (jit_name (rec_id r))"
    unfolding grant_ok_def by blast+
  with b history_mono(2) [OF assms(2)] show "d = c \<and> sc = granted_scope (rec_namespace r) \<and>
      but_subjects b' = but_subjects (grant_of r e) \<and>
      (bd_subjects b' = bd_subjects (grant_of r e) \<or> regranted es' c sc (jit_name (rec_id r)))" by auto
qed

lemma record_ok_cases:
  assumes "record_ok es cl now r" "rec_status r \<notin> {Pending, Denied}"
  obtains c e where "approved_on es r c" "rec_expires_at r = Some e" "rec_binding_name r = Some (jit_name (rec_id r))"
    "e \<le> now + minutes (rec_ttl_minutes r)" "grant_ok es cl r c e"
    "rec_status r = Approved \<longrightarrow> labelled (cl c) (granted_scope (rec_namespace r)) (jit_name (rec_id r)) \<or>
       taken_away es c (granted_scope (rec_namespace r)) (jit_name (rec_id r))"
  using assms(1) unfolding record_ok_def if_not_P [OF assms(2)] by (elim exE conjE) (rule that, auto)

lemma record_ok_reviewed:
  assumes "rec_user_kind r \<in> set subject_kinds" "MIN_TTL_MINUTES \<le> rec_ttl_minutes r"
      "rec_ttl_minutes r \<le> MAX_TTL_MINUTES" "rec_status r \<notin> {Pending, Denied}"
    and "approved_on es r c" "rec_expires_at r = Some e" "rec_binding_name r = Some (jit_name (rec_id r))"
    and "e \<le> now + minutes (rec_ttl_minutes r)" "grant_ok es cl r c e"
    and "rec_status r = Approved \<Longrightarrow> labelled (cl c) (granted_scope (rec_namespace r)) (jit_name (rec_id r)) \<or>
       taken_away es c (granted_scope (rec_namespace r)) (jit_name (rec_id r))"
  shows "record_ok es cl now r"
  using assms unfolding record_ok_def by (simp only: if_False) blast

text \<open>What keeps a request as it is, and what ends an approval.\<close>

lemma record_ok_keep:
  assumes "record_ok es cl now r" "set es \<subseteq> set es'" "now \<le> now'" "kept es' cl cl' (jit_name (rec_id r))"
    and "rec_status r = Approved \<Longrightarrow> held es' cl cl' (jit_name (rec_id r))"
  shows "record_ok es' cl' now' r"
proof (cases "rec_status r \<in> {Pending, Denied}")
  case True
  with assms(1) kept_labelled [OF assms(4)] show ?thesis by (auto simp: record_ok_def)
next
  case False
  with assms(1) obtain c e where *: "approved_on es r c" "rec_expires_at r = Some e"
    "rec_binding_name r = Some (jit_name (rec_id r))" "e \<le> now + minutes (rec_ttl_minutes r)" "grant_ok es cl r c e"
    "rec_status r = Approved \<longrightarrow> labelled (cl c) (granted_scope (rec_namespace r)) (jit_name (rec_id r)) \<or>
       taken_away es c (granted_scope (rec_namespace r)) (jit_name (rec_id r))" by (rule record_ok_cases)
  show ?thesis
  proof (rule record_ok_reviewed [OF _ _ _ False history_mono(1) [OF assms(2) *(1)] *(2,3) _
        grant_ok_keep [OF *(5) assms(2,4)]])
    show "e \<le> now' + minutes (rec_ttl_minutes r)" using *(4) assms(3) by linarith
    assume "rec_status r = Approved"
    with *(6) assms(5) history_mono(3) [OF assms(2)] show
      "labelled (cl' c) (granted_scope (rec_namespace r)) (jit_name (rec_id r)) \<or>
       taken_away es' c (granted_scope (rec_namespace r)) (jit_name (rec_id r))" unfolding held_def by blast
  qed (use assms(1) in \<open>simp_all add: record_ok_def\<close>)
qed

lemma record_ok_mono: "record_ok es cl now r \<Longrightarrow> set es \<subseteq> set es' \<Longrightarrow> now \<le> now' \<Longrightarrow> record_ok es' cl now' r"
  by (rule record_ok_keep [OF _ _ _ kept_same(1) kept_same(2)]) simp_all

lemma grant_ok_status [simp]: "grant_ok es cl (r\<lparr>rec_status := status\<rparr>) c e = grant_ok es cl r c e"
  by (simp add: grant_ok_def grant_of_def)

lemma record_ok_end:
  assumes "record_ok es cl now r" "rec_status r = Approved" "status \<in> {Revoked, Expired}"
    and "set es \<subseteq> set es'" "now \<le> now'" "kept es' cl cl' (jit_name (rec_id r))"
  shows "record_ok es' cl' now' (r\<lparr>rec_status := status\<rparr>)"
proof -
  from assms(1,2) obtain c e where *: "approved_on es r c" "rec_expires_at r = Some e"
    "rec_binding_name r = Some (jit_name (rec_id r))" "e \<le> now + minutes (rec_ttl_minutes r)" "grant_ok es cl r c e"
    by (auto elim: record_ok_cases)
  have "approved_on es' (r\<lparr>rec_status := status\<rparr>) c"
    using history_mono(1) [OF assms(4) *(1)] by (simp add: approved_on_def)
  moreover have "e \<le> now' + minutes (rec_ttl_minutes r)" using *(4) assms(5) by linarith
  ultimately show ?thesis
    using *(2,3) grant_ok_keep [OF *(5) assms(4,6)] assms(1,3)
    by (intro record_ok_reviewed [of _ es' c e]) (auto simp: record_ok_def)
qed

lemma record_ok_holder:
  assumes "record_ok es cl now r" "lookup (cl c) sc (jit_name (rec_id r)) = Some b" "bd_jit b"
  shows "\<exists>e. rec_expires_at r = Some e \<and> bd_expires b = Some e \<and> but_subjects b = but_subjects (grant_of r e) \<and>
    (bd_subjects b = bd_subjects (grant_of r e) \<or> regranted es c sc (jit_name (rec_id r))) \<and> approved_on es r c \<and>
    sc = granted_scope (rec_namespace r) \<and> e \<le> now + minutes (rec_ttl_minutes r)"
proof -
  have "labelled (cl c) sc (jit_name (rec_id r))" using assms(2,3) by (simp add: labelled_def)
  with assms(1) have "rec_status r \<notin> {Pending, Denied}" by (auto simp: record_ok_def split: if_splits)
  with assms(1) obtain d e where "approved_on es r d" "rec_expires_at r = Some e"
    "e \<le> now + minutes (rec_ttl_minutes r)" and g: "grant_ok es cl r d e" by (rule record_ok_cases)
  moreover from g assms(2,3) have *: "c = d" "sc = granted_scope (rec_namespace r)" "but_subjects b = but_subjects (grant_of r e)"
    "bd_subjects b = bd_subjects (grant_of r e) \<or> regranted es c sc (jit_name (rec_id r))" unfolding grant_ok_def by blast+
  moreover from *(3) have "bd_expires b = Some e" by (auto simp: grant_of_def)
  ultimately show ?thesis by blast
qed

lemma save_members:
  "r \<in> set (be_requests (save r' st)) \<Longrightarrow> r = r' \<or> (r \<in> set (be_requests st) \<and> rec_id r \<noteq> rec_id r')"
  by (auto simp: save_def split: if_splits)

lemma save_ids [simp]: "map rec_id (be_requests (save r st)) = map rec_id (be_requests st)"
  by (simp add: save_def o_def)

lemma save_simps [simp]:
  "be_clusters (save r st) = be_clusters st" "be_now (save r st) = be_now st" "be_policies (save r st) = be_policies st"
  "be_registered (save r st) = be_registered st"
  by (simp_all add: save_def)

lemma ids_same: "map rec_id rs = map rec_id rs' \<Longrightarrow>
    (\<lambda>r. jit_name (rec_id r)) ` set rs = (\<lambda>r. jit_name (rec_id r)) ` set rs'"
  by (metis image_image set_map)

lemma get_or_404_Inr: "get_or_404 i st = Inr r \<Longrightarrow> r \<in> set (be_requests st) \<and> rec_id r = i"
  by (auto simp: get_or_404_def find_Some_iff split: option.splits)

lemma but_subjects_iff:
  "b\<lparr>bd_subjects := bd_subjects b'\<rparr> = b' \<longleftrightarrow> but_subjects b = but_subjects b'"
  by (cases b; cases b') (auto simp: but_subjects_def)

lemma but_subjects_same: "but_subjects b = but_subjects b' \<Longrightarrow> bd_subjects b = bd_subjects b' \<Longrightarrow> b = b'"
  by (cases b; cases b') (simp add: but_subjects_def)

text \<open>The users whose own bindings may be called like a temporary grant.\<close>

lemma binding_name_jit:
  assumes "binding_name u r = jit_name i"
  shows "prefix ''jit'' u"
proof -
  from assms have "u @ ''-'' @ r = ''jit-'' @ i" by (simp add: binding_name_def jit_name_def)
  then consider us where "u @ us = ''jit-''" "''-'' @ r = us @ i" | us where "u = ''jit-'' @ us"
    unfolding append_eq_append_conv2 by auto
  then show ?thesis
  proof cases
    case 1
    then show ?thesis by (auto simp: append_eq_Cons_conv prefix_def)
  qed (simp add: prefix_def)
qed

text \<open>The invariant after a change of one request and one cluster.\<close>

lemma backend_inv_save:
  assumes "backend_inv es st" "r \<in> set (be_requests st)" "rec_id r' = rec_id r" "tables_ok k"
    and "\<And>sc n. n \<noteq> jit_name (rec_id r) \<Longrightarrow> lookup k sc n = lookup (be_clusters st c) sc n"
    and "record_ok es' ((be_clusters st)(c := k)) (be_now st) r'" "set es \<subseteq> set es'"
  shows "backend_inv es' (save r' (set_cluster c k st))"
proof -
  let ?st = "set_cluster c k st"
  show ?thesis
    unfolding backend_inv_def
  proof (intro conjI allI ballI impI)
    show "tables_ok (be_clusters (save r' ?st) d)" for d using assms(1,4) by (simp add: backend_inv_def)
    show "distinct (map rec_id (be_requests (save r' ?st)))" using assms(1) by (simp add: backend_inv_def)
  next
    fix x assume m: "x \<in> set (be_requests (save r' ?st))"
    show "record_ok es' (be_clusters (save r' ?st)) (be_now (save r' ?st)) x"
      using save_members [OF m]
    proof
      assume "x = r'"
      with assms(6) show ?thesis by simp
    next
      assume x: "x \<in> set (be_requests ?st) \<and> rec_id x \<noteq> rec_id r'"
      then have "record_ok es (be_clusters st) (be_now st) x" using assms(1) by (simp add: backend_inv_def)
      moreover have "lookup (be_clusters ?st d) sc (jit_name (rec_id x)) = lookup (be_clusters st d) sc (jit_name (rec_id x))"
        for d sc using x assms(3,5) by simp
      ultimately show ?thesis
        using record_ok_keep [OF _ assms(7) order_refl kept_same(1) kept_same(2)] by simp
    qed
  next
    fix d sc n assume l: "labelled (be_clusters (save r' ?st) d) sc n"
    have "n \<in> (\<lambda>r. jit_name (rec_id r)) ` set (be_requests st)"
    proof (cases "n = jit_name (rec_id r)")
      case False
      with l assms(5) have "labelled (be_clusters st d) sc n" by (simp add: labelled_def split: if_splits)
      with assms(1) show ?thesis unfolding backend_inv_def by blast
    qed (use assms(2) in blast)
    then show "n \<in> (\<lambda>r. jit_name (rec_id r)) ` set (be_requests (save r' ?st))"
      using ids_same [OF save_ids [of r' ?st]] by simp
  qed
qed

text \<open>The invariant after a change of one cluster that makes no grant.\<close>

lemma changes_kept:
  assumes "changes G T (cl c) k" "\<And>sc n. G sc n \<Longrightarrow> regranted es c sc n" "\<And>sc n. T sc n \<Longrightarrow> taken_away es c sc n"
  shows "kept es cl (cl(c := k)) n" "held es cl (cl(c := k)) n"
  using assms unfolding changes_def kept_def held_def but_subjects_def by (auto split: if_splits) blast+

lemma backend_inv_change:
  assumes "backend_inv es st" "changes G T (be_clusters st c) k" "set es \<subseteq> set es'"
    and "\<And>sc n. G sc n \<Longrightarrow> regranted es' c sc n" "\<And>sc n. T sc n \<Longrightarrow> taken_away es' c sc n"
  shows "backend_inv es' (set_cluster c k st)"
proof -
  note kept = changes_kept [where cl = "be_clusters st" and c = c, OF assms(2,4,5)]
  show ?thesis
    unfolding backend_inv_def
  proof (intro conjI allI ballI impI)
    show "tables_ok (be_clusters (set_cluster c k st) d)" for d using assms(1,2) by (simp add: backend_inv_def changes_def)
    show "distinct (map rec_id (be_requests (set_cluster c k st)))" using assms(1) by (simp add: backend_inv_def)
    show "record_ok es' (be_clusters (set_cluster c k st)) (be_now (set_cluster c k st)) x"
      if "x \<in> set (be_requests (set_cluster c k st))" for x
      using that assms(1) record_ok_keep [OF _ assms(3) order_refl kept] by (simp add: backend_inv_def)
    show "n \<in> (\<lambda>r. jit_name (rec_id r)) ` set (be_requests (set_cluster c k st))"
      if "labelled (be_clusters (set_cluster c k st) d) sc n" for d sc n
    proof -
      have "labelled (be_clusters st d) sc n" using kept_labelled [OF kept(1), of d sc n] that by simp
      with assms(1) show ?thesis unfolding backend_inv_def by simp
    qed
  qed
qed

section \<open>Lemmas: every event keeps the invariant\<close>

lemma on_cluster_Inr:
  "on_cluster c f st = Inr st' \<longleftrightarrow> (\<exists>k. f (be_clusters st c) = Inr k \<and> st' = set_cluster c k st)"
  by (auto simp: on_cluster_def set_cluster_def split: sum.splits)

definition approved_record :: "request_record \<Rightarrow> string \<Rightarrow> int \<Rightarrow> request_record" where
  "approved_record r reviewer now = r\<lparr>rec_status := Approved, rec_reviewed_by := Some reviewer,
     rec_reviewed_at := Some now, rec_expires_at := Some (now + minutes (rec_ttl_minutes r)),
     rec_binding_name := Some (jit_name (rec_id r))\<rparr>"

lemma approved_record_simps [simp]:
  "rec_id (approved_record r v now) = rec_id r" "rec_status (approved_record r v now) = Approved"
  "rec_user_kind (approved_record r v now) = rec_user_kind r"
  "rec_ttl_minutes (approved_record r v now) = rec_ttl_minutes r"
  "rec_namespace (approved_record r v now) = rec_namespace r"
  "rec_requester (approved_record r v now) = rec_requester r"
  "rec_reviewed_by (approved_record r v now) = Some v"
  "rec_expires_at (approved_record r v now) = Some (now + minutes (rec_ttl_minutes r))"
  "rec_binding_name (approved_record r v now) = Some (jit_name (rec_id r))"
  by (simp_all add: approved_record_def)

lemma grant_of_simps [simp]:
  "grant_of (r\<lparr>rec_status := x\<rparr>) e = grant_of r e" "grant_of (r\<lparr>rec_reviewed_at := t\<rparr>) e = grant_of r e"
  "grant_of (approved_record r v now) e = grant_of r e"
  by (simp_all add: grant_of_def approved_record_def)

lemma approve_request_Inr:
  assumes "approve_request i v c st = Inr st'"
  obtains r k where "r \<in> set (be_requests st)" "rec_id r = i" "rec_status r = Pending" "rec_requester r \<noteq> v"
    "check_policy (rec_role_kind r) (rec_role_name r) (rec_ttl_minutes r) st"
    "create_grant r (be_now st + minutes (rec_ttl_minutes r)) (be_clusters st c) = Inr k"
    "st' = save (approved_record r v (be_now st)) (set_cluster c k st)"
proof -
  from assms obtain r where r: "get_or_404 i st = Inr r" by (auto simp: approve_request_def split: sum.splits)
  with assms obtain k where "rec_status r = Pending" "rec_requester r \<noteq> v"
    "check_policy (rec_role_kind r) (rec_role_name r) (rec_ttl_minutes r) st"
    "create_grant r (be_now st + minutes (rec_ttl_minutes r)) (be_clusters st c) = Inr k"
    "st' = save (approved_record r v (be_now st)) (set_cluster c k st)"
    by (auto simp: approve_request_def on_cluster_Inr approved_record_def Let_def split: if_splits sum.splits)
  with get_or_404_Inr [OF r] that show ?thesis by blast
qed

lemma deny_request_Inr:
  assumes "deny_request i v st = Inr st'"
  obtains r where "r \<in> set (be_requests st)" "rec_id r = i" "rec_status r = Pending"
    "st' = save (r\<lparr>rec_status := Denied, rec_reviewed_by := Some v, rec_reviewed_at := Some (be_now st)\<rparr>) st"
  using assms get_or_404_Inr [of i st] by (auto simp: deny_request_def split: if_splits sum.splits)

lemma revoke_request_Inr:
  assumes "revoke_request i c st = Inr st'"
  obtains r k where "r \<in> set (be_requests st)" "rec_id r = i" "rec_status r = Approved"
    "delete_grant r (be_clusters st c) = Inr k"
    "st' = save (r\<lparr>rec_status := Revoked, rec_reviewed_at := Some (be_now st)\<rparr>)
      (set_cluster c k st)"
  using assms get_or_404_Inr [of i st]
  by (auto simp: revoke_request_def on_cluster_Inr split: if_splits sum.splits)

lemma record_ok_reviewed_at [simp]: "record_ok es cl now (r\<lparr>rec_reviewed_at := t\<rparr>) = record_ok es cl now r"
  by (simp add: record_ok_def approved_on_def grant_ok_def)

lemma approve_inv:
  assumes "backend_inv es st" "approve_request i (au_username u) c st = Inr st'" "is_privileged (instance_role u)"
    and "Serve u c (AR_approve i) j \<in> set es'" "set es \<subseteq> set es'"
  shows "backend_inv es' st'"
proof -
  from assms(2) obtain r k where r: "r \<in> set (be_requests st)" "rec_id r = i" "rec_status r = Pending"
    "rec_requester r \<noteq> au_username u"
    "create_grant r (be_now st + minutes (rec_ttl_minutes r)) (be_clusters st c) = Inr k"
    and st': "st' = save (approved_record r (au_username u) (be_now st)) (set_cluster c k st)"
    by (rule approve_request_Inr)
  let ?r = "approved_record r (au_username u) (be_now st)" and ?e = "be_now st + minutes (rec_ttl_minutes r)"
  note g = create_grant_Inr [OF r(5)]
  have ok: "record_ok es (be_clusters st) (be_now st) r" using assms(1) r(1) by (simp add: backend_inv_def)
  have none: "\<not> labelled (be_clusters st d) sc (jit_name (rec_id r))" for d sc
    using ok r(3) by (simp add: record_ok_def)
  have l: "lookup k sc n = (if sc = granted_scope (rec_namespace r) \<and> n = jit_name (rec_id r)
      then Some (grant_of r ?e) else lookup (be_clusters st c) sc n)" for sc n
    using g by blast
  have "record_ok es' ((be_clusters st)(c := k)) (be_now st) ?r"
  proof (rule record_ok_reviewed [where c = c and e = ?e])
    show "approved_on es' ?r c" using assms(3,4) r(2,4) unfolding approved_on_def by auto
    show "grant_ok es' ((be_clusters st)(c := k)) ?r c ?e"
      using none by (auto simp: grant_ok_def labelled_iff l split: if_splits)
    show "labelled (((be_clusters st)(c := k)) c) (granted_scope (rec_namespace ?r)) (jit_name (rec_id ?r)) \<or>
        taken_away es' c (granted_scope (rec_namespace ?r)) (jit_name (rec_id ?r))"
      by (simp add: labelled_def l) (simp add: grant_of_def)
  qed (use ok in \<open>simp_all add: record_ok_def\<close>)
  moreover have "lookup k sc n = lookup (be_clusters st c) sc n" if "n \<noteq> jit_name (rec_id r)" for sc n
    using that by (simp add: l)
  moreover have "tables_ok k" using g assms(1) by (simp add: backend_inv_def)
  moreover have "rec_id ?r = rec_id r" by simp
  ultimately show ?thesis unfolding st' using backend_inv_save [OF assms(1) r(1)] assms(5) by blast
qed

lemma deny_inv:
  assumes "backend_inv es st" "deny_request i v st = Inr st'" "set es \<subseteq> set es'"
  shows "backend_inv es' st'"
proof -
  from assms(2) obtain r where r: "r \<in> set (be_requests st)" "rec_status r = Pending"
    and st': "st' = save (r\<lparr>rec_status := Denied, rec_reviewed_by := Some v, rec_reviewed_at := Some (be_now st)\<rparr>) st"
    by (rule deny_request_Inr)
  have ok: "record_ok es (be_clusters st) (be_now st) r" using assms(1) r(1) by (simp add: backend_inv_def)
  have "record_ok es' ((be_clusters st)(c := be_clusters st c)) (be_now st)
      (r\<lparr>rec_status := Denied, rec_reviewed_by := Some v, rec_reviewed_at := Some (be_now st)\<rparr>)" for c
    using ok r(2) by (simp add: record_ok_def)
  from backend_inv_save [OF assms(1) r(1) _ _ _ this assms(3)] show ?thesis
    unfolding st' using assms(1) by (simp add: backend_inv_def set_cluster_def)
qed

lemma revoke_inv:
  assumes "backend_inv es st" "revoke_request i c st = Inr st'" "set es \<subseteq> set es'"
  shows "backend_inv es' st'"
proof -
  from assms(2) obtain r k where r: "r \<in> set (be_requests st)" "rec_status r = Approved"
    "delete_grant r (be_clusters st c) = Inr k"
    and st': "st' = save (r\<lparr>rec_status := Revoked, rec_reviewed_at := Some (be_now st)\<rparr>) (set_cluster c k st)"
    by (rule revoke_request_Inr)
  have ok: "record_ok es (be_clusters st) (be_now st) r" and kube: "tables_ok (be_clusters st c)"
    using assms(1) r(1) by (simp_all add: backend_inv_def)
  from record_ok_cases [OF ok] r(2) have "rec_binding_name r = Some (jit_name (rec_id r))" by auto
  with delete_grant_Inr [OF r(3) kube] have w: "without (granted_scope (rec_namespace r)) (jit_name (rec_id r)) (be_clusters st c) k"
    by auto
  have "kept es' (be_clusters st) ((be_clusters st)(c := k)) n" for n
    using w unfolding kept_def without_def by (auto split: if_splits) (metis option.distinct(1))+
  then have "record_ok es' ((be_clusters st)(c := k)) (be_now st) (r\<lparr>rec_status := Revoked\<rparr>)"
    by (intro record_ok_end [OF ok r(2) _ assms(3) order_refl]) simp_all
  then have "record_ok es' ((be_clusters st)(c := k)) (be_now st) (r\<lparr>rec_status := Revoked, rec_reviewed_at := Some (be_now st)\<rparr>)"
    by simp
  from backend_inv_save [OF assms(1) r(1) _ _ _ this assms(3)] w show ?thesis
    unfolding st' by (auto simp: without_def)
qed

lemma create_inv:
  assumes "backend_inv es st" "create_request requester p i st = Inr st'" "valid_create p" "set es \<subseteq> set es'"
  shows "backend_inv es' st'"
proof -
  let ?r = "new_record requester p i (be_now st)"
  have st': "st' = st\<lparr>be_requests := be_requests st @ [?r]\<rparr>" and i: "i \<notin> rec_id ` set (be_requests st)"
    using assms(2) by (simp_all add: create_request_def split: if_splits)
  have id: "rec_id ?r = i" by (simp add: new_record_def)
  have "\<not> labelled (be_clusters st c) sc (jit_name i)" for c sc
  proof
    assume "labelled (be_clusters st c) sc (jit_name i)"
    with assms(1) have "jit_name i \<in> (\<lambda>r. jit_name (rec_id r)) ` set (be_requests st)" unfolding backend_inv_def by blast
    with i show False by auto
  qed
  then have "record_ok es' (be_clusters st) (be_now st) ?r"
    using assms(3) by (auto simp: record_ok_def new_record_def valid_create_def subject_kinds_def)
  moreover have "record_ok es' (be_clusters st) (be_now st) x" if "x \<in> set (be_requests st)" for x
    using that assms(1) record_ok_mono [OF _ assms(4) order_refl] by (simp add: backend_inv_def)
  ultimately show ?thesis
    using assms(1) i unfolding backend_inv_def st' by (auto simp: id)
qed

lemma swept_kept: "(\<And>c. swept (at c) (cl c) (cl' c)) \<Longrightarrow> kept es cl cl' n"
  unfolding swept_def kept_def by (metis option.distinct(1))

lemma cleanup_inv:
  assumes "backend_inv es st" "backend_env st (Cleanup refuse at t)" "set es \<subseteq> set es'" "Cleanup refuse at t \<in> set es'"
  shows "backend_inv es' ((cleanup_job refuse at t st)\<lparr>be_now := t\<rparr>)"
proof -
  have kube: "tables_ok (be_clusters st c)" for c using assms(1) by (simp add: backend_inv_def)
  from cleanup_job_effect [OF kube, where refuse = refuse and at = "at" and t = t] obtain cl where
    job: "cleanup_job refuse at t st = st\<lparr>be_clusters := cl\<rparr> \<or> cleanup_job refuse at t st = mark_expired t (st\<lparr>be_clusters := cl\<rparr>)"
    and sw: "\<And>c. swept (at c) (be_clusters st c) (cl c)"
    and marked: "\<forall>c call. refuse c call = None \<Longrightarrow> cl \<noteq> be_clusters st \<Longrightarrow>
      cleanup_job refuse at t st = mark_expired t (st\<lparr>be_clusters := cl\<rparr>)" by metis
  let ?st = "(cleanup_job refuse at t st)\<lparr>be_now := t\<rparr>"
  let ?f = "\<lambda>r. if rec_status r = Approved \<and> past (rec_expires_at r) t then r\<lparr>rec_status := Expired\<rparr> else r"
  have now: "be_now st \<le> t" "\<And>c. at c \<le> t" using assms(2) order_trans by auto
  have cl: "be_clusters ?st = cl" using job by (auto simp: mark_expired_def)
  have ids: "map rec_id (be_requests ?st) = map rec_id (be_requests st)"
    using job by (auto simp: mark_expired_def)
  note kept = swept_kept [where at = "at" and cl = "be_clusters st" and cl' = cl and es = es', OF sw]
  have rec: "record_ok es' cl t x" if x: "x \<in> set (be_requests ?st)" for x
  proof -
    let ?marked = "cleanup_job refuse at t st = mark_expired t (st\<lparr>be_clusters := cl\<rparr>)"
    have "cl = be_clusters st \<or> refuse \<noteq> (\<lambda>d call. None)" if "\<not> ?marked" using marked that by auto
    with job consider (unmarked) "cleanup_job refuse at t st = st\<lparr>be_clusters := cl\<rparr>"
        "cl = be_clusters st \<or> refuse \<noteq> (\<lambda>d call. None)" | (marked) ?marked by blast
    then show ?thesis
    proof cases
      case unmarked
      with x assms(1) have ok: "record_ok es (be_clusters st) (be_now st) x" by (simp add: backend_inv_def)
      from unmarked(2) have "held es' (be_clusters st) cl n" for n
        using assms(4) unfolding held_def taken_away_def by fastforce
      with record_ok_keep [OF ok assms(3) now(1) kept] show ?thesis by blast
    next
      case marked
      with x obtain r where r: "r \<in> set (be_requests st)" "x = ?f r" by (auto simp: mark_expired_def)
      have ok: "record_ok es (be_clusters st) (be_now st) r" using assms(1) r(1) by (simp add: backend_inv_def)
      show ?thesis
      proof (cases "rec_status r = Approved \<and> past (rec_expires_at r) t")
        case True
        with record_ok_end [OF ok _ _ assms(3) now(1) kept, of Expired] r(2) show ?thesis by simp
      next
        case False
        have "held es' (be_clusters st) cl (jit_name (rec_id r))" if "rec_status r = Approved"
          unfolding held_def
        proof (intro allI impI disjI1)
          fix c sc assume "labelled (be_clusters st c) sc (jit_name (rec_id r))"
          then obtain b where b: "lookup (be_clusters st c) sc (jit_name (rec_id r)) = Some b" "bd_jit b"
            by (auto simp: labelled_iff)
          from record_ok_holder [OF ok b] False that now(2) [of c] have "\<not> is_expired (at c) b"
            by (auto simp: is_expired_def past_def)
          with b sw [of c] have "lookup (cl c) sc (jit_name (rec_id r)) = Some b" unfolding swept_def by (metis option.inject)
          with b(2) show "labelled (cl c) sc (jit_name (rec_id r))" by (simp add: labelled_def)
        qed
        with record_ok_keep [OF ok assms(3) now(1) kept] r(2) False show ?thesis by auto
      qed
    qed
  qed
  show ?thesis
    unfolding backend_inv_def cl
  proof (intro conjI allI ballI impI)
    show "tables_ok (cl c)" for c using sw by (simp add: swept_def)
    show "distinct (map rec_id (be_requests ?st))" unfolding ids using assms(1) by (simp add: backend_inv_def)
    show "record_ok es' cl (be_now ?st) x" if "x \<in> set (be_requests ?st)" for x using rec [OF that] by simp
    show "n \<in> (\<lambda>r. jit_name (rec_id r)) ` set (be_requests ?st)" if "labelled (cl c) sc n" for c sc n
      using kept_labelled [OF kept that] assms(1) ids_same [OF ids] unfolding backend_inv_def by blast
  qed
qed

lemma backend_inv_mono:
  assumes "backend_inv es st" "set es \<subseteq> set es'" "be_now st \<le> now'"
  shows "backend_inv es' (st\<lparr>be_now := now', be_registered := cs, be_policies := ps\<rparr>)"
  using assms(1) record_ok_mono [OF _ assms(2,3)] by (simp add: backend_inv_def)

lemma serve_inv:
  assumes "backend_inv es st" "serve u c call i st = Inr st'"
    and "set es \<subseteq> set es'" "Serve u c call i \<in> set es'"
  shows "backend_inv es' st'"
proof -
  have same: "backend_inv es' (st\<lparr>be_now := be_now st, be_registered := be_registered st, be_policies := ps\<rparr>)" for ps
    using backend_inv_mono [OF assms(1,3) order_refl] .
  have st: "backend_inv es' st" using same [of "be_policies st"] by simp
  have ok: "respond r = Inr st' \<longleftrightarrow> r = Inr st'" for r by (cases r) (simp_all add: respond_def)
  show ?thesis
  proof (cases call)
    case (AR_create p)
    with assms(2) have "create_request (au_username u) p i st = Inr st'" "valid_create p"
      by (auto simp: serve_def Let_def ok split: if_splits)
    then show ?thesis using create_inv [OF assms(1)] assms(3) by blast
  next
    case (AR_approve j)
    with assms(2) have "approve_request j (au_username u) c st = Inr st'" "is_privileged (instance_role u)"
      by (auto simp: serve_def Let_def ok split: if_splits)
    then show ?thesis using approve_inv [OF assms(1)] assms(3,4) AR_approve by blast
  next
    case (AR_deny j)
    with assms(2) have "deny_request j (au_username u) st = Inr st'"
      by (auto simp: serve_def Let_def ok split: if_splits)
    then show ?thesis using deny_inv [OF assms(1)] assms(3) by blast
  next
    case (AR_revoke j)
    with assms(2) have "revoke_request j c st = Inr st'"
      by (auto simp: serve_def Let_def ok split: if_splits)
    then show ?thesis using revoke_inv [OF assms(1)] assms(3) by blast
  qed (use assms(2) st same in \<open>auto simp: serve_def Let_def set_policy_def delete_policy_def split: if_splits\<close>)
qed

text \<open>What the other events do to a cluster.\<close>

lemma changes_mono:
  "changes G T k k' \<Longrightarrow> (\<And>sc n. G sc n \<Longrightarrow> G' sc n) \<Longrightarrow> (\<And>sc n. T sc n \<Longrightarrow> T' sc n) \<Longrightarrow> changes G' T' k k'"
  unfolding changes_def by blast

lemma direct_changes:
  assumes "direct call k = Inr k'" "tables_ok k"
  shows "changes nowhere (\<lambda>sc n. takes_away c sc n (Direct c call)) k k'"
proof (cases call)
  case (PostClusterBinding p)
  with assms(1) show ?thesis
    by (auto simp: create_cluster_binding_def split: if_splits dest!: create_binding_changes(1) [OF assms(2)])
next
  case (DeleteClusterBinding n)
  with assms(1) without_changes [OF removed_without(1) [OF assms(2)], of n k'] show ?thesis
    by (auto simp: delete_cluster_binding_def intro: changes_mono)
next
  case (PostNamespaceBinding ns p)
  with assms(1) show ?thesis
    by (auto simp: create_namespace_binding_def split: if_splits dest!: create_binding_changes(2) [OF assms(2)])
next
  case (DeleteNamespaceBinding ns n)
  with assms(1) without_changes [OF removed_without(2) [OF assms(2)], of ns n k'] show ?thesis
    by (auto simp: delete_namespace_binding_def intro: changes_mono)
qed

lemma panel_changes:
  assumes "answer merge m k = Some (Inr k')" "tables_ok k"
  shows "changes (\<lambda>sc n. regranted [Panel c m] c sc n) (\<lambda>sc n. takes_away c sc n (Panel c m)) k k'"
proof (cases m)
  case (UseAssignRole u a kind sa)
  have "(\<lambda>sc n. regranted [Panel c m] c sc n) = (\<lambda>sc n. sc = granted_in (ar_namespace a) (ar_role_kind a) \<and> n = binding_name u (ar_role_name a))"
    by (auto simp: regranted_def UseAssignRole fun_eq_iff)
  with assms assign_role_changes UseAssignRole show ?thesis by auto
next
  case (UseRevokeRole u r ns)
  from assms UseRevokeRole have "changes nowhere (\<lambda>sc n. sc = ns \<and> n = binding_name u r) k k'"
    by (auto intro: revoke_role_changes)
  then show ?thesis by (rule changes_mono) (simp_all add: UseRevokeRole)
qed (use assms in auto)

lemma on_kube_inv:
  assumes "backend_inv es st" "set es \<subseteq> set es'"
    and "\<And>k. r = Inr k \<Longrightarrow> changes G T (be_clusters st c) k"
    and "\<And>sc n. G sc n \<Longrightarrow> regranted es' c sc n" "\<And>sc n. T sc n \<Longrightarrow> taken_away es' c sc n"
  shows "backend_inv es' (on_kube c r st)"
proof (cases r)
  case (Inl e)
  then show ?thesis
    using backend_inv_mono [OF assms(1,2) order_refl, where cs = "be_registered st" and ps = "be_policies st"] by (simp add: on_kube_def)
next
  case (Inr k)
  then show ?thesis using backend_inv_change [OF assms(1) assms(3) [OF Inr] assms(2,4,5)] by (simp add: on_kube_def)
qed

lemma backend_inv_event:
  assumes "backend_inv es st" "backend_env st e"
  shows "backend_inv (es @ [e]) (backend_next merge e st)"
proof -
  have kube: "tables_ok (be_clusters st c)" for c using assms(1) by (simp add: backend_inv_def)
  have sub: "set es \<subseteq> set (es @ [e])" by auto
  have same: "backend_inv (es @ [e]) (st\<lparr>be_now := t, be_registered := cs\<rparr>)" if "be_now st \<le> t" for t cs
    using backend_inv_mono [OF assms(1) sub that, where cs = cs and ps = "be_policies st"] by simp
  have taken: "taken_away (es @ [e]) c sc n" if "takes_away c sc n e" for c sc n
    using that by (auto simp: taken_away_def)
  show ?thesis
  proof (cases e)
    case (Serve u c call i)
    then show ?thesis
      using serve_inv [OF assms(1) _ sub, of u c call i] same [OF order_refl, of "be_registered st"]
      by (auto split: sum.splits)
  next
    case (Panel c m)
    show ?thesis
    proof (cases "answer merge m (be_clusters st c)")
      case None
      then show ?thesis using Panel same [OF order_refl, of "be_registered st"] by simp
    next
      case (Some r)
      have "backend_inv (es @ [e]) (on_kube c r st)"
      proof (rule on_kube_inv [OF assms(1) sub])
        show "changes (\<lambda>sc n. regranted [Panel c m] c sc n) (\<lambda>sc n. takes_away c sc n (Panel c m)) (be_clusters st c) k"
          if "r = Inr k" for k using panel_changes [OF _ kube] Some that by blast
        show "regranted (es @ [e]) c sc n" if "regranted [Panel c m] c sc n" for sc n
          using that history_mono(2) [of "[Panel c m]" "es @ [e]"] Panel by auto
        show "taken_away (es @ [e]) c sc n" if "takes_away c sc n (Panel c m)" for sc n
          using taken that Panel by simp
      qed
      with Some Panel show ?thesis by simp
    qed
  next
    case (Direct c call)
    have "backend_inv (es @ [e]) (on_kube c (direct call (be_clusters st c)) st)"
      by (rule on_kube_inv [OF assms(1) sub direct_changes [OF _ kube, where c = c]])
        (use taken Direct in \<open>auto simp: regranted_def\<close>)
    with Direct show ?thesis by simp
  next
    case (DeleteUser c u)
    have "backend_inv (es @ [e]) (on_kube c (delete_user_bindings u (be_clusters st c)) st)"
      by (rule on_kube_inv [OF assms(1) sub delete_user_bindings_changes [OF _ kube]]) (use taken DeleteUser in auto)
    with DeleteUser show ?thesis by simp
  next
    case (Elsewhere c k)
    with assms(2) have "tables_ok k" "\<forall>sc n b. lookup k sc n = Some b \<and> bd_jit b \<longrightarrow> lookup (be_clusters st c) sc n = Some b"
      by auto
    then have "changes nowhere (\<lambda>sc n. takes_away c sc n e) (be_clusters st c) k"
      unfolding changes_def Elsewhere by auto
    from backend_inv_change [OF assms(1) this sub _ taken] Elsewhere show ?thesis by simp
  next
    case (Outage c d)
    have "changes nowhere nowhere (be_clusters st c) ((be_clusters st c)\<lparr>kb_denied := d\<rparr>)"
      using kube [of c] by (simp add: changes_same_tables tables_ok_def)
    from backend_inv_change [OF assms(1) this sub] Outage show ?thesis by simp
  next
    case (Registered cs)
    then show ?thesis using same [OF order_refl, of cs] by simp
  next
    case (Cleanup refuse at t)
    then show ?thesis using cleanup_inv [OF assms(1) assms(2) [unfolded Cleanup] sub] by simp
  next
    case (Wait t)
    then show ?thesis using same [of t "be_registered st"] assms(2) by simp
  qed
qed

lemma backend_fresh_inv: "backend_fresh st \<Longrightarrow> backend_inv [] st"
  by (auto simp: backend_inv_def backend_fresh_def labelled_iff)

lemma backend_run_inv:
  assumes "backend_run merge st0 es st" "backend_inv es0 st0"
  shows "backend_inv (es0 @ es) st"
  using assms(1)
proof induction
  case br_start
  from assms(2) show ?case by simp
next
  case (br_event es st e)
  then show ?case using backend_inv_event [of "es0 @ es" st e merge] by simp
qed

lemmas backend_reachable = backend_run_inv [OF _ backend_fresh_inv, simplified]

lemma create_grant_succeeds:
  assumes "kb_denied k = None" "lookup k (granted_scope (rec_namespace r)) (jit_name (rec_id r)) = None"
    and "kb_admits k (jit_name (rec_id r)) (grant_of r e)"
  shows "\<exists>k'. create_grant r e k = Inr k'"
  using assms
  by (cases "granted_scope (rec_namespace r)")
    (auto simp: create_grant_def Let_def create_cluster_role_binding_def create_role_binding_def ensure_namespace_def
      on_crbs_def on_rbs_def created_def map_of_eq_None_iff grant_of_def the_subject_def)

section \<open>Lemmas: the life of a request\<close>

text \<open>What a status can become: pending anything, approved revoked or expired, the others stay.\<close>

definition reaches :: "access_request_status \<Rightarrow> access_request_status \<Rightarrow> bool" where
  "reaches a b \<longleftrightarrow> a = b \<or> a = Pending \<or> (a = Approved \<and> b \<in> {Revoked, Expired})"

definition asks_for :: "request_record \<Rightarrow> string \<times> string \<times> string \<times> string \<times> string option \<times> string \<times> string \<times> string option \<times> int" where
  "asks_for r = (rec_id r, rec_requester r, rec_target_username r, rec_user_kind r, rec_sa_namespace r,
     rec_role_name r, rec_role_kind r, rec_namespace r, rec_ttl_minutes r)"

lemma reaches_trans: "reaches a b \<Longrightarrow> reaches b c \<Longrightarrow> reaches a c"
  by (auto simp: reaches_def)

lemma save_later:
  assumes "r \<in> set (be_requests st)" "r0 \<in> set (be_requests st)" "distinct (map rec_id (be_requests st))"
    and "asks_for r' = asks_for r0" "reaches (rec_status r0) (rec_status r')"
  shows "\<exists>r1\<in>set (be_requests (save r' (st\<lparr>be_clusters := cl\<rparr>))). asks_for r1 = asks_for r \<and>
    reaches (rec_status r) (rec_status r1)"
proof (cases "rec_id r = rec_id r0")
  case True
  with assms(1-3) have "r = r0" by (auto simp: distinct_map inj_on_def)
  moreover from this assms(4) have "rec_id r = rec_id r'" by (simp add: asks_for_def)
  ultimately show ?thesis using assms(1,4,5) by (force simp: save_def)
next
  case False
  with assms(4) have "rec_id r \<noteq> rec_id r'" by (simp add: asks_for_def)
  with assms(1) show ?thesis by (force simp: save_def reaches_def)
qed

lemma on_kube_requests [simp]: "be_requests (on_kube c r st) = be_requests st"
  by (simp add: on_kube_def split: sum.split)

lemma event_later:
  assumes "backend_inv es st" "r \<in> set (be_requests st)"
  shows "\<exists>r'\<in>set (be_requests (backend_next merge e st)). asks_for r' = asks_for r \<and> reaches (rec_status r) (rec_status r')"
proof -
  have here: "\<exists>r'\<in>set (be_requests st). asks_for r' = asks_for r \<and> reaches (rec_status r) (rec_status r')"
    using assms(2) by (auto simp: reaches_def)
  have same: ?thesis if "be_requests (backend_next merge e st) = be_requests st" unfolding that by (rule here)
  have dist: "distinct (map rec_id (be_requests st))" using assms(1) by (simp add: backend_inv_def)
  note later = save_later [OF assms(2) _ dist]
  show ?thesis
  proof (cases e)
    case (Serve u c call i)
    show ?thesis
    proof (cases "serve u c call i st")
      case (Inr st')
      have st': "backend_next merge e st = st'" by (simp add: Serve Inr)
      have ok: "respond x = Inr st' \<longleftrightarrow> x = Inr st'" for x by (cases x) (simp_all add: respond_def)
      show ?thesis
      proof (cases call)
        case (AR_create p)
        with Inr assms(2) show ?thesis
          by (auto simp: st' serve_def Let_def ok create_request_def reaches_def simp del: image_iff split: if_splits)
      next
        case (AR_approve j)
        with Inr have "approve_request j (au_username u) c st = Inr st'"
          by (auto simp: serve_def Let_def ok split: if_splits)
        then obtain r0 k where r0: "r0 \<in> set (be_requests st)" "rec_status r0 = Pending"
          "st' = save (approved_record r0 (au_username u) (be_now st)) (set_cluster c k st)"
          by (rule approve_request_Inr)
        show ?thesis unfolding st' r0(3) set_cluster_def
          by (rule later [OF r0(1)]) (simp_all add: asks_for_def approved_record_def reaches_def r0(2))
      next
        case (AR_deny j)
        with Inr have "deny_request j (au_username u) st = Inr st'"
          by (auto simp: serve_def Let_def ok split: if_splits)
        then obtain r0 where r0: "r0 \<in> set (be_requests st)" "rec_status r0 = Pending"
          "st' = save (r0\<lparr>rec_status := Denied, rec_reviewed_by := Some (au_username u), rec_reviewed_at := Some (be_now st)\<rparr>) st"
          by (rule deny_request_Inr)
        from later [OF r0(1), of "r0\<lparr>rec_status := Denied, rec_reviewed_by := Some (au_username u),
            rec_reviewed_at := Some (be_now st)\<rparr>" "be_clusters st"]
        show ?thesis unfolding st' r0(3) by (simp add: asks_for_def reaches_def r0(2))
      next
        case (AR_revoke j)
        with Inr have "revoke_request j c st = Inr st'"
          by (auto simp: serve_def Let_def ok split: if_splits)
        then obtain r0 k where r0: "r0 \<in> set (be_requests st)" "rec_status r0 = Approved"
          "st' = save (r0\<lparr>rec_status := Revoked, rec_reviewed_at := Some (be_now st)\<rparr>)
            (set_cluster c k st)" by (rule revoke_request_Inr)
        show ?thesis unfolding st' r0(3) set_cluster_def
          by (rule later [OF r0(1)]) (simp_all add: asks_for_def reaches_def r0(2))
      qed (use Inr here in \<open>auto simp: st' serve_def Let_def set_policy_def delete_policy_def split: if_splits\<close>)
    qed (use same Serve in simp)
  next
    case (Panel c m)
    then show ?thesis by (intro same) (simp split: option.split)
  next
    case (Cleanup refuse at t)
    let ?f = "\<lambda>r. if rec_status r = Approved \<and> past (rec_expires_at r) t then r\<lparr>rec_status := Expired\<rparr> else r"
    have "tables_ok (be_clusters st c)" for c using assms(1) by (simp add: backend_inv_def)
    from cleanup_job_effect [OF this] obtain cl where "cleanup_job refuse at t st = st\<lparr>be_clusters := cl\<rparr> \<or>
      cleanup_job refuse at t st = mark_expired t (st\<lparr>be_clusters := cl\<rparr>)" by metis
    then have "be_requests (backend_next merge e st) = be_requests st \<or> be_requests (backend_next merge e st) = map ?f (be_requests st)"
      by (auto simp: Cleanup mark_expired_def)
    then show ?thesis
    proof
      assume "be_requests (backend_next merge e st) = map ?f (be_requests st)"
      with assms(2) show ?thesis by (intro bexI [of _ "?f r"]) (simp_all add: asks_for_def reaches_def)
    qed (rule same)
  qed (use same in auto)
qed

section \<open>A history\<close>

text \<open>Bob asks for an hour of \<open>edit\<close> for \<open>ci\<close>, and Ann, an approver, grants it on \<open>prod\<close>.\<close>

definition start_backend :: backend where
  "start_backend = \<lparr>be_now = 0, be_requests = [], be_policies = (\<lambda>x. None), be_registered = [''prod''],
     be_clusters = (\<lambda>c. empty_kube)\<rparr>"

definition bob_user :: auth_user where
  "bob_user = \<lparr>au_username = ''bob'', au_roles = []\<rparr>"

definition ann_user :: auth_user where
  "ann_user = \<lparr>au_username = ''ann'', au_roles = [(INSTANCE_SCOPE, Approver)]\<rparr>"

definition edit_payload :: access_request_create_payload where
  "edit_payload = \<lparr>rc_target_username = ''ci'', rc_user_kind = ''User'', rc_sa_namespace = None, rc_role_name = ''edit'',
     rc_role_kind = ''ClusterRole'', rc_namespace = None, rc_ttl_minutes = 60, rc_reason = ''deploy''\<rparr>"

definition asked_backend :: backend where
  "asked_backend = start_backend\<lparr>be_requests := [new_record ''bob'' edit_payload ''7'' 0]\<rparr>"

definition granted_record :: request_record where
  "granted_record = approved_record (new_record ''bob'' edit_payload ''7'' 0) ''ann'' 0"

definition granted_kube :: kube where
  "granted_kube = empty_kube\<lparr>kb_crbs := [(jit_name ''7'', grant_of granted_record (minutes 60))]\<rparr>"

definition granted_backend :: backend where
  "granted_backend = start_backend\<lparr>be_requests := [granted_record],
     be_clusters := (be_clusters start_backend)(''prod'' := granted_kube)\<rparr>"

definition story :: "backend_event list" where
  "story = [Serve bob_user ''prod'' (AR_create edit_payload) ''7'', Serve ann_user ''prod'' (AR_approve ''7'') ''8'']"

lemma story_asked: "serve bob_user ''prod'' (AR_create edit_payload) ''7'' start_backend = Inr asked_backend"
  by (simp add: serve_def Let_def valid_create_def edit_payload_def at_most_def MIN_TTL_MINUTES_def MAX_TTL_MINUTES_def
      create_request_def check_policy_def start_backend_def asked_backend_def bob_user_def respond_def)

lemma story_granted: "serve ann_user ''prod'' (AR_approve ''7'') ''8'' asked_backend = Inr granted_backend"
  by (simp add: serve_def Let_def ann_user_def instance_role_def is_privileged_def asked_backend_def start_backend_def
      approve_request_def get_or_404_def new_record_def edit_payload_def check_policy_def MAX_TTL_MINUTES_def
      subject_kinds_def on_cluster_def create_grant_def granted_scope_def create_cluster_role_binding_def on_crbs_def
      created_def empty_kube_def granted_backend_def granted_kube_def granted_record_def save_def approved_record_def
      respond_def grant_of_def the_subject_def minutes_def)

lemma empty_lookup [simp]: "lookup empty_kube sc n = None"
  by (cases sc) (simp_all add: empty_kube_def)

lemma start_fresh: "backend_fresh start_backend"
  by (simp add: backend_fresh_def start_backend_def tables_ok_def) (simp add: empty_kube_def)

lemma story_run: "backend_run merge start_backend story granted_backend"
proof -
  have "backend_run merge start_backend ([] @ [Serve bob_user ''prod'' (AR_create edit_payload) ''7'']) asked_backend"
    using br_event [OF br_start, of start_backend "Serve bob_user ''prod'' (AR_create edit_payload) ''7''" merge]
    by (simp add: story_asked)
  from br_event [OF this, of "Serve ann_user ''prod'' (AR_approve ''7'') ''8''"] show ?thesis
    by (simp add: story_def story_granted)
qed

lemma granted_lookup:
  "lookup (be_clusters granted_backend c) sc n =
     (if c = ''prod'' \<and> sc = None \<and> n = jit_name ''7'' then Some (grant_of granted_record (minutes 60)) else None)"
  by (cases sc) (simp_all add: granted_backend_def start_backend_def granted_kube_def empty_kube_def)

section \<open>Properties\<close>

text \<open>C2. Every temporary grant was approved: in any history in which nobody but the application puts the label
  of temporary grants on a binding or changes a labelled one short of removing it, a binding with that label
  on any cluster is the one of a request, with its role and scope; the request was approved on that
  very cluster by an admin or an approver of the instance who had not made it; and the binding expires,
  at most 24 hours from now. It names the subject of the request and nobody else, unless somebody
  assigned, on that cluster and in that scope, a role to a user called \<open>jit\<close> or \<open>jit-...\<close> with whom the
  role makes the name of the binding. (README.md and a comment of the endpoints let only admins review;
  the code lets approvers, too.)\<close>

theorem temporary_grants_approved:
  assumes "backend_run merge st0 es st" "backend_fresh st0"
    and "lookup (be_clusters st c) sc n = Some b" "bd_jit b"
  shows "\<exists>r e u i. r \<in> set (be_requests st) \<and> n = jit_name (rec_id r) \<and> sc = granted_scope (rec_namespace r) \<and>
    b\<lparr>bd_subjects := bd_subjects (grant_of r e)\<rparr> = grant_of r e \<and> e \<le> be_now st + minutes MAX_TTL_MINUTES \<and>
    Serve u c (AR_approve (rec_id r)) i \<in> set es \<and> is_privileged (instance_role u) \<and>
    rec_reviewed_by r = Some (au_username u) \<and> au_username u \<noteq> rec_requester r \<and>
    (b = grant_of r e \<or> (\<exists>v a kind sa. Panel c (UseAssignRole v a kind sa) \<in> set es \<and> prefix ''jit'' v \<and>
       binding_name v (ar_role_name a) = n \<and> granted_in (ar_namespace a) (ar_role_kind a) = sc))"
proof -
  note inv = backend_reachable [OF assms(1,2)]
  from assms(3,4) have "labelled (be_clusters st c) sc n" by (simp add: labelled_def)
  with inv obtain r where r: "r \<in> set (be_requests st)" "n = jit_name (rec_id r)"
    unfolding backend_inv_def by blast
  with inv have ok: "record_ok es (be_clusters st) (be_now st) r" by (simp add: backend_inv_def)
  from record_ok_holder [OF ok assms(3) [unfolded r(2)] assms(4)] obtain e where
    e: "but_subjects b = but_subjects (grant_of r e)" "approved_on es r c" "sc = granted_scope (rec_namespace r)"
      "e \<le> be_now st + minutes (rec_ttl_minutes r)"
    and s: "bd_subjects b = bd_subjects (grant_of r e) \<or> regranted es c sc n" unfolding r(2) by blast
  from ok have "minutes (rec_ttl_minutes r) \<le> minutes MAX_TTL_MINUTES" by (simp add: record_ok_def minutes_def)
  with e(4) have "e \<le> be_now st + minutes MAX_TTL_MINUTES" by linarith
  moreover from s have "b = grant_of r e \<or> (\<exists>v a kind sa. Panel c (UseAssignRole v a kind sa) \<in> set es \<and>
      prefix ''jit'' v \<and> binding_name v (ar_role_name a) = n \<and> granted_in (ar_namespace a) (ar_role_kind a) = sc)"
  proof
    assume "regranted es c sc n"
    then show ?thesis unfolding regranted_def r(2) using binding_name_jit by blast
  qed (use but_subjects_same [OF e(1)] in blast)
  ultimately show ?thesis using r e(1-3) unfolding approved_on_def but_subjects_iff by blast
qed

theorem temporary_grants_approved_witness:
  "\<exists>b u i. lookup (be_clusters granted_backend ''prod'') None (jit_name ''7'') = Some b \<and> bd_jit b \<and>
     Serve u ''prod'' (AR_approve ''7'') i \<in> set story \<and> au_username u \<noteq> ''bob''"
proof -
  have l: "lookup (be_clusters granted_backend ''prod'') None (jit_name ''7'') = Some (grant_of granted_record (minutes 60))"
    unfolding granted_lookup by simp
  have j: "bd_jit (grant_of granted_record (minutes 60))" by (simp add: grant_of_def)
  from temporary_grants_approved [OF story_run start_fresh l j] obtain r u i where
    r: "r \<in> set (be_requests granted_backend)" and "jit_name ''7'' = jit_name (rec_id r)"
    "Serve u ''prod'' (AR_approve (rec_id r)) i \<in> set story" "au_username u \<noteq> rec_requester r" by blast
  moreover from r have "rec_requester r = ''bob''"
    by (simp add: granted_backend_def granted_record_def approved_record_def new_record_def)
  ultimately show ?thesis using l j by auto
qed

text \<open>The exception is real: after Ann's approval somebody assigns the role \<open>7\<close>, the identifier of the
  request, to a user \<open>jit\<close>, and the binding that was approved for \<open>ci\<close> names \<open>jit\<close> instead (or besides, as
  the patch merges the subjects).\<close>

theorem grant_reaches_stranger:
  assumes "\<And>old new. set new \<subseteq> set (merge old new)"
  shows "\<exists>st b s. backend_run merge start_backend
      (story @ [Panel ''prod'' (UseAssignRole ''jit'' \<lparr>ar_role_name = ''7'', ar_role_kind = ''ClusterRole'', ar_namespace = None\<rparr> None None)]) st \<and>
    lookup (be_clusters st ''prod'') None (jit_name ''7'') = Some b \<and> bd_jit b \<and> bd_role_ref b = ''edit'' \<and>
    s \<in> set (bd_subjects b) \<and> sb_name s = ''jit''"
proof -
  let ?a = "\<lparr>ar_role_name = ''7'', ar_role_kind = ''ClusterRole'', ar_namespace = None\<rparr>"
  let ?g = "grant_of granted_record (minutes 60)" and ?s = "the_subject ''jit'' ''User'' None"
  let ?b = "?g\<lparr>bd_subjects := merge (bd_subjects ?g) [?s]\<rparr>"
  have k: "be_clusters granted_backend ''prod'' = granted_kube" by (simp add: granted_backend_def)
  have "kb_denied granted_kube = None" "''User'' \<in> set subject_kinds"
    by (simp_all add: granted_kube_def empty_kube_def subject_kinds_def)
  moreover have n: "binding_name ''jit'' ''7'' = jit_name ''7''" by (simp add: binding_name_def jit_name_def)
  moreover have "?b = granted_binding merge (map_of (kb_crbs granted_kube) (jit_name ''7'')) ''7'' ''ClusterRole'' ?s"
    by (simp add: granted_kube_def granted_binding_def)
  moreover have "kb_admits granted_kube n b" for n b by (simp add: granted_kube_def empty_kube_def)
  ultimately obtain k' where k': "assign_role merge ''jit'' ''User'' ''7'' ''ClusterRole'' None None granted_kube = Inr k'"
    "map_of (kb_crbs k') = (map_of (kb_crbs granted_kube))(jit_name ''7'' \<mapsto> ?b)"
    using assign_cluster_wide [of granted_kube "''User''" "jit_name ''7''" "''jit''" "''7''" ?b merge None] by metis
  have "backend_run merge start_backend (story @ [Panel ''prod'' (UseAssignRole ''jit'' ?a None None)])
      (backend_next merge (Panel ''prod'' (UseAssignRole ''jit'' ?a None None)) granted_backend)"
    by (rule br_event [OF story_run]) simp
  moreover have "lookup (be_clusters (backend_next merge (Panel ''prod'' (UseAssignRole ''jit'' ?a None None)) granted_backend) ''prod'')
      None (jit_name ''7'') = Some ?b"
    by (simp add: k k' on_kube_def)
  moreover have "bd_jit ?b" "bd_role_ref ?b = ''edit''"
    by (simp_all add: grant_of_def granted_record_def approved_record_def new_record_def edit_payload_def)
  moreover have "?s \<in> set (bd_subjects ?b)" using assms [of "[?s]"] by auto
  moreover have "sb_name ?s = ''jit''" by (simp add: the_subject_def)
  ultimately show ?thesis by blast
qed

theorem grant_reaches_stranger_witness:
  "\<exists>es st b s. backend_run (\<lambda>old new. new) start_backend es st \<and>
     lookup (be_clusters st ''prod'') None (jit_name ''7'') = Some b \<and> bd_jit b \<and>
     s \<in> set (bd_subjects b) \<and> sb_name s = ''jit''"
  using grant_reaches_stranger [of "\<lambda>old new. new"] by blast

text \<open>C10. A status tells what is bound: in any history in which nobody but the application puts the label of
  temporary grants on a binding or changes a labelled one short of removing it, a request that is pending or
  denied has no temporary grant on any cluster; any other one has been approved, and has at most one, in its
  scope on the cluster it was approved on; and one that counts as approved has it there, unless somebody took it
  away on that cluster by other means (a revocation in the permissions panel that hits its name, the endpoints
  that delete a binding of any name, the deletion of a user whose bindings are called like it, other tools) or in
  a run of the cleanup job a call failed.\<close>

theorem status_tells_binding:
  assumes "backend_run merge st0 es st" "backend_fresh st0" "r \<in> set (be_requests st)"
  shows "if rec_status r \<in> {Pending, Denied}
    then \<forall>c sc b. lookup (be_clusters st c) sc (jit_name (rec_id r)) = Some b \<longrightarrow> \<not> bd_jit b
    else \<exists>c u i. Serve u c (AR_approve (rec_id r)) i \<in> set es \<and>
      (\<forall>d sc b. lookup (be_clusters st d) sc (jit_name (rec_id r)) = Some b \<and> bd_jit b \<longrightarrow>
         d = c \<and> sc = granted_scope (rec_namespace r)) \<and>
      (rec_status r = Approved \<and>
         \<not> (\<exists>e\<in>set es. takes_away c (granted_scope (rec_namespace r)) (jit_name (rec_id r)) e) \<longrightarrow>
         (\<exists>b. lookup (be_clusters st c) (granted_scope (rec_namespace r)) (jit_name (rec_id r)) = Some b \<and> bd_jit b))"
proof -
  have ok: "record_ok es (be_clusters st) (be_now st) r"
    using backend_reachable [OF assms(1,2)] assms(3) by (simp add: backend_inv_def)
  show ?thesis
  proof (cases "rec_status r \<in> {Pending, Denied}")
    case True
    with ok have "\<forall>c sc. \<not> labelled (be_clusters st c) sc (jit_name (rec_id r))" by (auto simp: record_ok_def)
    with True show ?thesis by (auto simp: labelled_iff)
  next
    case False
    from ok False obtain c e where "approved_on es r c" "grant_ok es (be_clusters st) r c e"
      "rec_status r = Approved \<longrightarrow> labelled (be_clusters st c) (granted_scope (rec_namespace r)) (jit_name (rec_id r)) \<or>
         taken_away es c (granted_scope (rec_namespace r)) (jit_name (rec_id r))" by (rule record_ok_cases)
    then show ?thesis
      unfolding if_not_P [OF False] approved_on_def grant_ok_def labelled_iff taken_away_def by blast
  qed
qed

theorem status_tells_binding_witness:
  "rec_status granted_record = Approved \<and>
   (\<exists>b. lookup (be_clusters granted_backend ''prod'') None (jit_name ''7'') = Some b \<and> bd_jit b)"
proof -
  have r: "granted_record \<in> set (be_requests granted_backend)" by (simp add: granted_backend_def)
  have s: "rec_id granted_record = ''7''" "granted_scope (rec_namespace granted_record) = None" "rec_status granted_record = Approved"
    by (simp_all add: granted_record_def approved_record_def new_record_def edit_payload_def granted_scope_def)
  have "\<not> (\<exists>e\<in>set story. takes_away c sc n e)" for c sc n by (simp add: story_def)
  with status_tells_binding [OF story_run start_fresh r] s obtain c where
    c: "\<exists>u i. Serve u c (AR_approve ''7'') i \<in> set story"
    "\<exists>b. lookup (be_clusters granted_backend c) None (jit_name ''7'') = Some b \<and> bd_jit b" by auto
  from c(1) have "c = ''prod''" by (auto simp: story_def)
  with c(2) s(3) show ?thesis by simp
qed

text \<open>C27. Requests move forward: through any further history a request stays in the table with what it
  asks for, and its status only goes from pending to anything, or from approved to revoked or expired; a
  denied, revoked or expired request stays that.\<close>

theorem requests_move_forward:
  assumes "backend_run merge st0 es st" "backend_fresh st0" "backend_run merge st es' st'" "r \<in> set (be_requests st)"
  shows "\<exists>r'\<in>set (be_requests st'). asks_for r' = asks_for r \<and> reaches (rec_status r) (rec_status r')"
  using assms(3)
proof induction
  case br_start
  from assms(4) show ?case by (auto simp: reaches_def)
next
  case (br_event es2 st2 e)
  then obtain r2 where r2: "r2 \<in> set (be_requests st2)" "asks_for r2 = asks_for r" "reaches (rec_status r) (rec_status r2)"
    by blast
  have "backend_inv (es @ es2) st2"
    using br_event.hyps(1) backend_reachable [OF assms(1,2)] by (rule backend_run_inv)
  from event_later [OF this r2(1), of merge e] obtain r3 where
    "r3 \<in> set (be_requests (backend_next merge e st2))" "asks_for r3 = asks_for r2" "reaches (rec_status r2) (rec_status r3)"
    by blast
  with r2 reaches_trans show ?case by metis
qed

theorem requests_move_forward_witness:
  "\<exists>st' r'. backend_run (\<lambda>old new. new) granted_backend [Wait 5] st' \<and> r' \<in> set (be_requests st') \<and>
     asks_for r' = asks_for granted_record \<and> reaches Approved (rec_status r')"
proof -
  have w: "backend_run (\<lambda>old new. new) granted_backend ([] @ [Wait 5]) (backend_next (\<lambda>old new. new) (Wait 5) granted_backend)"
    by (rule br_event [OF br_start]) (simp add: granted_backend_def start_backend_def)
  have r: "granted_record \<in> set (be_requests granted_backend)" "rec_status granted_record = Approved"
    by (simp_all add: granted_backend_def granted_record_def)
  from requests_move_forward [OF story_run start_fresh w r(1)] w show ?thesis unfolding r(2) append_Nil by blast
qed

text \<open>C16. Grants end: in any history, when the local cluster and a registered one answer the cleanup job, no
  temporary grant that had expired is left on it, and no other binding was touched.\<close>

theorem cleanup_ends_grants:
  assumes "backend_run merge st0 es st" "backend_fresh st0"
    and "kb_denied (be_clusters st ''local'') = None" "kb_denied (be_clusters st c) = None"
    and "refuse ''local'' = (\<lambda>call. None)" "refuse c = (\<lambda>call. None)"
    and "c \<in> set (''local'' # be_registered st)"
  shows "lookup (be_clusters (backend_next merge (Cleanup refuse at t) st) c) sc n =
    (case lookup (be_clusters st c) sc n of
       None \<Rightarrow> None
     | Some b \<Rightarrow> if bd_jit b \<and> (\<exists>e. bd_expires b = Some e \<and> e \<le> at c) then None else Some b)"
proof -
  have kube: "tables_ok (be_clusters st d)" for d using backend_reachable [OF assms(1,2)] by (simp add: backend_inv_def)
  obtain cl where
    job: "cleanup_job refuse at t st = st\<lparr>be_clusters := cl\<rparr> \<or> cleanup_job refuse at t st = mark_expired t (st\<lparr>be_clusters := cl\<rparr>)"
    and sw: "swept (at c) (be_clusters st c) (cl c)" and clean: "clean (at c) (cl c)"
    by (rule cleanup_job_effect [OF kube, where refuse = refuse and at = "at" and t = t]) (use assms(3-7) in auto)
  from sw clean have "lookup (cl c) sc n = lookup (be_clusters st c) sc n \<or>
      (\<exists>b. lookup (be_clusters st c) sc n = Some b \<and> is_expired (at c) b \<and> lookup (cl c) sc n = None)"
    "\<And>b. lookup (cl c) sc n = Some b \<Longrightarrow> \<not> is_expired (at c) b" unfolding swept_def clean_def by blast+
  moreover have "is_expired (at c) b \<longleftrightarrow> bd_jit b \<and> (\<exists>e. bd_expires b = Some e \<and> e \<le> at c)" for b
    by (auto simp: is_expired_def past_def split: option.splits)
  moreover have "be_clusters (backend_next merge (Cleanup refuse at t) st) = cl" using job by (auto simp: mark_expired_def)
  ultimately show ?thesis by (auto split: option.splits)
qed

theorem cleanup_ends_grants_witness:
  "lookup (be_clusters (backend_next (\<lambda>old new. new) (Cleanup (\<lambda>c call. None) (\<lambda>c. minutes 61) (minutes 61)) granted_backend) ''prod'')
     None (jit_name ''7'') = None"
proof -
  have "kb_denied (be_clusters granted_backend ''local'') = None" "kb_denied (be_clusters granted_backend ''prod'') = None"
    "(\<lambda>c call. None) ''local'' = (\<lambda>call. None :: nat option)" "(\<lambda>c call. None) ''prod'' = (\<lambda>call. None :: nat option)"
    "''prod'' \<in> set (''local'' # be_registered granted_backend)"
    by (simp_all add: granted_backend_def start_backend_def granted_kube_def empty_kube_def)
  from cleanup_ends_grants [OF story_run start_fresh this, of "\<lambda>old new. new" "\<lambda>c. minutes 61" "minutes 61" None "jit_name ''7''"]
  show ?thesis unfolding granted_lookup by (simp add: grant_of_def minutes_def)
qed

end
