(* ===== verification/Reviews.thy ===== *)
theory Reviews
  imports GrantHistory Workspace
begin

text \<open>
  The review page (Requests.thy) in front of the backend of access requests (Approvals.thy): which of its
  buttons the backend accepts, and on which cluster a review takes effect. A request carries the
  cluster that is active where it leaves (Workspace.thy); the records of the backend name no cluster.
\<close>

section \<open>What the page shows of a record\<close>

text \<open>\<open>to_dict\<close> of \<^verbatim>\<open>db/models.py\<close>; \<open>isoformat\<close> prints an instant.\<close>

definition to_dict :: "(int \<Rightarrow> string) \<Rightarrow> request_record \<Rightarrow> access_request" where
  "to_dict isoformat r = \<lparr>q_id = rec_id r, q_requester = rec_requester r, q_target_username = rec_target_username r,
     q_user_kind = rec_user_kind r, q_sa_namespace = rec_sa_namespace r, q_role_name = rec_role_name r,
     q_role_kind = rec_role_kind r, q_namespace = rec_namespace r, q_ttl_minutes = rec_ttl_minutes r,
     q_reason = rec_reason r, q_status = rec_status r, q_requested_at = isoformat (rec_requested_at r),
     q_reviewed_by = rec_reviewed_by r, q_reviewed_at = map_option isoformat (rec_reviewed_at r),
     q_expires_at = map_option isoformat (rec_expires_at r), q_binding_name = rec_binding_name r\<rparr>"

section \<open>Lemmas\<close>

lemma get_or_404_member:
  assumes "r \<in> set (be_requests st)" "distinct (map rec_id (be_requests st))"
  shows "get_or_404 (rec_id r) st = Inr r"
proof (cases "find (\<lambda>x. rec_id x = rec_id r) (be_requests st)")
  case None
  with assms(1) show ?thesis by (auto simp: find_None_iff)
next
  case (Some x)
  then have "x \<in> set (be_requests st)" "rec_id x = rec_id r" by (auto simp: find_Some_iff)
  with assms have "x = r" by (auto simp: distinct_map inj_on_def)
  with Some show ?thesis by (simp add: get_or_404_def)
qed

lemma save_member: "r \<in> set (be_requests st) \<Longrightarrow> rec_id r' = rec_id r \<Longrightarrow> r' \<in> set (be_requests (save r' st))"
  by (auto simp: save_def image_iff intro!: bexI [of _ r])

lemma respond_Inr: "respond r = Inr st' \<longleftrightarrow> r = Inr st'"
  by (cases r) (simp_all add: respond_def)

lemma respond_400: "respond r \<noteq> Inl 400 \<longleftrightarrow> r \<noteq> Inl RequestError"
proof (cases r)
  case (Inl e)
  then show ?thesis by (cases e) (simp_all add: respond_def)
qed (simp add: respond_def)

lemma approve_accepted:
  assumes "backend_inv es st" "r \<in> set (be_requests st)"
    and "check_policy (rec_role_kind r) (rec_role_name r) (rec_ttl_minutes r) st"
  shows "approve_request (rec_id r) v c st \<noteq> Inl RequestError \<longleftrightarrow> rec_status r = Pending \<and> rec_requester r \<noteq> v"
    and "rec_status r = Pending \<Longrightarrow> rec_requester r \<noteq> v \<Longrightarrow> kb_denied (be_clusters st c) = None \<Longrightarrow>
      lookup (be_clusters st c) (granted_scope (rec_namespace r)) (jit_name (rec_id r)) = None \<Longrightarrow>
      kb_admits (be_clusters st c) (jit_name (rec_id r)) (grant_of r (be_now st + minutes (rec_ttl_minutes r))) \<Longrightarrow>
      \<exists>st'. approve_request (rec_id r) v c st = Inr st'"
proof -
  have g: "get_or_404 (rec_id r) st = Inr r"
    using get_or_404_member [OF assms(2)] assms(1) by (simp add: backend_inv_def)
  have "record_ok es (be_clusters st) (be_now st) r" using assms(1,2) by (simp add: backend_inv_def)
  then have kind: "rec_user_kind r \<in> set subject_kinds" by (simp add: record_ok_def)
  show "approve_request (rec_id r) v c st \<noteq> Inl RequestError \<longleftrightarrow> rec_status r = Pending \<and> rec_requester r \<noteq> v"
    using kind assms(3) by (auto simp: approve_request_def g Let_def on_cluster_def split: sum.splits)
  show "\<exists>st'. approve_request (rec_id r) v c st = Inr st'"
    if "rec_status r = Pending" "rec_requester r \<noteq> v" "kb_denied (be_clusters st c) = None"
      "lookup (be_clusters st c) (granted_scope (rec_namespace r)) (jit_name (rec_id r)) = None"
      "kb_admits (be_clusters st c) (jit_name (rec_id r)) (grant_of r (be_now st + minutes (rec_ttl_minutes r)))"
    using create_grant_succeeds [OF that(3-5)] that(1,2) kind assms(3)
    by (auto simp: approve_request_def g Let_def on_cluster_def)
qed

lemma delete_grant_succeeds:
  assumes "kb_denied k = None" "rec_binding_name r = Some n"
  shows "\<exists>k'. delete_grant r k = Inr k'"
  using assms
  by (cases "granted_scope (rec_namespace r)") (auto simp: delete_grant_def on_404_def on_rbs_def on_crbs_def removed_def)

lemma revoke_accepted:
  assumes "backend_inv es st" "r \<in> set (be_requests st)"
  shows "revoke_request (rec_id r) c st \<noteq> Inl RequestError \<longleftrightarrow> rec_status r = Approved"
    and "rec_status r = Approved \<Longrightarrow> kb_denied (be_clusters st c) = None \<Longrightarrow>
      \<exists>st'. revoke_request (rec_id r) c st = Inr st'"
proof -
  have g: "get_or_404 (rec_id r) st = Inr r"
    using get_or_404_member [OF assms(2)] assms(1) by (simp add: backend_inv_def)
  show "revoke_request (rec_id r) c st \<noteq> Inl RequestError \<longleftrightarrow> rec_status r = Approved"
    by (auto simp: revoke_request_def g on_cluster_def split: sum.splits)
  assume a: "rec_status r = Approved" and d: "kb_denied (be_clusters st c) = None"
  have "record_ok es (be_clusters st) (be_now st) r" using assms(1,2) by (simp add: backend_inv_def)
  with record_ok_cases [OF this] a have "rec_binding_name r = Some (jit_name (rec_id r))" by auto
  from delete_grant_succeeds [OF d this] a show "\<exists>st'. revoke_request (rec_id r) c st = Inr st'"
    by (auto simp: revoke_request_def g on_cluster_def)
qed

lemma deny_accepted:
  assumes "backend_inv es st" "r \<in> set (be_requests st)"
  shows "(\<exists>st'. deny_request (rec_id r) v st = Inr st') \<longleftrightarrow> rec_status r = Pending"
  using get_or_404_member [OF assms(2)] assms(1) by (simp add: backend_inv_def deny_request_def)

text \<open>A review leaves the page for the active cluster.\<close>

lemma review_sent:
  "\<exists>cfg. cfg \<in> set (hook_configs w (HAccessRequests h)) \<and> request_cluster cfg = or_local (wo_active w)"
  if "hooks (wo_active w) (HAccessRequests h) = Mutation m"
proof -
  from that obtain cfg where "cfg \<in> set (hook_configs w (HAccessRequests h))" by (simp add: hook_configs_def)
  with hook_configs_sent [OF this] show ?thesis by blast
qed

section \<open>Properties\<close>

text \<open>C9. The buttons of a row are the reviews the backend accepts. For an admin or approver, a request any
  history leads to, a registered cluster and a policy that still allows the request: the row offers the
  denial exactly when the endpoint carries it out; it offers the approval and the revocation exactly when
  the endpoint does not refuse it as out of place (400); and what it offers is carried out when the
  cluster answers and, for an approval, has no binding of that name (an endpoint makes bindings of any
  name) and accepts the new one. (README.md lets only admins review; page and backend let approvers, too.)\<close>

theorem review_buttons_accepted:
  assumes "backend_run merge st0 es st" "backend_fresh st0" "r \<in> set (be_requests st)"
    and "is_privileged (instance_role u)" "c \<in> set (''local'' # be_registered st)"
    and "check_policy (rec_role_kind r) (rec_role_name r) (rec_ttl_minutes r) st"
    and row: "row = request_row_view (Some (au_username u)) (to_dict isoformat r)"
  shows "(fires row (VP_ask Approve (to_dict isoformat r)) \<longleftrightarrow> serve u c (AR_approve (rec_id r)) i st \<noteq> Inl 400) \<and>
    (fires row (VP_ask Approve (to_dict isoformat r)) \<and> kb_denied (be_clusters st c) = None \<and>
       lookup (be_clusters st c) (granted_scope (rec_namespace r)) (jit_name (rec_id r)) = None \<and>
       kb_admits (be_clusters st c) (jit_name (rec_id r)) (grant_of r (be_now st + minutes (rec_ttl_minutes r))) \<longrightarrow>
       (\<exists>st'. serve u c (AR_approve (rec_id r)) i st = Inr st')) \<and>
    (fires row (VP_deny (to_dict isoformat r)) \<longleftrightarrow> (\<exists>st'. serve u c (AR_deny (rec_id r)) i st = Inr st')) \<and>
    (fires row (VP_ask Revoke (to_dict isoformat r)) \<longleftrightarrow> serve u c (AR_revoke (rec_id r)) i st \<noteq> Inl 400) \<and>
    (fires row (VP_ask Revoke (to_dict isoformat r)) \<and> kb_denied (be_clusters st c) = None \<longrightarrow>
       (\<exists>st'. serve u c (AR_revoke (rec_id r)) i st = Inr st'))"
proof -
  note inv = backend_reachable [OF assms(1,2)]
  have c: "c = ''local'' \<or> c \<in> set (be_registered st)" using assms(5) by auto
  have q: "q_status (to_dict isoformat r) = rec_status r" "q_requester (to_dict isoformat r) = rec_requester r"
    by (simp_all add: to_dict_def)
  have a: "fires row (VP_ask Approve (to_dict isoformat r)) \<longleftrightarrow> rec_status r = Pending \<and> rec_requester r \<noteq> au_username u"
    "fires row (VP_deny (to_dict isoformat r)) \<longleftrightarrow> rec_status r = Pending"
    "fires row (VP_ask Revoke (to_dict isoformat r)) \<longleftrightarrow> rec_status r = Approved"
    by (auto simp: row request_row_view_def is_own_request_def q)
  have s: "serve u c (AR_approve (rec_id r)) i st = respond (approve_request (rec_id r) (au_username u) c st)"
    "serve u c (AR_deny (rec_id r)) i st = respond (deny_request (rec_id r) (au_username u) st)"
    "serve u c (AR_revoke (rec_id r)) i st = respond (revoke_request (rec_id r) c st)"
    using assms(4) c by (auto simp: serve_def Let_def)
  show ?thesis
    unfolding a s respond_400 respond_Inr
    using approve_accepted [OF inv assms(3,6), of "au_username u" c] revoke_accepted [OF inv assms(3), of c]
      deny_accepted [OF inv assms(3), of "au_username u"] by simp
qed

theorem review_buttons_accepted_witness:
  "fires (request_row_view (Some ''ann'') (to_dict (\<lambda>t. []) granted_record)) (VP_ask Revoke (to_dict (\<lambda>t. []) granted_record)) \<and>
   (\<exists>st'. serve ann_user ''local'' (AR_revoke ''7'') ''9'' granted_backend = Inr st')"
proof -
  have a: "au_username ann_user = ''ann''" "rec_id granted_record = ''7''" "rec_status granted_record = Approved"
    by (simp_all add: ann_user_def granted_record_def new_record_def)
  have "granted_record \<in> set (be_requests granted_backend)" "is_privileged (instance_role ann_user)"
    "''local'' \<in> set (''local'' # be_registered granted_backend)"
    "check_policy (rec_role_kind granted_record) (rec_role_name granted_record) (rec_ttl_minutes granted_record) granted_backend"
    and d: "kb_denied (be_clusters granted_backend ''local'') = None"
    by (simp_all add: granted_backend_def start_backend_def ann_user_def instance_role_def is_privileged_def empty_kube_def
        check_policy_def granted_record_def new_record_def edit_payload_def MAX_TTL_MINUTES_def)
  from review_buttons_accepted [OF story_run start_fresh this(1-4) refl, of "\<lambda>t. []" "''9''"] a d show ?thesis
    by (simp add: request_row_view_def to_dict_def)
qed

text \<open>C18. A request takes effect where it is reviewed: asked for while one cluster is active, and approved
  by somebody for whom another one is, it is granted on the other one and on no other, since the record
  does not say which cluster it was for. (No binding has the name of the new request yet, and the
  reviewer's cluster answers and accepts the binding.)\<close>

theorem granted_where_reviewed:
  assumes "backend_run merge st0 es st" "backend_fresh st0"
    and "cfg \<in> set (hook_configs w (HAccessRequests (UseCreateAccessRequest p)))"
    and "\<And>c sc. lookup (be_clusters st c) sc (jit_name i) = None"
    and "serve u (request_cluster cfg) (AR_create p) i st = Inr st1"
    and "cfg' \<in> set (hook_configs w' (HAccessRequests (UseApproveAccessRequest i)))"
    and "is_privileged (instance_role v)" "au_username v \<noteq> au_username u"
    and "or_local (wo_active w') \<in> set (''local'' # be_registered st)"
    and "kb_denied (be_clusters st (or_local (wo_active w'))) = None"
    and "\<And>b. kb_admits (be_clusters st (or_local (wo_active w'))) (jit_name i) b"
  shows "\<exists>st2. serve v (request_cluster cfg') (AR_approve i) j st1 = Inr st2 \<and>
    (\<forall>c. (\<exists>sc. lookup (be_clusters st2 c) sc (jit_name i) \<noteq> None) \<longleftrightarrow> c = or_local (wo_active w'))"
proof -
  let ?d = "or_local (wo_active w')" and ?r = "new_record (au_username u) p i (be_now st)"
  have d: "request_cluster cfg' = ?d" using hook_configs_sent [OF assms(6)] by blast
  have ok: "respond x = Inr y \<longleftrightarrow> x = Inr y" for x y by (rule respond_Inr)
  from assms(5) have st1: "st1 = st\<lparr>be_requests := be_requests st @ [?r]\<rparr>"
    and policy: "check_policy (rc_role_kind p) (rc_role_name p) (rc_ttl_minutes p) st"
    by (auto simp: serve_def Let_def ok create_request_def split: if_splits)
  have "backend_inv es st" using backend_reachable [OF assms(1,2)] .
  from serve_inv [OF this assms(5), of "es @ [Serve u (request_cluster cfg) (AR_create p) i]"]
  have inv: "backend_inv (es @ [Serve u (request_cluster cfg) (AR_create p) i]) st1" by auto
  have r: "?r \<in> set (be_requests st1)" "rec_id ?r = i" "rec_status ?r = Pending" "rec_requester ?r = au_username u"
    by (simp_all add: st1 new_record_def)
  have "check_policy (rec_role_kind ?r) (rec_role_name ?r) (rec_ttl_minutes ?r) st1"
    using policy by (simp add: st1 new_record_def check_policy_def)
  from approve_accepted(2) [OF inv r(1) this r(3), of "au_username v" ?d] assms(4,8,10,11) r(2,4) obtain st2 where
    st2: "approve_request i (au_username v) ?d st1 = Inr st2" by (auto simp: st1)
  then have "serve v ?d (AR_approve i) j st1 = Inr st2"
    using assms(7,9) by (simp add: serve_def Let_def ok) (simp add: st1)
  moreover have "(\<exists>sc. lookup (be_clusters st2 c) sc (jit_name i) \<noteq> None) \<longleftrightarrow> c = ?d" for c
  proof -
    from st2 obtain x k where x: "x \<in> set (be_requests st1)" "rec_id x = i"
      and g: "create_grant x (be_now st1 + minutes (rec_ttl_minutes x)) (be_clusters st1 ?d) = Inr k"
      and s: "st2 = save (approved_record x (au_username v) (be_now st1)) (set_cluster ?d k st1)"
      by (rule approve_request_Inr)
    have "\<forall>c sc. lookup (be_clusters st1 c) sc (jit_name i) = None" using assms(4) by (simp add: st1)
    with create_grant_Inr [OF g] x(2) show ?thesis by (auto simp: s)
  qed
  ultimately show ?thesis unfolding d by blast
qed

text \<open>Two worlds around the pages: \<open>prod\<close> is active in one, the local cluster in the other.\<close>

definition world_on :: "string \<Rightarrow> unit world" where
  "world_on c = \<lparr>wo_auth = auth_init, wo_active = c, wo_clusters = Some [''local'', ''prod''], wo_data = (\<lambda>c. ())\<rparr>"

lemma world_on_active [simp]: "wo_active (world_on c) = c"
  by (simp add: world_on_def)

lemma start_run: "backend_run merge start_backend [] start_backend"
  by (rule br_start)

theorem granted_where_reviewed_witness:
  "\<exists>st2 cfg'. cfg' \<in> set (hook_configs (world_on ''local'') (HAccessRequests (UseApproveAccessRequest ''7''))) \<and>
     serve ann_user (request_cluster cfg') (AR_approve ''7'') ''8'' asked_backend = Inr st2 \<and>
     (\<forall>c. (\<exists>sc. lookup (be_clusters st2 c) sc (jit_name ''7'') \<noteq> None) \<longleftrightarrow> c = ''local'')"
proof -
  have h: "\<exists>m. hooks (wo_active (world_on c)) (HAccessRequests (UseCreateAccessRequest edit_payload)) = Mutation m"
    "\<exists>m. hooks (wo_active (world_on c)) (HAccessRequests (UseApproveAccessRequest ''7'')) = Mutation m" for c
    by (simp_all add: mutation_def)
  from h(1) review_sent obtain cfg where
    cfg: "cfg \<in> set (hook_configs (world_on ''prod'') (HAccessRequests (UseCreateAccessRequest edit_payload)))"
    "request_cluster cfg = or_local (wo_active (world_on ''prod''))" by blast
  from h(2) review_sent obtain cfg' where
    cfg': "cfg' \<in> set (hook_configs (world_on ''local'') (HAccessRequests (UseApproveAccessRequest ''7'')))" by blast
  have c: "request_cluster cfg = ''prod''" unfolding cfg(2) by (simp add: or_local_def truthy_def)
  have free: "lookup (be_clusters start_backend c) sc (jit_name ''7'') = None" for c sc
    by (simp add: start_backend_def)
  have asked: "serve bob_user (request_cluster cfg) (AR_create edit_payload) ''7'' start_backend = Inr asked_backend"
    unfolding c by (rule story_asked)
  have l: "or_local (wo_active (world_on ''local'')) = ''local''" by (simp add: or_local_def truthy_def)
  have "is_privileged (instance_role ann_user)" "au_username ann_user \<noteq> au_username bob_user"
    "or_local (wo_active (world_on ''local'')) \<in> set (''local'' # be_registered start_backend)"
    "kb_denied (be_clusters start_backend (or_local (wo_active (world_on ''local'')))) = None"
    "kb_admits (be_clusters start_backend (or_local (wo_active (world_on ''local'')))) (jit_name ''7'') b" for b
    unfolding l by (simp_all add: ann_user_def bob_user_def instance_role_def is_privileged_def start_backend_def empty_kube_def)
  from granted_where_reviewed [OF start_run start_fresh cfg(1) free asked cfg' this, of "''8''"] obtain st2 where
    st2: "serve ann_user (request_cluster cfg') (AR_approve ''7'') ''8'' asked_backend = Inr st2"
    "\<forall>c. (\<exists>sc. lookup (be_clusters st2 c) sc (jit_name ''7'') \<noteq> None) \<longleftrightarrow> c = ''local''"
    unfolding l by (elim exE conjE) (rule that)
  show ?thesis by (rule exI [of _ st2], rule exI [of _ cfg'], intro conjI cfg' st2)
qed



end
