(* ===== verification/AccessViews.thy ===== *)
theory AccessViews
  imports AccessPanels Bindings
begin

text \<open>
  What is behind the two access views on the backend: \<^verbatim>\<open>get_namespace_access\<close> of
  \<^verbatim>\<open>services/rbac_service.py\<close>, on the bindings of Bindings.thy, and the endpoint \<^verbatim>\<open>check-access\<close> of
  \<^verbatim>\<open>routers/rbac.py\<close>, which turns the name a user types into the subject the cluster is asked about.
  The registry of users is a list; the verdict itself is the cluster's.
\<close>

section \<open>get_namespace_access\<close>

definition entry_of :: "string \<Rightarrow> string \<Rightarrow> binding \<Rightarrow> subject \<Rightarrow> access_entry" where
  "entry_of scope n b x =
     \<lparr>ae_subject = sb_name x, ae_subject_kind = sb_kind x, ae_subject_namespace = sb_namespace x,
      ae_role = bd_role_ref b, ae_role_kind = bd_role_kind b, ae_binding = n, ae_scope = scope\<rparr>"

definition get_namespace_access :: "string \<Rightarrow> kube \<Rightarrow> nat + access_entry list" where
  "get_namespace_access ns k = kube_call k (Inr (
     concat (map (\<lambda>(key, b). map (entry_of ''namespace'' (snd key) b) (bd_subjects b))
       (filter (\<lambda>(key, b). fst key = ns) (kb_rbs k))) @
     concat (map (\<lambda>(n, b). map (entry_of ''cluster'' n b) (bd_subjects b)) (kb_crbs k))))"

section \<open>check_access\<close>

definition cert_get_user :: "user list \<Rightarrow> string \<Rightarrow> user option" where
  "cert_get_user registry name = find (\<lambda>u. u_name u = name \<and> u_user_type u = Certificate) registry"

definition sa_get_user :: "user list \<Rightarrow> string \<Rightarrow> string option \<Rightarrow> user option" where
  "sa_get_user registry name ns =
     find (\<lambda>u. u_name u = name \<and> u_user_type u = Service_account \<and> (ns = None \<or> ns = Some (u_namespace u))) registry"

text \<open>The user name and the groups of the review: those a certificate or a service account has where it
  signs in.\<close>

definition cert_subject :: "user \<Rightarrow> string \<times> string list" where
  "cert_subject u = (u_name u, u_groups u @ [''system:authenticated''])"

definition sa_subject :: "user \<Rightarrow> string \<times> string list" where
  "sa_subject u =
     (''system:serviceaccount:'' @ u_namespace u @ '':'' @ u_name u,
      [''system:serviceaccounts'', ''system:serviceaccounts:'' @ u_namespace u, ''system:authenticated''])"

definition check_access :: "user list \<Rightarrow> check_access_request \<Rightarrow> string \<times> string list" where
  "check_access registry q =
     (case cert_get_user registry (ca_user q) of
        Some u \<Rightarrow> cert_subject u
      | None \<Rightarrow>
          (case sa_get_user registry (ca_user q) None of
             Some u \<Rightarrow> sa_subject u
           | None \<Rightarrow> (ca_user q, [])))"

section \<open>Lemmas\<close>

definition table_rows :: "access_table \<Rightarrow> access_row list" where
  "table_rows t = (case t of Rows rs \<Rightarrow> rs | _ \<Rightarrow> [])"

lemma table_rows_filtered: "np_entries s = Ready es \<Longrightarrow> table_rows (access_table s) = map access_row (filtered s)"
  by (simp add: access_table_def table_rows_def)

definition scope_name :: "string option \<Rightarrow> string" where
  "scope_name sc = (case sc of None \<Rightarrow> ''cluster'' | Some ns \<Rightarrow> ''namespace'')"

lemma entry_listed:
  assumes "get_namespace_access ns k = Inr es" "distinct (map fst (kb_crbs k))" "distinct (map fst (kb_rbs k))"
  shows "e \<in> set es \<longleftrightarrow> (\<exists>sc n b x. sc \<in> {None, Some ns} \<and> lookup k sc n = Some b \<and> x \<in> set (bd_subjects b) \<and>
    e = entry_of (scope_name sc) n b x)"
proof -
  have es: "es = concat (map (\<lambda>(key, b). map (entry_of ''namespace'' (snd key) b) (bd_subjects b))
       (filter (\<lambda>(key, b). fst key = ns) (kb_rbs k))) @
     concat (map (\<lambda>(n, b). map (entry_of ''cluster'' n b) (bd_subjects b)) (kb_crbs k))"
    using assms(1) by (cases "kb_denied k") (simp_all add: get_namespace_access_def)
  have c: "lookup k None n = Some b \<longleftrightarrow> (n, b) \<in> set (kb_crbs k)" for n b using assms(2) by simp
  have r: "lookup k (Some ns) n = Some b \<longleftrightarrow> ((ns, n), b) \<in> set (kb_rbs k)" for n b using assms(3) by simp
  show ?thesis
  proof
    assume "e \<in> set es"
    then consider n b x where "((ns, n), b) \<in> set (kb_rbs k)" "x \<in> set (bd_subjects b)" "e = entry_of ''namespace'' n b x"
      | n b x where "(n, b) \<in> set (kb_crbs k)" "x \<in> set (bd_subjects b)" "e = entry_of ''cluster'' n b x"
      unfolding es by auto
    then show "\<exists>sc n b x. sc \<in> {None, Some ns} \<and> lookup k sc n = Some b \<and> x \<in> set (bd_subjects b) \<and>
        e = entry_of (scope_name sc) n b x"
    proof cases
      case 1
      then show ?thesis
        by (intro exI [of _ "Some ns"] exI [of _ n] exI [of _ b] exI [of _ x]) (simp add: r scope_name_def del: lookup.simps)
    next
      case 2
      then show ?thesis
        by (intro exI [of _ None] exI [of _ n] exI [of _ b] exI [of _ x]) (simp add: c scope_name_def del: lookup.simps)
    qed
  next
    assume "\<exists>sc n b x. sc \<in> {None, Some ns} \<and> lookup k sc n = Some b \<and> x \<in> set (bd_subjects b) \<and>
        e = entry_of (scope_name sc) n b x"
    then obtain sc n b x where x: "sc \<in> {None, Some ns}" "lookup k sc n = Some b" "x \<in> set (bd_subjects b)"
      "e = entry_of (scope_name sc) n b x" by blast
    show "e \<in> set es"
    proof (cases sc)
      case None
      with x c have "(n, b) \<in> set (kb_crbs k)" by blast
      with x None show ?thesis unfolding es by (force simp: scope_name_def)
    next
      case (Some m)
      with x r have "((ns, n), b) \<in> set (kb_rbs k)" by blast
      with x Some show ?thesis unfolding es by (force simp: scope_name_def)
    qed
  qed
qed

lemma colon_split:
  "CHR '':'' \<notin> set a \<Longrightarrow> CHR '':'' \<notin> set c \<Longrightarrow> a @ '':'' @ b = c @ '':'' @ d \<longleftrightarrow> a = c \<and> b = d"
proof (induction a arbitrary: c)
  case Nil
  then show ?case by (cases c) auto
next
  case (Cons y a)
  then show ?case by (cases c) auto
qed

definition colon_free :: "user \<Rightarrow> bool" where
  "colon_free u \<longleftrightarrow> CHR '':'' \<notin> set (u_name u) \<and> CHR '':'' \<notin> set (u_namespace u)"

lemma sa_subject_inject:
  assumes "colon_free u" "colon_free v"
  shows "sa_subject u = sa_subject v \<longleftrightarrow> u_name u = u_name v \<and> u_namespace u = u_namespace v"
  using assms colon_split [of "u_namespace u" "u_namespace v" "u_name u" "u_name v"]
  by (auto simp: sa_subject_def colon_free_def)

lemma cert_not_sa: "colon_free v \<Longrightarrow> cert_subject v \<noteq> sa_subject u"
  by (auto simp: cert_subject_def sa_subject_def colon_free_def)

lemma find_member: "find P xs = Some x \<Longrightarrow> x \<in> set xs \<and> P x"
  by (auto simp: find_Some_iff)

section \<open>Properties\<close>

text \<open>C22. The access table is the state of the cluster: for the answer of the backend, the rows of the panel are
  exactly those of the subjects of the bindings in force in the chosen namespace (its role bindings and all
  cluster role bindings) whose name and kind match the filters.\<close>

theorem access_view_shows_bindings:
  assumes "get_namespace_access (np_namespace s) k = Inr es" and "np_entries s = Ready es"
    and "distinct (map fst (kb_crbs k))" "distinct (map fst (kb_rbs k))"
  shows "row \<in> set (table_rows (access_table s)) \<longleftrightarrow>
    (\<exists>sc n b x. sc \<in> {None, Some (np_namespace s)} \<and> lookup k sc n = Some b \<and> x \<in> set (bd_subjects b) \<and>
       (np_search s = [] \<or> string_includes (toLowerCase (sb_name x)) (toLowerCase (np_search s))) \<and>
       (np_kind s = [] \<or> sb_kind x = np_kind s) \<and>
       row = access_row (entry_of (scope_name sc) n b x))"
proof -
  have shown: "row \<in> set (table_rows (access_table s)) \<longleftrightarrow> (\<exists>e. e \<in> set es \<and>
      (np_search s = [] \<or> string_includes (toLowerCase (ae_subject e)) (toLowerCase (np_search s))) \<and>
      (np_kind s = [] \<or> ae_subject_kind e = np_kind s) \<and> row = access_row e)"
    using assms(2) by (auto simp: table_rows_filtered filtered_def np_data_def)
  have fields: "ae_subject (entry_of sc n b x) = sb_name x" "ae_subject_kind (entry_of sc n b x) = sb_kind x" for sc n b x
    by (simp_all add: entry_of_def)
  show ?thesis
    unfolding shown entry_listed [OF assms(1,3,4)]
  proof (intro iffI; elim exE conjE)
    fix e sc n b x
    assume "sc \<in> {None, Some (np_namespace s)}" "lookup k sc n = Some b" "x \<in> set (bd_subjects b)"
      "e = entry_of (scope_name sc) n b x"
      "np_search s = [] \<or> string_includes (toLowerCase (ae_subject e)) (toLowerCase (np_search s))"
      "np_kind s = [] \<or> ae_subject_kind e = np_kind s" "row = access_row e"
    then show "\<exists>sc n b x. sc \<in> {None, Some (np_namespace s)} \<and> lookup k sc n = Some b \<and> x \<in> set (bd_subjects b) \<and>
       (np_search s = [] \<or> string_includes (toLowerCase (sb_name x)) (toLowerCase (np_search s))) \<and>
       (np_kind s = [] \<or> sb_kind x = np_kind s) \<and> row = access_row (entry_of (scope_name sc) n b x)"
      by (intro exI [of _ sc] exI [of _ n] exI [of _ b] exI [of _ x]) (simp only: fields simp_thms)
  next
    fix sc n b x
    assume x: "sc \<in> {None, Some (np_namespace s)}" "lookup k sc n = Some b" "x \<in> set (bd_subjects b)"
      "np_search s = [] \<or> string_includes (toLowerCase (sb_name x)) (toLowerCase (np_search s))"
      "np_kind s = [] \<or> sb_kind x = np_kind s" "row = access_row (entry_of (scope_name sc) n b x)"
    show "\<exists>e. (\<exists>sc n b x. sc \<in> {None, Some (np_namespace s)} \<and> lookup k sc n = Some b \<and> x \<in> set (bd_subjects b) \<and>
        e = entry_of (scope_name sc) n b x) \<and>
       (np_search s = [] \<or> string_includes (toLowerCase (ae_subject e)) (toLowerCase (np_search s))) \<and>
       (np_kind s = [] \<or> ae_subject_kind e = np_kind s) \<and> row = access_row e"
      by (intro exI [of _ "entry_of (scope_name sc) n b x"] conjI exI [of _ sc] exI [of _ n] exI [of _ b] exI [of _ x])
        (use x in \<open>simp_all only: fields simp_thms\<close>)
  qed
qed

text \<open>C34. The simulator asks about the first of two homonyms: whatever is typed, the review is for a service
  account of the registry, as it signs in, only when no certificate user has its name and it is the first
  service account of that name; then typing its name asks about it.\<close>

theorem simulator_sees_first_homonym:
  assumes "u \<in> set registry" "u_user_type u = Service_account" and colon: "list_all colon_free registry"
    and trimmed: "js_trim (u_name u) = u_name u"
  shows "(\<exists>s. check_access registry (check_request s) = sa_subject u) \<longleftrightarrow>
    cert_get_user registry (u_name u) = None \<and>
    (\<exists>v. sa_get_user registry (u_name u) None = Some v \<and> u_namespace v = u_namespace u)"
proof
  have free: "colon_free v" if "v \<in> set registry" for v using colon that by (simp add: list_all_iff)
  assume "\<exists>s. check_access registry (check_request s) = sa_subject u"
  then obtain q where q: "check_access registry q = sa_subject u" by blast
  show "cert_get_user registry (u_name u) = None \<and>
    (\<exists>v. sa_get_user registry (u_name u) None = Some v \<and> u_namespace v = u_namespace u)"
  proof (cases "cert_get_user registry (ca_user q)")
    case (Some v)
    then have "v \<in> set registry" by (auto simp: cert_get_user_def dest: find_member)
    with q Some cert_not_sa [OF free] show ?thesis by (simp add: check_access_def)
  next
    case cert: None
    show ?thesis
    proof (cases "sa_get_user registry (ca_user q) None")
      case None
      with q cert show ?thesis by (simp add: check_access_def sa_subject_def)
    next
      case (Some v)
      then have v: "v \<in> set registry" "u_name v = ca_user q" by (auto simp: sa_get_user_def dest: find_member)
      from q cert Some have "sa_subject v = sa_subject u" by (simp add: check_access_def)
      with sa_subject_inject [OF free [OF v(1)] free [OF assms(1)]] v(2) cert Some show ?thesis by simp
    qed
  qed
next
  have free: "colon_free v" if "v \<in> set registry" for v using colon that by (simp add: list_all_iff)
  assume r: "cert_get_user registry (u_name u) = None \<and>
    (\<exists>v. sa_get_user registry (u_name u) None = Some v \<and> u_namespace v = u_namespace u)"
  then obtain v where v: "sa_get_user registry (u_name u) None = Some v" "u_namespace v = u_namespace u" by blast
  then have "v \<in> set registry" "u_name v = u_name u" by (auto simp: sa_get_user_def dest: find_member)
  with sa_subject_inject [OF free free [OF assms(1)]] v(2) have "sa_subject v = sa_subject u" by simp
  moreover have "ca_user (check_request (simulator_init\<lparr>sm_user := u_name u\<rparr>)) = u_name u"
    using trimmed by (simp add: check_request_def)
  ultimately show "\<exists>s. check_access registry (check_request s) = sa_subject u"
    using r v(1) by (intro exI [of _ "simulator_init\<lparr>sm_user := u_name u\<rparr>"]) (simp add: check_access_def)
qed

definition homonyms :: "user list" where
  "homonyms = [\<lparr>u_name = ''ci'', u_user_type = Service_account, u_groups = [], u_namespace = ''a'', u_created_at = [],
       u_cert_expiry = None, u_csr_name = None\<rparr>,
     \<lparr>u_name = ''ci'', u_user_type = Service_account, u_groups = [], u_namespace = ''b'', u_created_at = [],
       u_cert_expiry = None, u_csr_name = None\<rparr>]"

theorem simulator_sees_first_homonym_witness:
  "(\<exists>s. check_access homonyms (check_request s) = sa_subject (homonyms ! 0)) \<and>
   \<not> (\<exists>s. check_access homonyms (check_request s) = sa_subject (homonyms ! 1))"
proof -
  have u: "homonyms ! i \<in> set homonyms" "u_user_type (homonyms ! i) = Service_account"
    "js_trim (u_name (homonyms ! i)) = u_name (homonyms ! i)" if "i < 2" for i
  proof -
    have "plain_char (CHR ''c'') \<and> plain_char (CHR ''i'')" by (simp add: plain_char_def ws_seqs_def)
    then have "js_trim ''ci'' = ''ci''" by (intro js_trim_plain) simp_all
    with that show "homonyms ! i \<in> set homonyms" "u_user_type (homonyms ! i) = Service_account"
      "js_trim (u_name (homonyms ! i)) = u_name (homonyms ! i)" by (auto simp: homonyms_def less_2_cases_iff)
  qed
  have c: "list_all colon_free homonyms" by (simp add: homonyms_def colon_free_def)
  from simulator_sees_first_homonym [OF u(1,2) c u(3), of 0] simulator_sees_first_homonym [OF u(1,2) c u(3), of 1]
  show ?thesis by (simp add: homonyms_def cert_get_user_def sa_get_user_def)
qed

theorem access_view_shows_bindings_witness:
  "\<exists>es. get_namespace_access ''default'' jit_kube = Inr es \<and>
     access_row (entry_of ''cluster'' ''clustervision-bob-edit'' jit_binding (the_subject ''bob'' ''User'' None)) \<in>
       set (table_rows (access_table (access_panel_init\<lparr>np_entries := Ready es\<rparr>)))"
proof -
  obtain es where es: "get_namespace_access ''default'' jit_kube = Inr es"
    by (simp add: get_namespace_access_def jit_kube_def empty_kube_def)
  let ?s = "access_panel_init\<lparr>np_entries := Ready es\<rparr>"
  have n: "np_namespace ?s = ''default''" "np_entries ?s = Ready es" "np_search ?s = []" "np_kind ?s = []"
    by (simp_all add: access_panel_init_def)
  have d: "distinct (map fst (kb_crbs jit_kube))" "distinct (map fst (kb_rbs jit_kube))"
    by (simp_all add: jit_kube_def empty_kube_def)
  have b: "lookup jit_kube None ''clustervision-bob-edit'' = Some jit_binding"
    "the_subject ''bob'' ''User'' None \<in> set (bd_subjects jit_binding)"
    by (simp_all add: jit_kube_def jit_binding_def)
  have "\<exists>sc n' b x. sc \<in> {None, Some ''default''} \<and> lookup jit_kube sc n' = Some b \<and> x \<in> set (bd_subjects b) \<and>
      access_row (entry_of ''cluster'' ''clustervision-bob-edit'' jit_binding (the_subject ''bob'' ''User'' None)) =
        access_row (entry_of (scope_name sc) n' b x)"
    by (intro exI [of _ None] exI [of _ "''clustervision-bob-edit''"] exI [of _ jit_binding]
        exI [of _ "the_subject ''bob'' ''User'' None"]) (use b in \<open>simp add: scope_name_def del: lookup.simps\<close>)
  with access_view_shows_bindings [OF es [folded n(1)] n(2) d] es show ?thesis
    unfolding n by (simp only: simp_thms) blast
qed

end
