(* ===== verification/Endpoints.thy ===== *)
theory Endpoints
  imports Routes Workspace Requests
begin

text \<open>
  Who may call what: the routes of the backend (\<^verbatim>\<open>src/backend/app/main.py\<close> and the routers it includes)
  with the dependencies that ask for a right (\<^verbatim>\<open>core/dependencies.py\<close>), in front of the calls of the API
  modules. The frontend decides by the roles in its store, the backend by those in the token.

  Of an endpoint the method, the path and the dependencies on the user are modelled; the prefix
  \<^verbatim>\<open>/api/v1\<close> of every router is the \<^verbatim>\<open>baseURL\<close> of the client. Reading a token (\<^verbatim>\<open>decode_token\<close>, a signature
  check) is the parameter \<open>decode\<close>.
\<close>

section \<open>core/dependencies.py\<close>

datatype guard = Current_user | Auth_gate | Instance_gate | Require_admin | Require_approver

text \<open>The requests of the frontend are neither HEAD nor OPTIONS.\<close>

definition require_admin :: "(string \<rightharpoonup> role) \<Rightarrow> bool" where
  "require_admin roles \<longleftrightarrow> roles INSTANCE_SCOPE = Some Admin"

definition require_approver :: "(string \<rightharpoonup> role) \<Rightarrow> bool" where
  "require_approver roles \<longleftrightarrow> roles INSTANCE_SCOPE \<in> {Some Admin, Some Approver}"

definition instance_gate :: "http_method \<Rightarrow> (string \<rightharpoonup> role) \<Rightarrow> bool" where
  "instance_gate m roles \<longleftrightarrow> \<not> (m \<noteq> GET \<and> roles INSTANCE_SCOPE \<noteq> Some Admin)"

definition auth_gate :: "http_method \<Rightarrow> string \<Rightarrow> (string \<rightharpoonup> role) \<Rightarrow> bool" where
  "auth_gate m cluster roles =
     (case roles cluster of
        None \<Rightarrow> False
      | Some role \<Rightarrow> \<not> (m \<noteq> GET \<and> role \<notin> {Operator, Admin}))"

fun passes :: "http_method \<Rightarrow> string \<Rightarrow> (string \<rightharpoonup> role) \<Rightarrow> guard \<Rightarrow> bool" where
  "passes m cluster roles Current_user = True"
| "passes m cluster roles Auth_gate = auth_gate m cluster roles"
| "passes m cluster roles Instance_gate = instance_gate m roles"
| "passes m cluster roles Require_admin = require_admin roles"
| "passes m cluster roles Require_approver = require_approver roles"

section \<open>main.py and routers/\<close>

datatype segment = Fixed string | Hole

record endpoint =
  ep_method :: http_method
  ep_path :: "segment list"
  ep_guards :: "guard list"

definition router :: "string list \<Rightarrow> guard list \<Rightarrow> (http_method \<times> segment list \<times> guard list) list \<Rightarrow> endpoint list" where
  "router base dependencies eps = map (\<lambda>(m, p, gs).
     \<lparr>ep_method = m, ep_path = map Fixed base @ p, ep_guards = dependencies @ gs\<rparr>) eps"

definition auth_router :: "endpoint list" where
  "auth_router = router [''auth''] []
     [(POST, [Fixed ''login''], []), (POST, [Fixed ''refresh''], []), (POST, [Fixed ''logout''], []),
      (GET, [Fixed ''me''], [Current_user]), (GET, [Fixed ''me'', Fixed ''link''], [Current_user]),
      (GET, [Fixed ''users''], [Require_admin]), (POST, [Fixed ''users''], [Require_admin]),
      (DELETE, [Fixed ''users'', Hole], [Require_admin]),
      (POST, [Fixed ''users'', Hole, Fixed ''password''], [Require_admin]),
      (PUT, [Fixed ''users'', Hole, Fixed ''link''], [Require_admin]),
      (DELETE, [Fixed ''users'', Hole, Fixed ''link''], [Require_admin])]"

text \<open>Registering has a token of its own.\<close>

definition public_cluster_router :: "endpoint list" where
  "public_cluster_router = router [''cluster''] [] [(POST, [Fixed ''register''], [])]"

definition users_router :: "endpoint list" where
  "users_router = router [''users''] [Auth_gate]
     [(GET, [], []), (POST, [], []), (GET, [Fixed ''unmanaged-serviceaccounts''], []), (POST, [Fixed ''import''], []),
      (GET, [Hole], []), (DELETE, [Hole], [])]"

definition rbac_router :: "endpoint list" where
  "rbac_router = router [''rbac''] [Auth_gate]
     [(GET, [Fixed ''cluster-roles''], []), (POST, [Fixed ''cluster-roles''], []),
      (PATCH, [Fixed ''cluster-roles'', Hole], []), (DELETE, [Fixed ''cluster-roles'', Hole], []),
      (GET, [Fixed ''roles'', Hole], []), (POST, [Fixed ''roles''], []),
      (PATCH, [Fixed ''roles'', Hole, Hole], []), (DELETE, [Fixed ''roles'', Hole, Hole], []),
      (GET, [Fixed ''bindings'', Fixed ''cluster''], []), (POST, [Fixed ''bindings'', Fixed ''cluster''], []),
      (DELETE, [Fixed ''bindings'', Fixed ''cluster'', Hole], []),
      (GET, [Fixed ''bindings'', Fixed ''namespace'', Hole], []),
      (POST, [Fixed ''bindings'', Fixed ''namespace'', Hole], []),
      (DELETE, [Fixed ''bindings'', Fixed ''namespace'', Hole, Hole], []),
      (GET, [Fixed ''users'', Hole, Fixed ''permissions''], []),
      (POST, [Fixed ''users'', Hole, Fixed ''roles''], []),
      (DELETE, [Fixed ''users'', Hole, Fixed ''roles'', Hole], []),
      (GET, [Fixed ''namespaces''], []), (GET, [Fixed ''namespace'', Hole, Fixed ''access''], []),
      (POST, [Fixed ''check-access''], [])]"

definition kubeconfig_router :: "endpoint list" where
  "kubeconfig_router = router [''kubeconfig''] [Auth_gate] [(POST, [Fixed ''generate''], [])]"

definition cluster_router :: "endpoint list" where
  "cluster_router = router [''cluster''] [Instance_gate]
     [(GET, [Fixed ''info''], []), (GET, [Fixed ''clusters''], []), (POST, [Fixed ''clusters''], []),
      (GET, [Fixed ''bootstrap-script''], [Require_admin]), (DELETE, [Fixed ''clusters'', Hole], [])]"

definition tokens_router :: "endpoint list" where
  "tokens_router = router [''tokens''] [Auth_gate]
     [(GET, [Fixed ''history''], []), (DELETE, [Fixed ''history''], []), (DELETE, [Fixed ''history'', Hole], []),
      (GET, [Fixed ''sa-tokens''], []), (DELETE, [Fixed ''sa-tokens'', Hole], []),
      (POST, [Fixed ''sa-tokens'', Hole, Fixed ''rotate''], [])]"

definition vault_admin_router :: "endpoint list" where
  "vault_admin_router = router [''admin'', ''vault''] [Instance_gate]
     [(GET, [Fixed ''status''], [Require_admin]), (PUT, [Fixed ''config''], [Require_admin]),
      (DELETE, [Fixed ''config''], [Require_admin])]"

definition permissions_router :: "endpoint list" where
  "permissions_router = router [''permissions''] [Instance_gate]
     [(GET, [Fixed ''scopes''], [Require_admin]), (GET, [Fixed ''users'', Hole], [Require_admin]),
      (PUT, [Fixed ''users'', Hole, Hole], [Require_admin]), (DELETE, [Fixed ''users'', Hole, Hole], [Require_admin])]"

definition access_requests_router :: "endpoint list" where
  "access_requests_router = router [''access-requests''] [Current_user]
     [(GET, [], [Current_user]), (GET, [Fixed ''export''], [Require_admin]), (POST, [], [Current_user]),
      (POST, [Hole, Fixed ''approve''], [Require_approver]), (POST, [Hole, Fixed ''deny''], [Require_approver]),
      (GET, [Fixed ''policies''], [Require_admin]), (PUT, [Fixed ''policies'', Hole, Hole], [Require_admin]),
      (DELETE, [Fixed ''policies'', Hole, Hole], [Require_admin]),
      (POST, [Hole, Fixed ''revoke''], [Require_approver])]"

definition audit_router :: "endpoint list" where
  "audit_router = router [''audit''] [Instance_gate]
     [(GET, [], [Require_admin]), (GET, [Fixed ''export''], [Require_admin])]"

definition endpoints :: "endpoint list" where
  "endpoints = auth_router @ public_cluster_router @ users_router @ rbac_router @ kubeconfig_router @
     cluster_router @ tokens_router @ vault_admin_router @ permissions_router @ access_requests_router @ audit_router"

text \<open>A parameter of a path matches a segment that is not empty. Endpoints are tried in the order they
  are declared in.\<close>

fun segment_matches :: "segment \<Rightarrow> string \<Rightarrow> bool" where
  "segment_matches (Fixed l) s = (s = l)"
| "segment_matches Hole s = (s \<noteq> [])"

definition serves :: "request \<Rightarrow> endpoint \<Rightarrow> bool" where
  "serves r e \<longleftrightarrow> ep_method e = rq_method r \<and>
     list_all2 segment_matches (ep_path e) (tl (js_split ''/'' (rq_path r)))"

definition find_endpoint :: "request \<Rightarrow> endpoint option" where
  "find_endpoint r = find (serves r) endpoints"

datatype admission = Admitted | Refused nat

definition get_current_user :: "(string \<Rightarrow> auth_user option) \<Rightarrow> config \<Rightarrow> auth_user option" where
  "get_current_user decode cfg =
     (case cf_authorization cfg of
        Some h \<Rightarrow> if prefix ''Bearer '' h then decode (drop 7 h) else None
      | None \<Rightarrow> None)"

text \<open>Every guard asks for a user first. Without an endpoint there is nothing to answer with.\<close>

definition admission_of :: "(string \<Rightarrow> auth_user option) \<Rightarrow> config \<Rightarrow> admission" where
  "admission_of decode cfg =
     (case find_endpoint (cf_request cfg) of
        None \<Rightarrow> Refused 404
      | Some e \<Rightarrow>
          if ep_guards e = [] then Admitted
          else case get_current_user decode cfg of
                 None \<Rightarrow> Refused 401
               | Some u \<Rightarrow>
                   if list_all (passes (rq_method (cf_request cfg)) (request_cluster cfg) (map_of (au_roles u)))
                        (ep_guards e)
                   then Admitted else Refused 403)"

section \<open>Lemmas: every call has its endpoint\<close>

text \<open>What a name may be, so that it stays one segment of a URL.\<close>

definition plain_name :: "string \<Rightarrow> bool" where
  "plain_name s \<longleftrightarrow> s \<notin> {[], ''.'', ''..''} \<and>
     list_all (\<lambda>c. c \<notin> set ''/?#%'' \<and> c \<noteq> CHR 0x5C \<and> 32 < (of_char c :: nat) \<and> of_char c < (127 :: nat)) s"

abbreviation plain_call :: "api_call \<Rightarrow> bool" where
  "plain_call c \<equiv> list_all plain_name (path_args c)"

fun call_guards :: "api_call \<Rightarrow> guard list" where
  "call_guards (Users c) = [Auth_gate]"
| "call_guards (Rbac c) = [Auth_gate]"
| "call_guards (Kubeconfig p) = [Auth_gate]"
| "call_guards (Tokens c) = [Auth_gate]"
| "call_guards (ClusterApi (CL_bootstrapScript n)) = [Instance_gate, Require_admin]"
| "call_guards (ClusterApi c) = [Instance_gate]"
| "call_guards (Vault c) = [Instance_gate, Require_admin]"
| "call_guards (Permissions c) = [Instance_gate, Require_admin]"
| "call_guards (Audit c) = [Instance_gate, Require_admin]"
| "call_guards (AdminApi c) = [Require_admin]"
| "call_guards (AccessRequests AR_list) = [Current_user, Current_user]"
| "call_guards (AccessRequests (AR_create p)) = [Current_user, Current_user]"
| "call_guards (AccessRequests (AR_approve i)) = [Current_user, Require_approver]"
| "call_guards (AccessRequests (AR_deny i)) = [Current_user, Require_approver]"
| "call_guards (AccessRequests (AR_revoke i)) = [Current_user, Require_approver]"
| "call_guards (AccessRequests c) = [Current_user, Require_admin]"
| "call_guards MyLink = [Current_user]"
| "call_guards HealthCheck = [Current_user]"

lemma plain_slash_free: "plain_name s \<Longrightarrow> slash_free s"
  by (auto simp: plain_name_def slash_free_def list_all_iff)

lemma plain_not_empty: "plain_name s \<Longrightarrow> s \<noteq> []"
  by (simp add: plain_name_def)

lemma serves_path:
  "\<forall>s\<in>set segs. slash_free s \<Longrightarrow> segs \<noteq> [] \<Longrightarrow> rq_path r = path_of segs \<Longrightarrow>
   serves r e \<longleftrightarrow> ep_method e = rq_method r \<and> list_all2 segment_matches (ep_path e) segs"
  by (simp add: serves_def js_split_path)

lemmas endpoints_defs = endpoints_def router_def auth_router_def public_cluster_router_def users_router_def
  rbac_router_def kubeconfig_router_def cluster_router_def tokens_router_def vault_admin_router_def
  permissions_router_def access_requests_router_def audit_router_def

definition route_path :: "http_method \<Rightarrow> string list \<Rightarrow> endpoint option" where
  "route_path m segs = find (\<lambda>e. ep_method e = m \<and> list_all2 segment_matches (ep_path e) segs) endpoints"

lemma route_req:
  assumes "\<forall>s\<in>set segs. slash_free s" "segs \<noteq> []"
  shows "find_endpoint (req m segs ps b rt) = route_path m segs"
proof -
  have "serves (req m segs ps b rt) =
      (\<lambda>e. ep_method e = m \<and> list_all2 segment_matches (ep_path e) segs)"
    using assms by (simp add: fun_eq_iff serves_path req_def)
  then show ?thesis by (simp add: find_endpoint_def route_path_def)
qed

lemma slash_free_string [simp]: "slash_free []" "slash_free (ch # s) \<longleftrightarrow> ch \<noteq> CHR ''/'' \<and> slash_free s"
  by (auto simp: slash_free_def)

text \<open>Only the routers of its first segment matter to a path.\<close>

definition routers_of :: "string \<Rightarrow> endpoint list" where
  "routers_of s = filter (\<lambda>e. hd (ep_path e) = Fixed s) endpoints"

lemma paths_fixed: "list_all (\<lambda>e. \<exists>l p. ep_path e = Fixed l # p) endpoints"
  by (simp add: endpoints_defs)

lemma find_filter: "(\<And>x. x \<in> set xs \<Longrightarrow> P x \<Longrightarrow> Q x) \<Longrightarrow> find P (filter Q xs) = find P xs"
  by (induction xs) auto

lemma route_path_router:
  "route_path m (s # segs) = find (\<lambda>e. ep_method e = m \<and> list_all2 segment_matches (ep_path e) (s # segs)) (routers_of s)"
  unfolding route_path_def routers_of_def
  by (rule find_filter [symmetric]) (use paths_fixed in \<open>force simp: list_all_iff\<close>)

lemma routers:
  "routers_of ''auth'' = auth_router" "routers_of ''users'' = users_router" "routers_of ''rbac'' = rbac_router"
  "routers_of ''kubeconfig'' = kubeconfig_router" "routers_of ''cluster'' = public_cluster_router @ cluster_router"
  "routers_of ''tokens'' = tokens_router" "routers_of ''admin'' = vault_admin_router"
  "routers_of ''permissions'' = permissions_router" "routers_of ''access-requests'' = access_requests_router"
  "routers_of ''audit'' = audit_router"
  by (simp_all add: routers_of_def endpoints_defs)

lemmas routing = route_req plain_slash_free plain_not_empty route_path_router routers

lemmas router_simps = router_def public_cluster_router_def cluster_router_def

lemma route_call:
  assumes "plain_call c"
  shows "map_option ep_guards (find_endpoint (api_request c)) = Some (call_guards c)"
proof (cases c)
  case (AccessRequests x)
  with assms show ?thesis by (cases x) (simp_all add: routing access_requests_router_def router_simps)
next
  case (AdminApi x)
  with assms show ?thesis by (cases x) (simp_all add: routing auth_router_def router_simps)
next
  case (Audit x)
  with assms show ?thesis by (cases x) (simp_all add: routing audit_router_def router_simps)
next
  case (ClusterApi x)
  with assms show ?thesis by (cases x) (simp_all add: routing router_simps)
next
  case (Permissions x)
  with assms show ?thesis by (cases x) (simp_all add: routing permissions_router_def router_simps)
next
  case (Rbac x)
  with assms show ?thesis by (cases x) (simp_all add: routing rbac_router_def router_simps)
next
  case (Tokens x)
  with assms show ?thesis by (cases x) (simp_all add: routing tokens_router_def router_simps)
next
  case (Users x)
  with assms show ?thesis by (cases x) (simp_all add: routing users_router_def router_simps)
next
  case (Vault x)
  with assms show ?thesis by (cases x) (simp_all add: routing vault_admin_router_def router_simps)
qed (simp_all add: routing router_simps auth_router_def kubeconfig_router_def my_link_request_def kubeconfig_request_def)

text \<open>The rights a call takes, in the terms of the frontend's stores. Open to every user signed in: reading
  the registry and the cluster info, listing one's access requests and making one, one's own link, the
  health check. For an admin of the instance: the rest of the registry, Vault, roles, accounts, the audit
  log, policies and exports. Reviews are for an admin or an approver of the instance. Everything else
  belongs to a cluster: to read takes any role on it, to change takes \<open>can_write\<close>.\<close>

fun entitled :: "auth_store \<Rightarrow> string \<Rightarrow> api_call \<Rightarrow> bool" where
  "entitled a cl (ClusterApi CL_info) = True"
| "entitled a cl (ClusterApi CL_list) = True"
| "entitled a cl (ClusterApi c) = is_instance_admin a"
| "entitled a cl (Vault c) = is_instance_admin a"
| "entitled a cl (Permissions c) = is_instance_admin a"
| "entitled a cl (Audit c) = is_instance_admin a"
| "entitled a cl (AdminApi c) = is_instance_admin a"
| "entitled a cl (AccessRequests AR_list) = True"
| "entitled a cl (AccessRequests (AR_create p)) = True"
| "entitled a cl (AccessRequests (AR_approve i)) = is_privileged (role_for a INSTANCE_SCOPE)"
| "entitled a cl (AccessRequests (AR_deny i)) = is_privileged (role_for a INSTANCE_SCOPE)"
| "entitled a cl (AccessRequests (AR_revoke i)) = is_privileged (role_for a INSTANCE_SCOPE)"
| "entitled a cl (AccessRequests c) = is_instance_admin a"
| "entitled a cl MyLink = True"
| "entitled a cl HealthCheck = True"
| "entitled a cl c =
     (if rq_method (api_request c) = GET then role_for a cl \<noteq> None else can_write a cl)"

text \<open>The session: the token names the user in the store.\<close>

definition token_agrees :: "(string \<Rightarrow> auth_user option) \<Rightarrow> auth_store \<Rightarrow> bool" where
  "token_agrees decode a \<longleftrightarrow>
     (case as_token a of Some t \<Rightarrow> t \<noteq> [] \<and> decode t = as_user a | None \<Rightarrow> as_user a = None)"

definition sent_call :: "auth_store \<Rightarrow> string \<Rightarrow> api_call \<Rightarrow> config" where
  "sent_call a cluster c = request_interceptor cluster (as_token a) (call_config c)"

lemma sent_call_simps [simp]:
  "rq_method (cf_request (sent_call a cl c)) = rq_method (api_request c)"
  "request_cluster (sent_call a cl c) = or_local cl"
  by (simp_all add: sent_call_def interceptor_keeps request_cluster_added no_cluster_param call_config_def)

lemma route_sent: "find_endpoint (cf_request (sent_call a cl c)) = find_endpoint (api_request c)"
proof -
  have "serves (cf_request (sent_call a cl c)) = serves (api_request c)"
    by (simp add: serves_def fun_eq_iff sent_call_def interceptor_keeps call_config_def)
  then show ?thesis by (simp add: find_endpoint_def)
qed

lemma sent_authorization:
  "cf_authorization (sent_call a cl c) =
     (case as_token a of Some t \<Rightarrow> if t = [] then None else Some (bearer t) | None \<Rightarrow> None)"
  by (simp add: sent_call_def request_interceptor_def call_config_def Let_def truthy_def split: option.split)

lemma bearer_read: "prefix ''Bearer '' (bearer t)" "drop 7 (bearer t) = t"
  by (simp_all add: bearer_def)

lemma sent_user:
  assumes "token_agrees decode a"
  shows "get_current_user decode (sent_call a cl c) = as_user a"
  using assms
  by (auto simp: get_current_user_def token_agrees_def sent_authorization bearer_read split: option.splits)

lemma role_for_user: "as_user a = Some u \<Longrightarrow> role_for a = map_of (au_roles u)"
  by (simp add: role_for_def fun_eq_iff)

lemma guards_entitled:
  "list_all (passes (rq_method (api_request c)) cl (role_for a)) (call_guards c) \<longleftrightarrow> entitled a cl c"
proof (cases c)
  case (AccessRequests x)
  then show ?thesis
    by (cases x) (auto simp: require_approver_def require_admin_def is_privileged_def is_instance_admin_def)
next
  case (ClusterApi x)
  then show ?thesis by (cases x) (auto simp: instance_gate_def require_admin_def is_instance_admin_def req_def)
qed (auto simp: instance_gate_def require_admin_def is_instance_admin_def auth_gate_def can_write_iff split: option.splits)

lemma calls_entitled:
  assumes "token_agrees decode a" and "plain_call c"
  shows "admission_of decode (sent_call a cluster c) =
    (if as_user a = None then Refused 401
     else if entitled a (or_local cluster) c then Admitted else Refused 403)"
proof -
  from route_call [OF assms(2)] obtain e where e: "find_endpoint (api_request c) = Some e" "ep_guards e = call_guards c"
    by auto
  have some: "call_guards c \<noteq> []" by (induction c rule: call_guards.induct) simp_all
  show ?thesis
    using guards_entitled [of c "or_local cluster" a]
    by (cases "as_user a")
      (simp_all add: admission_of_def route_sent sent_user [OF assms(1)] e some role_for_user [symmetric])
qed

text \<open>Login, refresh, logout and \<open>me\<close> go out on the client of \<^verbatim>\<open>api/auth.ts\<close>, which adds no token.\<close>

definition auth_config :: "auth_call \<Rightarrow> config" where
  "auth_config c = \<lparr>cf_request = auth_request c, cf_authorization = None, cf_retry = False\<rparr>"

lemma auth_calls_admitted:
  "admission_of decode (auth_config c) = (if c = AA_me then Refused 401 else Admitted)"
  by (cases c) (simp_all add: admission_of_def auth_config_def routing auth_router_def router_simps
      get_current_user_def)

section \<open>Properties\<close>


definition operator_session :: auth_store where
  "operator_session = \<lparr>as_user = Some \<lparr>au_username = ''olga'', au_roles = [(''prod'', Operator)]\<rparr>, as_token = Some ''tok''\<rparr>"

definition read_token :: "string \<Rightarrow> auth_user option" where
  "read_token t = (if t = ''tok'' then as_user operator_session else None)"

lemma operator_agrees: "token_agrees read_token operator_session"
  by (simp add: token_agrees_def read_token_def operator_session_def)

lemma operator_rights:
  "can_write operator_session ''prod''" "\<not> is_instance_admin operator_session"
  "role_for operator_session ''dev'' = None"
  by (simp_all add: store_defs operator_session_def INSTANCE_SCOPE_def)


end
