(* ===== verification/Entitlements.thy ===== *)
theory Entitlements
  imports Endpoints Users Grants Kubeconfig Admin Clusters AccessPanels Wizard
begin

text \<open>
  The pages in front of the gates of the backend (Endpoints.thy): what a page sends for the user of the store is
  let in. A page is put together with its hooks, the API modules and the interceptor, down to the answer
  of the dependencies; the rights it is given are those of the store, as its code reads them.
\<close>

section \<open>The calls of an effect\<close>

definition hook_calls :: "string \<Rightarrow> any_hook \<Rightarrow> api_call list" where
  "hook_calls cluster h = (case hooks cluster h of Mutation m \<Rightarrow> [mh_call m] | Query q \<Rightarrow> [])"

fun users_calls :: "string \<Rightarrow> users_page_effect \<Rightarrow> api_call list" where
  "users_calls cl (UsersCall h) = hook_calls cl (HUsers h)"
| "users_calls cl _ = []"

fun wizard_calls :: "string \<Rightarrow> wizard_effect \<Rightarrow> api_call list" where
  "wizard_calls cl (CreateUser p) = hook_calls cl (HUsers (UseCreateUser p))"
| "wizard_calls cl (CallAssign c) = [c]"
| "wizard_calls cl (GenerateKubeconfig p) = hook_calls cl (HKubeconfig p)"
| "wizard_calls cl _ = []"

fun roles_calls :: "string \<Rightarrow> rbac_page_effect \<Rightarrow> api_call list" where
  "roles_calls cl (Mutate m) = hook_calls cl (HRbac m)"
| "roles_calls cl _ = []"

fun token_calls :: "string \<Rightarrow> tokens_effect \<Rightarrow> api_call list" where
  "token_calls cl (TokenSend h) = hook_calls cl (HTokens h)"
| "token_calls cl _ = []"

fun kube_calls :: "string \<Rightarrow> kube_effect \<Rightarrow> api_call list" where
  "kube_calls cl (Generate p) = hook_calls cl (HKubeconfig p)"
| "kube_calls cl _ = []"

fun add_calls :: "string \<Rightarrow> add_effect \<Rightarrow> api_call list" where
  "add_calls cl (AddSend h) = hook_calls cl (HCluster h)"
| "add_calls cl (FetchScript c) = [ClusterApi c]"
| "add_calls cl _ = []"

fun cluster_calls :: "string \<Rightarrow> clusters_effect \<Rightarrow> api_call list" where
  "cluster_calls cl (ClusterSend h) = hook_calls cl (HCluster h)"
| "cluster_calls cl (FromModal f) = add_calls cl f"
| "cluster_calls cl (ActivateCluster n) = []"

fun review_calls :: "string \<Rightarrow> review_page_effect \<Rightarrow> api_call list" where
  "review_calls cl (MutateRequests h) = hook_calls cl (HAccessRequests h)"
| "review_calls cl RefetchRequests = []"

fun dashboard_calls :: "string \<Rightarrow> dashboard_effect \<Rightarrow> api_call list" where
  "dashboard_calls cl (MutateRequest h) = hook_calls cl (HAccessRequests h)"
| "dashboard_calls cl (FollowTo p) = []"

fun policy_calls :: "string \<Rightarrow> policy_modal_effect \<Rightarrow> api_call list" where
  "policy_calls cl (MutatePolicy h) = hook_calls cl (HAccessRequests h)"
| "policy_calls cl ClosePolicies = []"

fun request_calls :: "string \<Rightarrow> request_form_effect \<Rightarrow> api_call list" where
  "request_calls cl (CreateRequest h) = hook_calls cl (HAccessRequests h)"
| "request_calls cl CloseForm = []"

fun admin_calls :: "string \<Rightarrow> admin_effect \<Rightarrow> api_call list" where
  "admin_calls cl (AdminSend c) = [AdminApi c]"
| "admin_calls cl (LinkSend h) = hook_calls cl (HLink h)"
| "admin_calls cl (RoleSend h) = hook_calls cl (HPermissions h)"
| "admin_calls cl (VaultSend c) = [Vault c]"
| "admin_calls cl (RefreshKey k) = []"

fun audit_calls :: "string \<Rightarrow> audit_effect \<Rightarrow> api_call list" where
  "audit_calls cl (ExportAudit q) = hook_calls cl (HAudit (UseExportAuditLog q))"
| "audit_calls cl InvalidateAudit = []"

section \<open>The interface of a page and the gates\<close>

text \<open>Whatever a page may send, the user is entitled to.\<close>

locale entitled_page = ui_contract view env handle inv ok
  for view :: "'s \<Rightarrow> 'e control list" and env :: "'s \<Rightarrow> 'e \<Rightarrow> bool"
    and handle :: "'s \<Rightarrow> 'e \<Rightarrow> 's \<times> 'f list" and inv :: "'s \<Rightarrow> bool" and ok :: "'s \<Rightarrow> 'f \<Rightarrow> bool" +
  fixes calls :: "'f \<Rightarrow> api_call list" and user :: auth_store and cluster :: string
  assumes entitles: "ok s f \<Longrightarrow> c \<in> set (calls f) \<Longrightarrow> entitled user cluster c"

definition let_in :: "(string \<Rightarrow> auth_user option) \<Rightarrow> auth_store \<Rightarrow> string \<Rightarrow> ('f \<Rightarrow> api_call list) \<Rightarrow> ('s \<times> 'f) list \<Rightarrow> bool" where
  "let_in decode a cl calls log \<longleftrightarrow>
     (\<forall>(s, f)\<in>set log. \<forall>c\<in>set (calls f). plain_call c \<longrightarrow> admission_of decode (sent_call a cl c) = Admitted)"

definition signed_in :: "(string \<Rightarrow> auth_user option) \<Rightarrow> auth_store \<Rightarrow> bool" where
  "signed_in decode a \<longleftrightarrow> token_agrees decode a \<and> as_user a \<noteq> None"

lemma let_in_entitled:
  assumes "signed_in decode a" "cl \<noteq> []"
    and "\<And>s f c. (s, f) \<in> set log \<Longrightarrow> c \<in> set (calls f) \<Longrightarrow> entitled a cl c"
  shows "let_in decode a cl calls log"
  unfolding let_in_def
proof (intro ballI, clarify)
  fix s f c
  assume f: "(s, f) \<in> set log" "c \<in> set (calls f)" and plain: "plain_call c"
  with calls_entitled [OF _ plain, of decode a cl] assms(1,2) assms(3) [OF f]
  show "admission_of decode (sent_call a cl c) = Admitted" by (simp add: signed_in_def or_local_def truthy_def)
qed

context entitled_page
begin

lemma run_let_in:
  assumes "ui_run view env handle s0 log s" "signed_in decode user" "cluster \<noteq> []" "inv s0"
  shows "let_in decode user cluster calls log"
  using run_ok [OF assms(1,4)] by (intro let_in_entitled assms(2,3)) (blast intro: entitles)

end

section \<open>Lemmas: mutations and rights\<close>

lemma hook_calls_simps [simp]:
  "hooks cl h = mutation c fs \<Longrightarrow> hook_calls cl h = [c]"
  "hooks cl h = query k c en st opts \<Longrightarrow> hook_calls cl h = []"
  by (simp_all add: hook_calls_def mutation_def query_def)

lemma cluster_mutations:
  "can_write a cl \<Longrightarrow> c \<in> set (hook_calls cl (HUsers h1)) \<Longrightarrow> entitled a cl c"
  "can_write a cl \<Longrightarrow> c \<in> set (hook_calls cl (HRbac h2)) \<Longrightarrow> entitled a cl c"
  "can_write a cl \<Longrightarrow> c \<in> set (hook_calls cl (HTokens h3)) \<Longrightarrow> entitled a cl c"
  "can_write a cl \<Longrightarrow> c \<in> set (hook_calls cl (HKubeconfig p)) \<Longrightarrow> entitled a cl c"
proof -
  assume w: "can_write a cl"
  show "entitled a cl c" if "c \<in> set (hook_calls cl (HUsers h1))"
    using that w by (cases h1) (simp_all add: req_def)
  show "entitled a cl c" if "c \<in> set (hook_calls cl (HRbac h2))"
    using that w by (cases h2) (simp_all add: req_def hook_calls_def mutation_def)
  show "entitled a cl c" if "c \<in> set (hook_calls cl (HTokens h3))"
    using that w by (cases h3) (simp_all add: req_def)
  show "entitled a cl c" if "c \<in> set (hook_calls cl (HKubeconfig p))"
    using that w by (simp add: generate_kubeconfig_hook_def kubeconfig_request_def req_def)
qed

lemma instance_mutations:
  "is_instance_admin a \<Longrightarrow> c \<in> set (hook_calls cl (HCluster h1)) \<Longrightarrow> entitled a cl c"
  "is_instance_admin a \<Longrightarrow> c \<in> set (hook_calls cl (HLink h2)) \<Longrightarrow> entitled a cl c"
  "is_instance_admin a \<Longrightarrow> c \<in> set (hook_calls cl (HPermissions h3)) \<Longrightarrow> entitled a cl c"
  "is_instance_admin a \<Longrightarrow> c \<in> set (hook_calls cl (HAudit h4)) \<Longrightarrow> entitled a cl c"
  "is_instance_admin a \<Longrightarrow> c \<in> set (hook_calls cl (HAccessRequests h5)) \<Longrightarrow> entitled a cl c"
proof -
  assume w: "is_instance_admin a"
  then have p: "is_privileged (role_for a INSTANCE_SCOPE)" by (simp add: is_instance_admin_def is_privileged_def)
  show "entitled a cl c" if "c \<in> set (hook_calls cl (HCluster h1))" using that w by (cases h1) simp_all
  show "entitled a cl c" if "c \<in> set (hook_calls cl (HLink h2))" using that w by (cases h2) simp_all
  show "entitled a cl c" if "c \<in> set (hook_calls cl (HPermissions h3))" using that w by (cases h3) simp_all
  show "entitled a cl c" if "c \<in> set (hook_calls cl (HAudit h4))" using that w by (cases h4) simp_all
  show "entitled a cl c" if "c \<in> set (hook_calls cl (HAccessRequests h5))" using that w p by (cases h5) simp_all
qed

lemma review_mutations:
  "role = role_for a INSTANCE_SCOPE \<Longrightarrow> review_page_ok role username s f \<Longrightarrow> c \<in> set (review_calls cl f) \<Longrightarrow>
   entitled a cl c"
proof -
  assume r: "role = role_for a INSTANCE_SCOPE" and ok: "review_page_ok role username s f"
    and c: "c \<in> set (review_calls cl f)"
  then obtain h where f: "f = MutateRequests h" by (cases f) simp_all
  from r ok c show ?thesis unfolding f by (cases h) (auto simp: is_instance_admin_def)
qed

lemma dashboard_mutations:
  "role = role_for a INSTANCE_SCOPE \<Longrightarrow> dashboard_ok role username w link s f \<Longrightarrow> c \<in> set (dashboard_calls cl f) \<Longrightarrow>
   entitled a cl c"
proof -
  assume r: "role = role_for a INSTANCE_SCOPE" and ok: "dashboard_ok role username w link s f"
    and c: "c \<in> set (dashboard_calls cl f)"
  then obtain h where f: "f = MutateRequest h" by (cases f) simp_all
  from r ok c show ?thesis unfolding f by (cases h) auto
qed

section \<open>The pages\<close>

interpretation users_in: entitled_page "users_page_view collate time_of (can_write a cl) d" users_page_env
  users_page_handle "users_page_inv (can_write a cl) d" "users_page_ok (can_write a cl) d" "users_calls cl" a cl
  for collate time_of d a cl
proof
  fix s f c
  assume ok: "users_page_ok (can_write a cl) d s f" and c: "c \<in> set (users_calls cl f)"
  then obtain h where f: "f = UsersCall h" by (cases f) simp_all
  with ok have "can_write a cl" by (cases h) simp_all
  from cluster_mutations(1) [OF this] c show "entitled a cl c" by (simp add: f)
qed

interpretation panel_in: entitled_page "perms_panel_view (p\<lparr>pp_can_write := can_write a cl\<rparr>) g" perms_panel_env
  "perms_panel_handle (p\<lparr>pp_can_write := can_write a cl\<rparr>)" "perms_panel_inv (p\<lparr>pp_can_write := can_write a cl\<rparr>) g"
  "perms_panel_ok (p\<lparr>pp_can_write := can_write a cl\<rparr>) g" "\<lambda>m. hook_calls cl (HRbac m)" a cl
  for p g a cl
proof
  fix s m c
  assume ok: "perms_panel_ok (p\<lparr>pp_can_write := can_write a cl\<rparr>) g s m" and c: "c \<in> set (hook_calls cl (HRbac m))"
  from ok have "can_write a cl" by (cases m) auto
  from cluster_mutations(2) [OF this c] show "entitled a cl c" .
qed

interpretation roles_in: entitled_page "rbac_page_view (can_write a cl) r" "rbac_page_env r" rbac_page_handle
  "page_inv (can_write a cl)" "page_ok (can_write a cl)" "roles_calls cl" a cl
  for r a cl
proof
  fix s f c
  assume ok: "page_ok (can_write a cl) s f" and c: "c \<in> set (roles_calls cl f)"
  then obtain m where f: "f = Mutate m" by (cases f) simp_all
  with ok have "can_write a cl" by simp
  from cluster_mutations(2) [OF this] c show "entitled a cl c" by (simp add: f)
qed

interpretation tokens_in: entitled_page "tokens_view (can_write a cl)" tokens_env tokens_handle
  "tokens_inv (can_write a cl)" "tokens_ok (can_write a cl)" "token_calls cl" a cl
  for a cl
proof
  fix s f c
  assume ok: "tokens_ok (can_write a cl) s f" and c: "c \<in> set (token_calls cl f)"
  then obtain h where f: "f = TokenSend h" by (cases f) simp_all
  with ok have "can_write a cl" by simp
  from cluster_mutations(3) [OF this] c show "entitled a cl c" by (simp add: f)
qed

interpretation kube_in: entitled_page "kube_view (can_write a cl) nss" kube_env "kube_handle (can_write a cl) pn pns"
  "\<lambda>s. kube_inv (can_write a cl) s \<and> at_rest s" "kube_ok (can_write a cl)" "kube_calls cl" a cl
  for nss pn pns a cl
proof
  fix s f c
  assume ok: "kube_ok (can_write a cl) s f" and c: "c \<in> set (kube_calls cl f)"
  then obtain p where f: "f = Generate p" by (cases f) simp_all
  with ok have "can_write a cl" by (simp add: kube_ok_def payload_of_def)
  from cluster_mutations(4) [OF this] c show "entitled a cl c" by (simp add: f)
qed

interpretation simulator_in: entitled_page "simulator_view (can_write a cl) nss" simulator_env simulator_handle
  simulator_inv "simulator_ok (can_write a cl)" "\<lambda>m. hook_calls cl (HRbac m)" a cl
  for nss a cl
proof
  fix s m c
  assume ok: "simulator_ok (can_write a cl) s m" and c: "c \<in> set (hook_calls cl (HRbac m))"
  from ok have "can_write a cl" by (simp add: simulator_ok_def)
  from cluster_mutations(2) [OF this c] show "entitled a cl c" .
qed

interpretation clusters_in: entitled_page "clusters_view (is_instance_admin a)" clusters_env clusters_handle
  "clusters_inv (is_instance_admin a)" "clusters_ok (is_instance_admin a)" "cluster_calls cl" a cl
  for a cl
proof
  fix s f c
  assume ok: "clusters_ok (is_instance_admin a) s f" and c: "c \<in> set (cluster_calls cl f)"
  from ok c have admin: "is_instance_admin a" by (cases f) auto
  show "entitled a cl c"
  proof (cases f)
    case (FromModal g)
    with c instance_mutations(1) [OF admin] ok admin show ?thesis by (cases g) auto
  qed (use c instance_mutations(1) [OF admin] in auto)
qed

interpretation review_in: entitled_page "review_page_view (role_for a INSTANCE_SCOPE) username" review_page_env
  review_page_handle "review_page_inv (role_for a INSTANCE_SCOPE) username"
  "review_page_ok (role_for a INSTANCE_SCOPE) username" "review_calls cl" a cl
  for username a cl
  by unfold_locales (rule review_mutations [OF refl])

interpretation dashboard_in: entitled_page "dashboard_view (role_for a INSTANCE_SCOPE) username w link" dashboard_env
  dashboard_handle "dashboard_inv (role_for a INSTANCE_SCOPE) username"
  "dashboard_ok (role_for a INSTANCE_SCOPE) username w link" "dashboard_calls cl" a cl
  for username w link a cl
  by unfold_locales (rule dashboard_mutations [OF refl])

interpretation form_in: entitled_page "request_form_view d" request_form_env "request_form_handle d"
  "request_form_inv d" "request_form_ok d" "request_calls cl" a cl
  for d a cl
proof
  fix s f c
  assume ok: "request_form_ok d s f" and c: "c \<in> set (request_calls cl f)"
  then show "entitled a cl c" by (cases f) auto
qed

section \<open>What is not let in does not arrive\<close>

text \<open>The kubeconfig panel asks for the status of Vault (\<^verbatim>\<open>KubeconfigPanel.tsx\<close>); that Vault can be used is only
  heard of in an answer.\<close>

definition kube_env_gated ::
  "(string \<Rightarrow> auth_user option) \<Rightarrow> auth_store \<Rightarrow> string \<Rightarrow> kube_panel \<Rightarrow> kube_event \<Rightarrow> bool"
where
  "kube_env_gated decode a cl s e \<longleftrightarrow> kube_env s e \<and>
     (e = KP_vault True \<longrightarrow> admission_of decode (sent_call a cl (Vault VA_status)) = Admitted)"

text \<open>The request form fills its selects from four queries, and a select stays empty without an answer
  (\<^verbatim>\<open>RequestAccessModal.tsx\<close>).\<close>

definition listed_or_empty :: "(string \<Rightarrow> auth_user option) \<Rightarrow> auth_store \<Rightarrow> string \<Rightarrow> api_call \<Rightarrow> 'x list \<Rightarrow> 'x list" where
  "listed_or_empty decode a cl c xs = (if admission_of decode (sent_call a cl c) = Admitted then xs else [])"

definition form_data :: "(string \<Rightarrow> auth_user option) \<Rightarrow> auth_store \<Rightarrow> string \<Rightarrow> grant_data \<Rightarrow> grant_data" where
  "form_data decode a cl d =
     \<lparr>gd_users = listed_or_empty decode a cl (Users users_call.US_list) (gd_users d),
      gd_namespaces = listed_or_empty decode a cl (Rbac RB_listNamespaces) (gd_namespaces d),
      gd_cluster_roles = listed_or_empty decode a cl (Rbac (RB_listClusterRoles False 500 None)) (gd_cluster_roles d),
      gd_roles = (\<lambda>ns. listed_or_empty decode a cl (Rbac (RB_listRoles ns 500 None)) (gd_roles d ns))\<rparr>"

lemma status_refused:
  assumes "signed_in decode a" "\<not> is_instance_admin a"
  shows "admission_of decode (sent_call a cl (Vault c)) = Refused 403"
  using calls_entitled [of decode a "Vault c" cl] assms by (simp add: signed_in_def)

lemma kube_update_vault: "kp_vault (fst (kube_update w s e)) = (case e of KP_vault b \<Rightarrow> b | _ \<Rightarrow> kp_vault s)"
  by (cases e) (simp_all add: handleGenerate_def split: option.split generation.split)

lemma run_effects_vault: "kp_vault (run_effects w pn pns t) = kp_vault t"
proof (induction w pn pns t rule: run_effects.induct)
  case (1 w pn pns t)
  then show ?case by (subst run_effects.simps) simp
qed

lemma kube_handle_vault:
  "kp_vault (fst (kube_handle w pn pns s e)) = (case e of KP_vault b \<Rightarrow> b | _ \<Rightarrow> kp_vault s)"
  by (simp add: kube_handle_def kube_update_vault run_effects_vault)

lemma ui_run_env:
  assumes "ui_run view env handle s0 log s" "\<And>s e. env s e \<Longrightarrow> env' s e"
  shows "ui_run view env' handle s0 log s"
  using assms by (induction rule: ui_run.induct) (blast intro: ui_run.intros)+

interpretation no_vault: ui_contract "kube_view w nss" "\<lambda>s e. kube_env s e \<and> e \<noteq> KP_vault True" "kube_handle w pn pns"
  "\<lambda>s. (kube_inv w s \<and> at_rest s) \<and> \<not> kp_vault s" "\<lambda>s f. kube_ok w s f \<and> \<not> kp_vault s"
  for w nss pn pns
proof
  fix s e f
  assume inv: "(kube_inv w s \<and> at_rest s) \<and> \<not> kp_vault s"
    and e: "fires (kube_view w nss s) e \<or> kube_env s e \<and> e \<noteq> KP_vault True"
  then have step: "kube_inv w s \<and> at_rest s" "fires (kube_view w nss s) e \<or> kube_env s e" by auto
  have "e \<noteq> KP_vault True" using e by (auto simp: kube_view_def split: if_splits)
  with inv have "\<not> kp_vault (fst (kube_handle w pn pns s e))"
    by (auto simp: kube_handle_vault split: kube_event.split)
  with kube.inv_event [OF step] show "(kube_inv w (fst (kube_handle w pn pns s e)) \<and>
      at_rest (fst (kube_handle w pn pns s e))) \<and> \<not> kp_vault (fst (kube_handle w pn pns s e))" by blast
  assume "f \<in> set (snd (kube_handle w pn pns s e))"
  with kube.ok_event [OF step] inv show "kube_ok w s f \<and> \<not> kp_vault s" by blast
qed

lemma kube_init_no_vault: "\<not> kp_vault (kube_panel_init w pn pns)"
  by (simp add: kube_panel_init_def kube_panel_mount_def run_effects_vault)

section \<open>Properties\<close>

lemma page_starts:
  "users_page_inv w d users_page_init" "page_inv w rbac_page_init" "tokens_inv w tokens_page_init"
  "simulator_inv simulator_init" "perms_panel_inv p g perms_panel_init"
  "clusters_inv w clusters_page_init" "review_page_inv role username review_page_init"
  "dashboard_inv role username dashboard_init" "request_form_inv gd request_form_init"
proof -
  show "users_page_inv w d users_page_init" by (simp add: users_page_inv_def users_page_init_def)
  show "page_inv w rbac_page_init" by (simp add: page_inv_def rbac_page_init_def closed_modal_def)
  show "tokens_inv w tokens_page_init" by (simp add: tokens_inv_def tokens_page_init_def)
  show "simulator_inv simulator_init"
    by (simp add: simulator_inv_def simulator_init_def COMMON_VERBS_def COMMON_RESOURCES_def)
  show "perms_panel_inv p g perms_panel_init" by (simp add: perms_panel_inv_def perms_panel_init_def)
  show "clusters_inv w clusters_page_init" by (simp add: clusters_inv_def clusters_page_init_def)
  show "review_page_inv role username review_page_init" by (simp add: review_page_inv_def review_page_init_def)
  show "dashboard_inv role username dashboard_init" by (simp add: dashboard_inv_def dashboard_init_def)
  show "request_form_inv gd request_form_init" by (simp add: request_form_inv_def request_form_init_def TTL_PRESETS_def)
qed

text \<open>C4. What the pages of a cluster send is let in by the backend: for a signed-in user whose token agrees with
  the store, every mutation of any run of the users page (and of the wizard it opens), the permissions panel,
  the roles page, the tokens page, the kubeconfig panel and the simulator, with the rights the store gives on
  the active cluster, passes the gates of its endpoint (where names stay one segment of a URL).\<close>

theorem cluster_pages_admitted:
  assumes a: "signed_in decode a" and cl: "cl \<noteq> []" and w: "w = can_write a cl"
  shows "(ui_run (users_page_view collate time_of w d) users_page_env users_page_handle users_page_init l1 t1 \<longrightarrow>
      let_in decode a cl (users_calls cl) l1 \<and>
      (us_create_open t1 \<longrightarrow> ui_run (wizard_view ns) wizard_env (wizard_handle eager) wizard_init l2 t2 \<longrightarrow>
        let_in decode a cl (wizard_calls cl) l2)) \<and>
    (ui_run (perms_panel_view (p\<lparr>pp_can_write := w\<rparr>) g) perms_panel_env (perms_panel_handle (p\<lparr>pp_can_write := w\<rparr>))
       perms_panel_init l3 t3 \<longrightarrow> let_in decode a cl (\<lambda>m. hook_calls cl (HRbac m)) l3) \<and>
    (ui_run (rbac_page_view w r) (rbac_page_env r) rbac_page_handle rbac_page_init l4 t4 \<longrightarrow>
      let_in decode a cl (roles_calls cl) l4) \<and>
    (ui_run (tokens_view w) tokens_env tokens_handle tokens_page_init l5 t5 \<longrightarrow>
      let_in decode a cl (token_calls cl) l5) \<and>
    (ui_run (kube_view w ns) kube_env (kube_handle w pn pns) (kube_panel_init w pn pns) l6 t6 \<longrightarrow>
      let_in decode a cl (kube_calls cl) l6) \<and>
    (ui_run (simulator_view w ns) simulator_env simulator_handle simulator_init l7 t7 \<longrightarrow>
      let_in decode a cl (\<lambda>m. hook_calls cl (HRbac m)) l7)"
  unfolding w
proof (intro conjI impI)
  show "let_in decode a cl (users_calls cl) l1"
    if "ui_run (users_page_view collate time_of (can_write a cl) d) users_page_env users_page_handle users_page_init l1 t1"
    using that by (rule users_in.run_let_in [OF _ a cl page_starts(1)])
  show "let_in decode a cl (wizard_calls cl) l2"
    if "ui_run (users_page_view collate time_of (can_write a cl) d) users_page_env users_page_handle users_page_init l1 t1"
      and "us_create_open t1"
      and z: "ui_run (wizard_view ns) wizard_env (wizard_handle eager) wizard_init l2 t2"
  proof (rule let_in_entitled [OF a cl])
    have w: "can_write a cl"
      using users_page.run_inv [OF that(1) page_starts(1)] that(2) by (simp add: users_page_inv_def)
    show "entitled a cl c" if "(s, f) \<in> set l2" "c \<in> set (wizard_calls cl f)" for s f c
    proof (cases f)
      case (CallAssign x)
      with wizard.run_ok [OF z wizard_inv_init that(1)] have "grant_ok eager ns s x" by simp
      with that(2) CallAssign w show ?thesis
        by (cases "(eager, ns, s, x)" rule: grant_ok.cases) (auto simp: req_def)
    next
      case (CreateUser x)
      with that(2) cluster_mutations(1) [OF w] show ?thesis by (simp only: wizard_calls.simps)
    next
      case (GenerateKubeconfig x)
      with that(2) cluster_mutations(4) [OF w] show ?thesis by (simp only: wizard_calls.simps)
    qed (use that(2) in simp_all)
  qed
  show "let_in decode a cl (\<lambda>m. hook_calls cl (HRbac m)) l3"
    if "ui_run (perms_panel_view (p\<lparr>pp_can_write := can_write a cl\<rparr>) g) perms_panel_env
      (perms_panel_handle (p\<lparr>pp_can_write := can_write a cl\<rparr>)) perms_panel_init l3 t3"
    using that by (rule panel_in.run_let_in [OF _ a cl page_starts(5)])
  show "let_in decode a cl (roles_calls cl) l4"
    if "ui_run (rbac_page_view (can_write a cl) r) (rbac_page_env r) rbac_page_handle rbac_page_init l4 t4"
    using that by (rule roles_in.run_let_in [OF _ a cl page_starts(2)])
  show "let_in decode a cl (token_calls cl) l5"
    if "ui_run (tokens_view (can_write a cl)) tokens_env tokens_handle tokens_page_init l5 t5"
    using that by (rule tokens_in.run_let_in [OF _ a cl page_starts(3)])
  show "let_in decode a cl (kube_calls cl) l6"
    if "ui_run (kube_view (can_write a cl) ns) kube_env (kube_handle (can_write a cl) pn pns)
      (kube_panel_init (can_write a cl) pn pns) l6 t6"
    using that by (rule kube_in.run_let_in [OF _ a cl kube_panel_init_inv])
  show "let_in decode a cl (\<lambda>m. hook_calls cl (HRbac m)) l7"
    if "ui_run (simulator_view (can_write a cl) ns) simulator_env simulator_handle simulator_init l7 t7"
    using that by (rule simulator_in.run_let_in [OF _ a cl page_starts(4)])
qed

lemma operator_signed_in: "signed_in read_token operator_session"
  using operator_agrees by (simp add: signed_in_def operator_session_def)

theorem cluster_pages_admitted_witness:
  "let_in read_token operator_session ''prod'' (token_calls ''prod'') (play_log tokens_handle tokens_page_init rotate_run) \<and>
   TokenSend (UseRotateSaToken ''ci-token'' ''ci'' ''dev'') \<in> snd ` set (play_log tokens_handle tokens_page_init rotate_run)"
proof -
  have w: "True = can_write operator_session ''prod''" using operator_rights by simp
  from cluster_pages_admitted [OF operator_signed_in _ w, THEN conjunct2, THEN conjunct2, THEN conjunct2, THEN conjunct1,
      THEN mp, OF _ ui_run_play [OF rotate_run_playable]]
  show ?thesis by (simp add: rotate_run_def tokens_page_init_def ci_token_def)
qed

text \<open>C17. What the pages of the instance send is let in as well: every mutation of any run of the clusters page, the
  review page with its policies, the dashboard and the request form, and of the settings and the audit log
  where the routes of the application show them.\<close>

theorem instance_pages_admitted:
  assumes a: "signed_in decode a" and cl: "cl \<noteq> []" and role: "role = role_for a INSTANCE_SCOPE"
  shows "(ui_run (clusters_view (is_instance_admin a)) clusters_env clusters_handle clusters_page_init l1 t1 \<longrightarrow>
      let_in decode a cl (cluster_calls cl) l1) \<and>
    (ui_run (review_page_view role username) review_page_env review_page_handle review_page_init l2 t2 \<longrightarrow>
      let_in decode a cl (review_calls cl) l2 \<and>
      (vp_policies_open t2 \<longrightarrow>
        ui_run (policy_modal_view policies) policy_modal_env policy_modal_handle policy_modal_init l3 t3 \<longrightarrow>
        let_in decode a cl (policy_calls cl) l3)) \<and>
    (ui_run (dashboard_view role username w link) dashboard_env dashboard_handle dashboard_init l4 t4 \<longrightarrow>
      let_in decode a cl (dashboard_calls cl) l4) \<and>
    (ui_run (request_form_view gd) request_form_env (request_form_handle gd) request_form_init l5 t5 \<longrightarrow>
      let_in decode a cl (request_calls cl) l5) \<and>
    (app ch a h R_settings = Page R_settings \<longrightarrow>
      ui_run (admin_view self) admin_env admin_handle admin_page_init l6 t6 \<longrightarrow> let_in decode a cl (admin_calls cl) l6) \<and>
    (app ch a h R_audit_log = Page R_audit_log \<longrightarrow>
      ui_run (audit_view isLoading exporting items tot) (\<lambda>s e. True) audit_handle audit_page_init l7 t7 \<longrightarrow>
      let_in decode a cl (audit_calls cl) l7)"
  unfolding role
proof (intro conjI impI)
  show "let_in decode a cl (cluster_calls cl) l1"
    if "ui_run (clusters_view (is_instance_admin a)) clusters_env clusters_handle clusters_page_init l1 t1"
    using that by (rule clusters_in.run_let_in [OF _ a cl page_starts(6)])
  let ?role = "role_for a INSTANCE_SCOPE"
  show "let_in decode a cl (review_calls cl) l2"
    if "ui_run (review_page_view ?role username) review_page_env review_page_handle review_page_init l2 t2"
    using that by (rule review_in.run_let_in [OF _ a cl page_starts(7)])
  show "let_in decode a cl (policy_calls cl) l3"
    if "ui_run (review_page_view ?role username) review_page_env review_page_handle review_page_init l2 t2"
      and "vp_policies_open t2"
  proof (rule let_in_entitled [OF a cl])
    have admin: "is_instance_admin a"
      using review_page.run_inv [OF that(1) page_starts(7)] that(2) by (simp add: review_page_inv_def is_instance_admin_def)
    show "entitled a cl c" if "(s, f) \<in> set l3" "c \<in> set (policy_calls cl f)" for s f c
      using that(2) instance_mutations(5) [OF admin] by (cases f) auto
  qed
  show "let_in decode a cl (dashboard_calls cl) l4"
    if "ui_run (dashboard_view ?role username w link) dashboard_env dashboard_handle dashboard_init l4 t4"
    using that by (rule dashboard_in.run_let_in [OF _ a cl page_starts(8)])
  show "let_in decode a cl (request_calls cl) l5"
    if "ui_run (request_form_view gd) request_form_env (request_form_handle gd) request_form_init l5 t5"
    using that by (rule form_in.run_let_in [OF _ a cl page_starts(9)])
  show "let_in decode a cl (admin_calls cl) l6" if "app ch a h R_settings = Page R_settings"
  proof (rule let_in_entitled [OF a cl])
    have admin: "is_instance_admin a" using app_inside [OF that] by simp
    show "entitled a cl c" if "(s, f) \<in> set l6" "c \<in> set (admin_calls cl f)" for s f c
      using that(2) instance_mutations(2,3) [OF admin] admin by (cases f) auto
  qed
  show "let_in decode a cl (audit_calls cl) l7" if "app ch a h R_audit_log = Page R_audit_log"
  proof (rule let_in_entitled [OF a cl])
    have admin: "is_instance_admin a" using app_inside [OF that] by simp
    show "entitled a cl c" if "(s, f) \<in> set l7" "c \<in> set (audit_calls cl f)" for s f c
      using that(2) instance_mutations(4) [OF admin] by (cases f) (simp_all only: audit_calls.simps, simp)
  qed
qed

definition approver_session :: auth_store where
  "approver_session = \<lparr>as_user = Some \<lparr>au_username = ''ann'', au_roles = [(INSTANCE_SCOPE, Approver)]\<rparr>, as_token = Some ''t2''\<rparr>"

definition deny_run :: "review_page_event list" where
  "deny_run = [VP_loaded (Some [demo_request]), VP_deny demo_request]"

lemma deny_run_playable:
  "playable (review_page_view (Some Approver) username) review_page_env review_page_handle review_page_init deny_run"
  by (simp add: deny_run_def review_page_view_def review_page_init_def request_row_view_def is_privileged_def demo_request_def)

theorem instance_pages_admitted_witness:
  "let_in (\<lambda>t. as_user approver_session) approver_session ''prod'' (review_calls ''prod'')
     (play_log review_page_handle review_page_init deny_run) \<and>
   MutateRequests (UseDenyAccessRequest ''r1'') \<in> snd ` set (play_log review_page_handle review_page_init deny_run)"
proof -
  have a: "signed_in (\<lambda>t. as_user approver_session) approver_session"
    by (simp add: signed_in_def token_agrees_def approver_session_def)
  have role: "Some Approver = role_for approver_session INSTANCE_SCOPE"
    by (simp add: role_for_def approver_session_def)
  from instance_pages_admitted [OF a _ role, THEN conjunct2, THEN conjunct1, THEN mp, OF _ ui_run_play [OF deny_run_playable],
      THEN conjunct1]
  show ?thesis by (simp add: deny_run_def review_page_init_def demo_request_def)
qed

text \<open>C32. Vault is out of reach for operators: the status of Vault is answered to admins of the instance only, so
  in every run of the kubeconfig panel of anybody else, on a cluster where they may write or not, each generation
  for a certificate user that is sent carries a private key that is not blank. Nothing is said of what the backend
  could have read from Vault itself.\<close>

theorem vault_unknown_to_operators:
  assumes a: "signed_in decode a" and admin: "\<not> is_instance_admin a"
    and run: "ui_run (kube_view (can_write a cl) nss) (kube_env_gated decode a cl) (kube_handle (can_write a cl) pn pns)
      (kube_panel_init (can_write a cl) pn pns) log s"
    and p: "(s', Generate p) \<in> set log" "k_user_type p = Certificate"
  shows "\<exists>k. k_private_key_pem p = Some k \<and> js_trim k \<noteq> []"
proof -
  have "ui_run (kube_view (can_write a cl) nss) (\<lambda>s e. kube_env s e \<and> e \<noteq> KP_vault True)
      (kube_handle (can_write a cl) pn pns) (kube_panel_init (can_write a cl) pn pns) log s"
    using run by (rule ui_run_env) (auto simp: kube_env_gated_def status_refused [OF a admin])
  from no_vault.run_ok [OF this _ p(1)] have "kube_ok (can_write a cl) s' (Generate p) \<and> \<not> kp_vault s'"
    using kube_panel_init_inv kube_init_no_vault by blast
  with p(2) show ?thesis by (auto simp: kube_ok_def payload_of_def generate_payload_def split: if_splits)
qed

definition cert_run :: "kube_event list" where
  "cert_run = [KP_users (Some kube_users), KP_select ''dev/ann'', KP_private_key ''ann-key'', KP_generate]"

lemma key_typed: "js_trim ''ann-key'' \<noteq> []"
proof -
  have "plain_char (CHR ''a'') \<and> plain_char (CHR ''y'')" by (simp add: plain_char_def ws_seqs_def)
  then have "js_trim ''ann-key'' = ''ann-key''" by (intro js_trim_plain) simp_all
  then show ?thesis by simp
qed

lemma cert_run_playable:
  "playable (kube_view True [''dev'']) (kube_env_gated decode a cl) (kube_handle True None None)
     (kube_panel_init True None None) cert_run"
  by (simp add: cert_run_def kube_env_gated_def kube_eval run_effects.simps kube_view_def no_slash_def is_pending_def
      key_typed)

theorem vault_unknown_to_operators_witness:
  "\<exists>s p. (s, Generate p) \<in> set (play_log (kube_handle True None None) (kube_panel_init True None None) cert_run) \<and>
     (\<exists>k. k_private_key_pem p = Some k \<and> js_trim k \<noteq> [])"
proof -
  let ?log = "play_log (kube_handle True None None) (kube_panel_init True None None) cert_run"
  have "\<exists>p. Generate p \<in> snd ` set ?log \<and> k_user_type p = Certificate"
    by (simp add: cert_run_def kube_eval run_effects.simps handleGenerate_def key_typed)
  then obtain p s where p: "(s, Generate p) \<in> set ?log" "k_user_type p = Certificate" by force
  have w: "can_write operator_session ''prod'' = True" using operator_rights by simp
  have run: "ui_run (kube_view (can_write operator_session ''prod'') [''dev''])
      (kube_env_gated read_token operator_session ''prod'') (kube_handle (can_write operator_session ''prod'') None None)
      (kube_panel_init (can_write operator_session ''prod'') None None) ?log
      (play (kube_handle True None None) (kube_panel_init True None None) cert_run)"
    unfolding w by (rule ui_run_play [OF cert_run_playable])
  from vault_unknown_to_operators [OF operator_signed_in operator_rights(2) run p] p(1)
  show ?thesis by blast
qed

text \<open>C33. Asking for access takes a role already: any signed-in user may create an access request, but to a user
  without a role on the active cluster the four lists behind the selects of the form are refused, and no run
  of the form with what is left creates a request; with any role there the lists are the cluster's.\<close>

theorem requests_need_a_role:
  assumes a: "signed_in decode a" and cl: "cl \<noteq> []"
  shows "admission_of decode (sent_call a cl (AccessRequests (AR_create p))) = Admitted \<and>
    (role_for a cl = None \<longrightarrow>
      ui_run (request_form_view (form_data decode a cl d)) request_form_env (request_form_handle (form_data decode a cl d))
        request_form_init log s \<longrightarrow> (\<forall>h. CreateRequest h \<notin> snd ` set log)) \<and>
    (role_for a cl \<noteq> None \<longrightarrow> gd_users (form_data decode a cl d) = gd_users d \<and>
      gd_namespaces (form_data decode a cl d) = gd_namespaces d \<and>
      gd_cluster_roles (form_data decode a cl d) = gd_cluster_roles d \<and>
      (\<forall>ns. plain_name ns \<longrightarrow> gd_roles (form_data decode a cl d) ns = gd_roles d ns))"
proof -
  have adm: "admission_of decode (sent_call a cl c) = (if entitled a cl c then Admitted else Refused 403)"
    if "plain_call c" for c
    using calls_entitled [OF _ that, of decode a cl] a cl by (simp add: signed_in_def or_local_def truthy_def)
  have get: "entitled a cl (Users users_call.US_list) \<longleftrightarrow> role_for a cl \<noteq> None"
    "entitled a cl (Rbac RB_listNamespaces) \<longleftrightarrow> role_for a cl \<noteq> None"
    "entitled a cl (Rbac (RB_listClusterRoles False 500 None)) \<longleftrightarrow> role_for a cl \<noteq> None"
    "entitled a cl (Rbac (RB_listRoles ns 500 None)) \<longleftrightarrow> role_for a cl \<noteq> None" for ns
    by (simp_all add: req_def)
  have none: "\<forall>h. CreateRequest h \<notin> snd ` set log" if no: "role_for a cl = None"
    and run: "ui_run (request_form_view (form_data decode a cl d)) request_form_env
      (request_form_handle (form_data decode a cl d)) request_form_init log s"
  proof (intro allI notI)
    fix h
    assume "CreateRequest h \<in> snd ` set log"
    then obtain s' where "(s', CreateRequest h) \<in> set log" by force
    from request_form.run_ok [OF run page_starts(9) this] obtain u where "u \<in> set (gd_users (form_data decode a cl d))"
      by (auto simp: request_ok_def)
    with no show False by (simp add: form_data_def listed_or_empty_def adm get req_def)
  qed
  show ?thesis
    using adm [of "AccessRequests (AR_create p)"] none by (auto simp: form_data_def listed_or_empty_def adm get req_def)
qed

theorem requests_need_a_role_witness:
  "\<forall>h. CreateRequest h \<notin> snd ` set (play_log (request_form_handle (form_data read_token operator_session ''dev'' demo_grants))
     request_form_init [RF_reason ''deploy''])"
proof -
  let ?d = "form_data read_token operator_session ''dev'' demo_grants"
  have play: "playable (request_form_view ?d) request_form_env (request_form_handle ?d) request_form_init [RF_reason ''deploy'']"
    by (simp add: request_form_view_def)
  show ?thesis
    using requests_need_a_role [OF operator_signed_in, THEN conjunct2, THEN conjunct1, THEN mp, OF _ operator_rights(3), THEN mp,
        OF _ ui_run_play [OF play]] by simp
qed

end
