(* ===== verification/AuditTrail.thy ===== *)
theory AuditTrail
  imports Endpoints AccessPanels Listing
begin

text \<open>
  The audit log on the backend: \<^verbatim>\<open>core/audit_middleware.py\<close>, which writes an entry for every mutating request
  to an audited path, and \<^verbatim>\<open>services/audit_service.py\<close>, which reads them for the audit page (Listing.thy).
  As in Endpoints.thy paths go without \<^verbatim>\<open>/api/v1\<close>. The status of the response of an endpoint that was let in,
  the time and the search in a path (an operator of the database, \<open>contains\<close>) are parameters.
\<close>

section \<open>core/audit_middleware.py\<close>

definition AUDITED_PREFIXES :: "string list" where
  "AUDITED_PREFIXES = [''/rbac'', ''/users'', ''/tokens'', ''/cluster'', ''/admin'', ''/auth/users'',
     ''/access-requests/policies'', ''/permissions'']"

definition CLUSTER_SCOPED_PREFIXES :: "string list" where
  "CLUSTER_SCOPED_PREFIXES = [''/rbac'', ''/users'', ''/tokens'']"

definition AUDITED_METHODS :: "http_method list" where
  "AUDITED_METHODS = [POST, PUT, PATCH, DELETE]"

definition REDACT_KEYS :: "string list" where
  "REDACT_KEYS = [''password'', ''token'', ''secret'', ''bind_password'', ''ca_data'', ''new_password'', ''current_password'']"

text \<open>The body as it arrives: JSON has no \<open>undefined\<close>.\<close>

fun json_body :: "jsval \<Rightarrow> jsval" where
  "json_body (JObj fs) = JObj (filter (\<lambda>f. snd f \<noteq> JUndefined) (map (map_prod id json_body) fs))"
| "json_body (JArr vs) = JArr (map (\<lambda>v. if json_body v = JUndefined then JNull else json_body v) vs)"
| "json_body v = v"

fun redact :: "jsval \<Rightarrow> jsval" where
  "redact (JObj fs) =
     JObj (map (\<lambda>(k, v). (k, if toLowerCase k \<in> set REDACT_KEYS then JStr ''***redacted***'' else redact v)) fs)"
| "redact (JArr vs) = JArr (map redact vs)"
| "redact v = v"


definition starts_with :: "string \<Rightarrow> string list \<Rightarrow> bool" where
  "starts_with path starts \<longleftrightarrow> list_ex (\<lambda>p. prefix p path) starts"

definition actor_from_request :: "(string \<Rightarrow> auth_user option) \<Rightarrow> config \<Rightarrow> string option \<times> role option" where
  "actor_from_request decode cfg =
     (case get_current_user decode cfg of
        None \<Rightarrow> (None, None)
      | Some u \<Rightarrow>
          let scope = (if starts_with (rq_path (cf_request cfg)) CLUSTER_SCOPED_PREFIXES
                       then request_cluster cfg else INSTANCE_SCOPE)
          in (Some (au_username u), map_of (au_roles u) scope))"

record log_entry =
  le_timestamp :: int
  le_actor :: "string option"
  le_actor_role :: "role option"
  le_method :: http_method
  le_path :: string
  le_status_code :: nat
  le_payload :: "jsval option"

definition should_audit :: "request \<Rightarrow> bool" where
  "should_audit r \<longleftrightarrow> rq_method r \<in> set AUDITED_METHODS \<and> starts_with (rq_path r) AUDITED_PREFIXES"

text \<open>\<open>status\<close>: that of the response of \<open>call_next\<close>, if there is one. An exception no handler of the application
  takes passes the middleware, and nothing is written.\<close>

definition dispatch :: "(string \<Rightarrow> auth_user option) \<Rightarrow> int \<Rightarrow> nat option \<Rightarrow> config \<Rightarrow> log_entry option" where
  "dispatch decode now status cfg =
     (let r = cf_request cfg; (actor, actor_role) = actor_from_request decode cfg in
      case status of
        None \<Rightarrow> None
      | Some code \<Rightarrow>
          if should_audit r
          then Some \<lparr>le_timestamp = now, le_actor = actor, le_actor_role = actor_role, le_method = rq_method r,
                 le_path = rq_path r, le_status_code = code,
                 le_payload = map_option (redact \<circ> json_body) (rq_body r)\<rparr>
          else None)"

text \<open>The middleware around the application: a refusal is a response like any other. \<open>answer\<close> is the status an
  endpoint gives a request that was let in, none when it ends in an exception without a handler.\<close>

definition response_status :: "(string \<Rightarrow> auth_user option) \<Rightarrow> nat option \<Rightarrow> config \<Rightarrow> nat option" where
  "response_status decode answer cfg =
     (case admission_of decode cfg of Admitted \<Rightarrow> answer | Refused n \<Rightarrow> Some n)"

definition audited_app :: "(string \<Rightarrow> auth_user option) \<Rightarrow> int \<Rightarrow> nat option \<Rightarrow> config \<Rightarrow> log_entry option" where
  "audited_app decode now answer cfg = dispatch decode now (response_status decode answer cfg) cfg"


section \<open>services/audit_service.py\<close>

text \<open>A filter that is empty is none.\<close>

definition matching :: "(string \<Rightarrow> string \<Rightarrow> bool) \<Rightarrow> string option \<Rightarrow> string option \<Rightarrow> log_entry list \<Rightarrow> log_entry list" where
  "matching contains actor path_contains log = filter (\<lambda>e.
     (case actor of Some a \<Rightarrow> \<not> truthy a \<or> le_actor e = Some a | None \<Rightarrow> True) \<and>
     (case path_contains of Some p \<Rightarrow> \<not> truthy p \<or> contains (le_path e) p | None \<Rightarrow> True)) log"

text \<open>Newest first; entries of one instant, whose order the database leaves open, as the log has them.\<close>

definition list_entries ::
  "(string \<Rightarrow> string \<Rightarrow> bool) \<Rightarrow> audit_log_query \<Rightarrow> log_entry list \<Rightarrow> log_entry list \<times> nat"
where
  "list_entries contains q log =
     (let es = matching contains (al_actor q) (al_path_contains q) log in
      (take (al_limit q) (drop (al_offset q) (sort_key (\<lambda>e. - le_timestamp e) es)), length es))"

definition export_entries ::
  "(string \<Rightarrow> string \<Rightarrow> bool) \<Rightarrow> int option \<Rightarrow> int option \<Rightarrow> string option \<Rightarrow> string option \<Rightarrow> log_entry list \<Rightarrow> log_entry list"
where
  "export_entries contains since until actor path_contains log =
     sort_key le_timestamp (filter (\<lambda>e.
       (case since of Some t \<Rightarrow> t \<le> le_timestamp e | None \<Rightarrow> True) \<and>
       (case until of Some t \<Rightarrow> le_timestamp e \<le> t | None \<Rightarrow> True)) (matching contains actor path_contains log))"

text \<open>\<^verbatim>\<open>routers/audit.py\<close>: a day given for \<open>from\<close> or \<open>to\<close> is read as its midnight (\<open>midnight\<close>, a parser of dates).\<close>

definition export_audit_log ::
  "(string \<Rightarrow> int) \<Rightarrow> (string \<Rightarrow> string \<Rightarrow> bool) \<Rightarrow> audit_log_export_query \<Rightarrow> log_entry list \<Rightarrow> log_entry list"
where
  "export_audit_log midnight contains q log = export_entries contains (map_option midnight (ax_from q))
     (map_option midnight (ax_to q)) (ax_actor q) (ax_path_contains q) log"

section \<open>Lemmas\<close>

text \<open>The changes the log is meant to hold, and the scope whose role it names.\<close>

fun audited :: "api_call \<Rightarrow> bool" where
  "audited (Kubeconfig p) = False"
| "audited (AccessRequests (AR_setPolicy k n p)) = True"
| "audited (AccessRequests (AR_deletePolicy k n)) = True"
| "audited (AccessRequests c) = False"
| "audited c = (rq_method (api_request c) \<noteq> GET)"

fun in_cluster :: "api_call \<Rightarrow> bool" where
  "in_cluster (Users c) = True"
| "in_cluster (Rbac c) = True"
| "in_cluster (Tokens c) = True"
| "in_cluster c = False"

definition change_scope :: "string \<Rightarrow> api_call \<Rightarrow> string" where
  "change_scope cl c = (if in_cluster c then or_local cl else INSTANCE_SCOPE)"

fun review_id :: "api_call \<Rightarrow> string option" where
  "review_id (AccessRequests (AR_approve i)) = Some i"
| "review_id (AccessRequests (AR_deny i)) = Some i"
| "review_id (AccessRequests (AR_revoke i)) = Some i"
| "review_id c = None"

lemmas path_prefix = starts_with_def AUDITED_PREFIXES_def CLUSTER_SCOPED_PREFIXES_def req_def path_of_def

lemma prefix_review:
  assumes "CHR ''/'' \<notin> set p"
  shows "prefix p (i @ CHR ''/'' # s) \<longleftrightarrow> prefix p i"
  using assms by (auto simp: prefix_append prefix_Cons)

lemmas audit_path = path_prefix should_audit_def AUDITED_METHODS_def

lemma audit_of_call:
  assumes "\<And>i. review_id c = Some i \<Longrightarrow> \<not> prefix ''policies'' i"
  shows "should_audit (api_request c) = audited c \<and>
    starts_with (rq_path (api_request c)) CLUSTER_SCOPED_PREFIXES = in_cluster c"
proof (cases c)
  case (AccessRequests x)
  with assms show ?thesis by (cases x) (simp_all add: audit_path prefix_review)
next
  case (AdminApi x)
  then show ?thesis by (cases x) (simp_all add: audit_path)
next
  case (Audit x)
  then show ?thesis by (cases x) (simp_all add: audit_path)
next
  case (ClusterApi x)
  then show ?thesis by (cases x) (simp_all add: audit_path)
next
  case (Permissions x)
  then show ?thesis by (cases x) (simp_all add: audit_path)
next
  case (Rbac x)
  then show ?thesis by (cases x) (simp_all add: audit_path)
next
  case (Tokens x)
  then show ?thesis by (cases x) (simp_all add: audit_path)
next
  case (Users x)
  then show ?thesis by (cases x) (simp_all add: audit_path)
next
  case (Vault x)
  then show ?thesis by (cases x) (simp_all add: audit_path)
qed (simp_all add: audit_path kubeconfig_request_def my_link_request_def)

lemma sent_keeps [simp]:
  "rq_path (cf_request (sent_call a cl c)) = rq_path (api_request c)"
  "rq_body (cf_request (sent_call a cl c)) = rq_body (api_request c)"
  by (simp_all add: sent_call_def request_interceptor_def call_config_def Let_def split: option.splits)

lemma should_audit_sent: "should_audit (cf_request (sent_call a cl c)) = should_audit (api_request c)"
  by (simp add: should_audit_def)

lemma actor_sent:
  assumes "token_agrees decode a"
    and "starts_with (rq_path (api_request c)) CLUSTER_SCOPED_PREFIXES = in_cluster c"
  shows "actor_from_request decode (sent_call a cl c) =
    (map_option au_username (as_user a), role_for a (change_scope cl c))"
  using assms(2)
  by (simp add: actor_from_request_def sent_user [OF assms(1)] change_scope_def role_for_def split: option.split)

section \<open>Properties\<close>

text \<open>C6. What the audit log is given of the frontend: as long as the token names the user of the store and names
  stay one segment of a URL (and no id of a request begins with \<open>policies\<close>), exactly the changes sent to users,
  roles and bindings, tokens, the registry, Vault, accounts, rights and policies, simulated reviews included, let
  in or not (neither kubeconfigs nor requests for access and their reviews), each with the user of the store, the
  role the store gives the user where the change is made, the path without the query, the status of the answer,
  401 and 403 included, and the body without its secrets; but a change that was let in and ends in an exception no
  handler takes leaves no entry.\<close>

theorem changes_audited:
  assumes "token_agrees decode a" and "plain_call c"
    and "\<And>i. review_id c = Some i \<Longrightarrow> \<not> prefix ''policies'' i"
    and status: "status = (if as_user a = None then Some 401 else if entitled a (or_local cluster) c then answer else Some 403)"
  shows "audited_app decode now answer (sent_call a cluster c) =
    (case status of
       Some code \<Rightarrow>
         if audited c
         then Some \<lparr>le_timestamp = now, le_actor = map_option au_username (as_user a),
           le_actor_role = role_for a (change_scope cluster c), le_method = rq_method (api_request c),
           le_path = rq_path (api_request c), le_status_code = code,
           le_payload = map_option (redact \<circ> json_body) (rq_body (api_request c))\<rparr>
         else None
     | None \<Rightarrow> None)"
  using audit_of_call [OF assms(3)] actor_sent [OF assms(1)]
  by (simp add: audited_app_def dispatch_def response_status_def calls_entitled [OF assms(1,2)] should_audit_sent
      Let_def comp_def status split: option.split)

theorem changes_audited_witness:
  "audited_app read_token 5 (Some 204) (sent_call operator_session ''prod'' (AdminApi (AD_resetPassword ''ann'' ''s3cret''))) =
   Some \<lparr>le_timestamp = 5, le_actor = Some ''olga'', le_actor_role = None, le_method = POST,
     le_path = ''/auth/users/ann/password'', le_status_code = 403,
     le_payload = Some (JObj [(''username'', JStr ''ann''), (''password'', JStr ''***redacted***'')])\<rparr>"
proof -
  let ?c = "AdminApi (AD_resetPassword ''ann'' ''s3cret'')"
  have plain: "plain_call ?c" by (simp add: plain_name_def)
  have user: "map_option au_username (as_user operator_session) = Some ''olga''"
    "role_for operator_session INSTANCE_SCOPE = None"
    by (simp_all add: operator_session_def role_for_def INSTANCE_SCOPE_def)
  have keys: "toLowerCase ''password'' \<in> set REDACT_KEYS" "toLowerCase ''username'' \<notin> set REDACT_KEYS"
    by code_simp+
  have signed_in: "as_user operator_session \<noteq> None" by (simp add: operator_session_def)
  have scope: "change_scope ''prod'' ?c = INSTANCE_SCOPE" by (simp add: change_scope_def)
  have id: "\<not> prefix ''policies'' i" if "review_id ?c = Some i" for i using that by simp
  from changes_audited [OF operator_agrees plain id refl, where cluster = "''prod''" and now = 5 and answer = "Some 204"]
    operator_rights user keys
  show ?thesis by (simp add: scope req_def path_of_def signed_in del: map_option_eq_Some)
qed

text \<open>What a call carries that must not be written down.\<close>

fun without_secrets :: "api_call \<Rightarrow> api_call" where
  "without_secrets (AdminApi (AD_createUser u p)) = AdminApi (AD_createUser u [])"
| "without_secrets (AdminApi (AD_resetPassword u p)) = AdminApi (AD_resetPassword u [])"
| "without_secrets (ClusterApi (CL_add p)) = ClusterApi (CL_add (p\<lparr>ac_ca_data := [], ac_token := []\<rparr>))"
| "without_secrets (Vault (VA_configure p)) = Vault (VA_configure (p\<lparr>v_token := []\<rparr>))"
| "without_secrets (Kubeconfig p) = Kubeconfig (p\<lparr>k_private_key_pem := None\<rparr>)"
| "without_secrets c = c"

lemma secret_keys:
  "toLowerCase ''password'' \<in> set REDACT_KEYS" "toLowerCase ''token'' \<in> set REDACT_KEYS"
  "toLowerCase ''ca_data'' \<in> set REDACT_KEYS"
  by code_simp+

lemma kubeconfig_unaudited: "\<not> should_audit (kubeconfig_request p)"
  by (simp add: should_audit_def path_prefix kubeconfig_request_def)

lemma redacted_body:
  assumes "should_audit (api_request c)"
  shows "map_option (redact \<circ> json_body) (rq_body (api_request (without_secrets c))) =
     map_option (redact \<circ> json_body) (rq_body (api_request c))"
  using assms by (induction c rule: without_secrets.induct) (simp_all add: req_def secret_keys kubeconfig_unaudited)

lemma unredacted_parts:
  "rq_method (api_request (without_secrets c)) = rq_method (api_request c)"
  "rq_path (api_request (without_secrets c)) = rq_path (api_request c)"
  by (induction c rule: without_secrets.induct) (simp_all add: req_def kubeconfig_request_def)

lemma actor_cong:
  "cf_authorization cfg = cf_authorization cfg' \<Longrightarrow> request_cluster cfg = request_cluster cfg' \<Longrightarrow>
   rq_path (cf_request cfg) = rq_path (cf_request cfg') \<Longrightarrow>
   actor_from_request decode cfg = actor_from_request decode cfg'"
  by (simp add: actor_from_request_def get_current_user_def Let_def cong: option.case_cong)

lemma without_secrets_entry:
  "dispatch decode now status (sent_call a cl (without_secrets c)) = dispatch decode now status (sent_call a cl c)"
proof -
  have actor: "actor_from_request decode (sent_call a cl (without_secrets c)) = actor_from_request decode (sent_call a cl c)"
    by (rule actor_cong) (simp_all add: sent_authorization unredacted_parts)
  have audit: "should_audit (api_request (without_secrets c)) = should_audit (api_request c)"
    by (simp add: should_audit_def unredacted_parts)
  show ?thesis
    using redacted_body [of c]
    by (auto simp: dispatch_def Let_def actor should_audit_sent audit unredacted_parts split: prod.split option.split)
qed

text \<open>C30. No secret is in the log: whatever the token, the time and the answer, two calls that differ only in a password, the
  token or the certificate authority of a cluster, the token of Vault or a private key leave the same trace.\<close>

theorem no_secret_logged:
  assumes "without_secrets c = without_secrets c'"
  shows "dispatch decode now status (sent_call a cluster c) = dispatch decode now status (sent_call a cluster c')"
  using without_secrets_entry [of decode now status a cluster c] without_secrets_entry [of decode now status a cluster c']
    assms by simp

theorem no_secret_logged_witness:
  "dispatch read_token 5 (Some 201) (sent_call operator_session ''prod'' (AdminApi (AD_createUser ''bob'' ''hunter2''))) =
   dispatch read_token 5 (Some 201) (sent_call operator_session ''prod'' (AdminApi (AD_createUser ''bob'' ''other'')))"
  by (rule no_secret_logged) simp

section \<open>The pages of the log\<close>

lemma next_offered: "fires (audit_view False False [] tot s) AP_next \<longleftrightarrow> ap_offset s + 25 < tot"
  by (auto simp: audit_view_def fires_concat_map audit_page_size_def split: if_splits)

text \<open>Reading on with Next as long as it is offered.\<close>

function read_log :: "(string \<Rightarrow> string \<Rightarrow> bool) \<Rightarrow> log_entry list \<Rightarrow> audit_page \<Rightarrow> log_entry list" where
  "read_log contains log s =
     (let (items, tot) = list_entries contains (audit_query s) log in
      items @ (if fires (audit_view False False [] tot s) AP_next
               then read_log contains log (fst (audit_handle s AP_next)) else []))"
  by pat_completeness auto

termination
proof (relation "measure (\<lambda>(contains, log, s). length log - ap_offset s)", goal_cases)
  case (2 contains log s x items tot)
  then have "ap_offset s + 25 < length (matching contains (al_actor (audit_query s)) (al_path_contains (audit_query s)) log)"
    by (auto simp: next_offered list_entries_def Let_def)
  also have "\<dots> \<le> length log" by (simp add: matching_def)
  finally show ?case by (simp add: audit_page_size_def)
qed simp

declare read_log.simps [simp del]

definition found_entries :: "(string \<Rightarrow> string \<Rightarrow> bool) \<Rightarrow> audit_page \<Rightarrow> log_entry list \<Rightarrow> log_entry list" where
  "found_entries contains s log =
     matching contains (or_undef (ap_debounced_actor s)) (or_undef (ap_debounced_path_contains s)) log"

lemma list_entries_page:
  "list_entries contains (audit_query s) log =
     (take 25 (drop (ap_offset s) (sort_key (\<lambda>e. - le_timestamp e) (found_entries contains s log))),
      length (found_entries contains s log))"
  by (simp add: list_entries_def Let_def audit_query_def found_entries_def audit_page_size_def)

lemma take_drop_on: "take n (drop k xs) @ drop (k + n) xs = drop k xs"
  by (metis append_take_drop_id drop_drop add.commute)

lemma read_log_from:
  "read_log contains log s = drop (ap_offset s) (sort_key (\<lambda>e. - le_timestamp e) (found_entries contains s log))"
proof (induction contains log s rule: read_log.induct)
  case (1 contains log s)
  let ?sorted = "sort_key (\<lambda>e. - le_timestamp e) (found_entries contains s log)"
  show ?case
  proof (cases "ap_offset s + 25 < length (found_entries contains s log)")
    case True
    with 1 have "read_log contains log s = take 25 (drop (ap_offset s) ?sorted) @ drop (ap_offset s + 25) ?sorted"
      by (subst read_log.simps) (simp add: list_entries_page next_offered found_entries_def audit_page_size_def)
    then show ?thesis by (simp add: take_drop_on)
  next
    case False
    then show ?thesis by (subst read_log.simps) (simp add: list_entries_page next_offered)
  qed
qed

text \<open>C39. The audit page reads the log out: whatever was typed and pressed before, once the pause in typing is
  over, the pages from there on as long as Next is offered are together the entries that match both inputs, each
  once and the newest first; the export takes the same entries, the oldest first, from the midnight the From day
  begins with until the midnight the To day begins with, so without the entries of the To day itself.\<close>

theorem log_read_out:
  "let s = fst (audit_handle (play audit_handle audit_page_init es) AP_timer);
       found = matching contains (or_undef (ap_actor s)) (or_undef (ap_path_contains s)) log in
   read_log contains log s = sort_key (\<lambda>e. - le_timestamp e) found \<and>
   map (\<lambda>f. case f of ExportAudit q \<Rightarrow> export_audit_log midnight contains q log) (snd (audit_handle s AP_export)) =
     [sort_key le_timestamp (filter (\<lambda>e.
        (ap_from_date s = [] \<or> midnight (ap_from_date s) \<le> le_timestamp e) \<and>
        (ap_to_date s = [] \<or> le_timestamp e \<le> midnight (ap_to_date s))) found)]"
  by (simp add: Let_def read_log_from found_entries_def export_audit_log_def export_entries_def or_undef_def truthy_def)

end
