(* ===== verification/Spec2Isabelle.thy ===== *)
theory Spec2Isabelle
  imports Collections Systems RbacYaml Routes Client Hooks Session Listing RoleEditor Wizard
    Gate UrlParams Requests Grants Users Kubeconfig Admin Clusters Widgets AccessPanels Tables
    Workspace Reports Bindings Reviews AccessViews Entitlements AuditTrail
begin

text \<open>
  ClusterVision manages the users, roles and kubeconfigs of Kubernetes clusters. This library models
  its frontend, the TypeScript code under \<^verbatim>\<open>src/frontend/src\<close>; file names below are relative to it.
  Of the backend, in Python, it models who may call what, and what is behind the permissions panel, the access
  views, the review page and the audit page.
  The frontend is a React application: a component reads stores and queries, shows controls, and its
  event handlers change its state and call hooks; a hook calls an operation of an API module; that
  builds a request, which the HTTP client sends with the token of the session and the active
  cluster, and whose answer comes back as an event.

  \<^bold>\<open>How a component is modelled.\<close> A record holds the state (the \<^verbatim>\<open>useState\<close> variables and refs, the flags of
  pending mutations, the answers of queries that may change), \<open>..._init\<close> is the state it is
  mounted with, a datatype lists its events, \<open>..._handle\<close> gives for an event the next state and the
  effects (the calls that leave the component), \<open>..._view\<close> lists the controls the render offers, each
  with its \<^verbatim>\<open>disabled\<close> flag and the event it fires, and \<open>..._env\<close> says which events the environment may
  cause (answers of pending requests, new data, timers). A run (Ui.thy, \<open>ui_run\<close>) fires enabled
  controls and environment events in any order and logs every effect with the state it was started
  in. The contract of a component is an instance of the locale \<open>ui_contract\<close>: an invariant and a
  condition on effects, proved once per event and then true of all runs. A component inside another
  keeps its own state and events; the outer one runs the effects that are its callbacks.

  \<^bold>\<open>The theories.\<close>
  \<^item> Prelude: strings as JavaScript treats them (\<^verbatim>\<open>trim\<close>, \<^verbatim>\<open>split\<close>, \<^verbatim>\<open>join\<close>, \<^verbatim>\<open>slice\<close>, truthiness), stable sorting,
    name patterns. JsValue: JSON values. UrlParams: \<^verbatim>\<open>encodeURIComponent\<close>, \<^verbatim>\<open>URLSearchParams\<close>, numerals;
    encoding and decoding are inverse.
  \<^item> Collections, Ui, Systems: the interfaces (toggled sets, components, lists of rows) as locales.
    Gate: the button and modal widgets, the specification of a confirmed operation as a machine of its
    own (\<open>gate_handle\<close>) and refinement between machines (\<open>ui_refinement\<close>: every run of a component is
    a run of the specification, effect for effect).
  \<^item> Types, Stores: \<^verbatim>\<open>types/\<close> and \<^verbatim>\<open>store/\<close>. Api, Routes: \<^verbatim>\<open>api/\<close>, one datatype per module and the request
    each operation builds; different operations build different requests. ApiError: \<^verbatim>\<open>formatApiError\<close>.
  \<^item> Client: \<^verbatim>\<open>api/client.ts\<close>, both interceptors with the shared refresh of the token, as a step
    relation; every call is answered exactly once, is sent at most twice and, once the network is
    quiet, has been answered.
  \<^item> RbacYaml: \<^verbatim>\<open>lib/parseRbacYaml.ts\<close>, sound and a left inverse of printing.
  \<^item> Hooks: \<^verbatim>\<open>hooks/\<close>, the key, call and effects of every query and mutation; a key determines its call,
    and some changes leave queries they affect stale.
  \<^item> Session: routes, guards, layout, sidebar, top bar, cluster switcher and login; redirects end, pages
    are guarded. The history brings any path back at any time and calls outlive the component that made them;
    nothing cached or in flight outlives a session, unless somebody signs in while another user still is.
  \<^item> Listing: pagination, the two sorted tables, the audit log. RoleEditor: the role editor and
    \<^verbatim>\<open>pages/RbacPage.tsx\<close>, each alone and composed as the page mounts the editor. Wizard: \<^verbatim>\<open>components/users/CreateUserWizard.tsx\<close>.
  \<^item> Requests: \<^verbatim>\<open>pages/AccessRequestsPage.tsx\<close>, \<^verbatim>\<open>pages/DashboardPage.tsx\<close>, the policies; who reviews
    what, and the review dialog refines the confirmed operation.
  \<^item> Grants: the request form and the permissions panel; what is asked for and granted was offered.
  \<^item> Users: \<^verbatim>\<open>pages/UsersPage.tsx\<close> with its import form and deletion, which refines the confirmed operation.
  \<^item> Kubeconfig: the panel that generates kubeconfigs, with its three effects as rounds that come to
    rest; what is generated and saved belongs to the selected user; links and key files read back.
  \<^item> Admin: \<^verbatim>\<open>pages/AdminPage.tsx\<close> and \<^verbatim>\<open>components/admin/\<close>. Clusters: the clusters and tokens pages;
    each of the four operations on tokens refines the confirmed operation.
    AccessPanels: the access table, with its rows, and the simulator. Tables: the texts, badges and
    marks of the remaining rows.
  \<^item> Widgets: \<^verbatim>\<open>components/ui/\<close> (the Escape listener of a modal, selects, badges), \<^verbatim>\<open>lib/downloadBlob.ts\<close>
    and the defaults of \<^verbatim>\<open>lib/queryClient.ts\<close>. Escape closes exactly the open modals.
  \<^item> Workspace: a page next to what changes around it (the session, the active cluster, the cached
    answers), down to the requests that leave; three pages and the confirmed operations on them. What is
    confirmed was listed where the request goes, unless the top bar falls back to the local cluster.
  \<^item> Reports: the mutations of the hooks over the client with its refresh; a failure shows the text of its own error.
  \<^item> Bindings: \<^verbatim>\<open>src/backend/app/services/rbac_service.py\<close>, where grants and revocations of the panel end:
    what each does to the role bindings of the cluster, and where that is not what the panel says; the endpoints
    for bindings of any name. The section on the Kubernetes API at its beginning is the environment of that code,
    not a model of a file: tables of bindings, a call that is refused or finds a name missing or taken, and what
    the API admits (\<open>kb_admits\<close>), which is left open.
  \<^item> Approvals, GrantHistory: access requests on the backend (\<^verbatim>\<open>services/access_request_service.py\<close>, its
    router and the cleanup job): every temporary grant was approved by somebody else, statuses tell what is
    bound, requests only move forward, expired grants go. The histories interleave the endpoints for requests and
    for bindings, the panel, deletions of users, the job with any of its calls failing, clusters that stop
    answering, and changes made with other tools. Reviews: the review page in front of it, and on
    which cluster a review takes effect.
  \<^item> AccessViews: the access view of a namespace on the backend, behind the access table, and the subject a simulated
    review is about. Endpoints: \<^verbatim>\<open>main.py\<close>, \<^verbatim>\<open>core/dependencies.py\<close> and the routers, who may call what; every
    call has its endpoint, and store and backend agree on the rights. Entitlements: what the pages send is
    let in, and what becomes of a page whose queries are refused. AuditTrail: \<^verbatim>\<open>core/audit_middleware.py\<close> and
    \<^verbatim>\<open>services/audit_service.py\<close>; which calls leave a trace, that no secret is in it, and that the audit page
    reads the log out.
  \<^item> At the end of this file: what holds across the pages for a user without the right to write.

  \<^bold>\<open>Parameters and hypotheses.\<close> Code outside the repository is a parameter where a property needs it: the
  router's \<open>resolve\<close>, the collation \<open>collate\<close> and the reading of dates \<open>time_of\<close>, the YAML parser, the
  matching of query keys, the moment React runs a state updater (\<open>eager\<close>). The hypotheses on them are
  named where they are used. Names and namespaces of Kubernetes users contain no slash (\<open>no_slash\<close>), and
  the registry lists one local cluster, under the name \<^verbatim>\<open>local\<close>, which its backend reserves. The rights and the
  name of the signed-in user and the active cluster are parameters of the pages; in Workspace they
  change. What Kubernetes makes of the subjects of a binding that is patched is a parameter (\<open>merge\<close>), and
  so are the local form of a date (\<open>locale_string\<close>), its ISO form (\<open>isoformat\<close>), the instant a day begins
  (\<open>midnight\<close>), the search in a path by the database (\<open>contains\<close>) and the user an access token names
  (\<open>decode\<close>); that it is the user of the store is the hypothesis \<open>token_agrees\<close>. In the histories of
  the backend other tools may change a cluster as they like, except that they put the label of temporary grants on
  no binding and change a labelled one only by deleting it or taking the label off (\<open>backend_env\<close>); the database
  answers every call.

  \<^bold>\<open>Recursion and bounds.\<close> There is no fuel. Loops are structural or have a measure: the rounds of the
  effects of the kubeconfig panel (at most three are ever needed), splitting a string, printing a
  numeral, redirects. JavaScript numbers occur as page numbers, counts and minutes, far below the
  range where they stop being integers; they are \<^verbatim>\<open>nat\<close> and \<^verbatim>\<open>int\<close>.

  \<^bold>\<open>Not modelled.\<close> Layout, icons and texts that only inform; toasts of the mutations the admin page
  defines inline; the libraries themselves (React, the router, the query cache, axios, zustand and its
  persistence); browser I/O (files, clipboard: they are effects with their content); the 404 page and
  \<^verbatim>\<open>main.tsx\<close>; of the Python backend the creation of users, certificates and kubeconfigs, tokens, roles, clusters, Vault and LDAP,
  which are calls of Kubernetes, Vault and the database; the deployment files. Answers to
  mutations of a component that is gone are modelled where their callback still changes something (the
  wizard, the registration of a cluster, the sign-in).
\<close>

section \<open>Rights across the pages\<close>

lemma no_rights:
  "\<not> users_page_ok False d s1 (UsersCall h1)" "\<not> page_ok False s2 (Mutate m)" "\<not> tokens_ok False s3 (TokenSend h3)"
  "\<not> kube_ok False s4 f4" "\<not> simulator_ok False s5 f5" "\<not> pp_can_write p \<Longrightarrow> \<not> perms_panel_ok p g s6 f6"
proof -
  show "\<not> users_page_ok False d s1 (UsersCall h1)" by (cases h1) simp_all
  show "\<not> page_ok False s2 (Mutate m)" by simp
  show "\<not> tokens_ok False s3 (TokenSend h3)" by simp
  show "\<not> kube_ok False s4 f4" by (cases f4) (simp_all add: kube_ok_def payload_of_def)
  show "\<not> simulator_ok False s5 f5" by (simp add: simulator_ok_def)
  show "\<not> pp_can_write p \<Longrightarrow> \<not> perms_panel_ok p g s6 f6" by (cases f6) simp_all
qed

text \<open>C24. Who may not write on the active cluster changes nothing there: whatever the roles of the
  signed-in user are, when the store denies writing, no run of the users page, the permissions panel,
  the roles page, the tokens page, the kubeconfig panel or the simulator sends any of its mutations
  (and the wizard is never opened, no kubeconfig generated, copied or saved).\<close>

theorem viewers_change_nothing:
  assumes w: "w = can_write store cluster" and no: "\<not> w"
  shows "(ui_run (users_page_view collate time_of w d) users_page_env users_page_handle users_page_init l1 t1 \<longrightarrow>
      (\<forall>h. UsersCall h \<notin> snd ` set l1) \<and> \<not> us_create_open t1) \<and>
    (ui_run (perms_panel_view (p\<lparr>pp_can_write := w\<rparr>) g) perms_panel_env (perms_panel_handle (p\<lparr>pp_can_write := w\<rparr>))
       perms_panel_init l2 t2 \<longrightarrow> l2 = []) \<and>
    (ui_run (rbac_page_view w r) (rbac_page_env r) rbac_page_handle rbac_page_init l3 t3 \<longrightarrow>
      (\<forall>m. Mutate m \<notin> snd ` set l3)) \<and>
    (ui_run (tokens_view w) tokens_env tokens_handle tokens_page_init l4 t4 \<longrightarrow>
      (\<forall>h. TokenSend h \<notin> snd ` set l4)) \<and>
    (ui_run (kube_view w ns) kube_env (kube_handle w pn pns) (kube_panel_init w pn pns) l5 t5 \<longrightarrow> l5 = []) \<and>
    (ui_run (simulator_view w ns) simulator_env simulator_handle simulator_init l6 t6 \<longrightarrow> l6 = [])"
proof -
  have f: "w = False" using no by simp
  have empty: "l = []" if "\<And>s f. (s, f) \<notin> set l" for l :: "('s \<times> 'f) list"
    using that by (cases l) auto
  have absent: "\<forall>h. c h \<notin> snd ` set l" if "\<And>s h. (s, c h) \<notin> set l" for l :: "('s \<times> 'f) list" and c :: "'h \<Rightarrow> 'f"
    using that by force
  show ?thesis
    unfolding f
  proof (intro conjI impI)
    show "\<forall>h. UsersCall h \<notin> snd ` set l1"
      if "ui_run (users_page_view collate time_of False d) users_page_env users_page_handle users_page_init l1 t1"
      using users_page.run_ok [OF that page_starts(1)] no_rights(1) by (intro absent) blast
    show "\<not> us_create_open t1"
      if "ui_run (users_page_view collate time_of False d) users_page_env users_page_handle users_page_init l1 t1"
      using users_page.run_inv [OF that page_starts(1)] by (simp add: users_page_inv_def)
    show "l2 = []"
      if "ui_run (perms_panel_view (p\<lparr>pp_can_write := False\<rparr>) g) perms_panel_env
        (perms_panel_handle (p\<lparr>pp_can_write := False\<rparr>)) perms_panel_init l2 t2"
      using perms_panel.run_ok [OF that page_starts(5)] no_rights(6) [of "p\<lparr>pp_can_write := False\<rparr>"]
      by (intro empty) auto
    show "\<forall>m. Mutate m \<notin> snd ` set l3"
      if "ui_run (rbac_page_view False r) (rbac_page_env r) rbac_page_handle rbac_page_init l3 t3"
      using rbac_page.run_ok [OF that page_starts(2)] no_rights(2) by (intro absent) blast
    show "\<forall>h. TokenSend h \<notin> snd ` set l4"
      if "ui_run (tokens_view False) tokens_env tokens_handle tokens_page_init l4 t4"
      using tokens_page.run_ok [OF that page_starts(3)] no_rights(3) by (intro absent) blast
    show "l5 = []"
      if "ui_run (kube_view False ns) kube_env (kube_handle False pn pns) (kube_panel_init False pn pns) l5 t5"
      using kube.run_ok [OF that kube_panel_init_inv] no_rights(4) by (intro empty) blast
    show "l6 = []" if "ui_run (simulator_view False ns) simulator_env simulator_handle simulator_init l6 t6"
      using simulator.run_ok [OF that page_starts(4)] no_rights(5) by (intro empty) blast
  qed
qed

definition viewer_session :: auth_store where
  "viewer_session = \<lparr>as_user = Some \<lparr>au_username = ''eve'', au_roles = [(''prod'', Viewer)]\<rparr>, as_token = None\<rparr>"

definition viewer_run :: "tokens_event list" where
  "viewer_run = [TP_sa_tokens (Some [ci_token]), TP_tab SaTokensTab, TP_refresh]"

lemma viewer_run_playable: "playable (tokens_view w) tokens_env tokens_handle tokens_page_init viewer_run"
  by (simp add: viewer_run_def tokens_view_def tokens_page_init_def)

theorem viewers_change_nothing_witness:
  "\<not> can_write viewer_session ''prod'' \<and>
   (\<forall>h. TokenSend h \<notin> snd ` set (play_log tokens_handle tokens_page_init viewer_run))"
proof -
  have no: "\<not> can_write viewer_session ''prod''"
    by (simp add: can_write_def role_for_def viewer_session_def Let_def)
  from viewers_change_nothing [OF refl no, THEN conjunct2, THEN conjunct2, THEN conjunct2, THEN conjunct1,
      THEN mp, OF ui_run_play [OF viewer_run_playable]] no
  show ?thesis by (rule conjI [rotated])
qed

end
